theory Spec2Isabelle
  imports Complex_Main "HOL-Library.Multiset" "HOL-Library.AList"
begin

section \<open>Common data model\<close>

text \<open>
  Every way a call can fail to return: a hard assertion that aborts the process, an
  array access outside its bounds, the use of a null or dangling pointer (both undefined
  behaviour in the source) and an allocation of negative size.
\<close>

datatype error = AssertionFailed | OutOfBounds | InvalidPointer | BadAlloc

definition bindE :: "error + 'a \<Rightarrow> ('a \<Rightarrow> error + 'b) \<Rightarrow> error + 'b" where
  "bindE m f = (case m of Inl e \<Rightarrow> Inl e | Inr x \<Rightarrow> f x)"

text \<open>Guarded array read and write: \<open>index_type\<close> is a signed integer.\<close>

definition rd :: "'a list \<Rightarrow> int \<Rightarrow> error + 'a" where
  "rd xs i = (if 0 \<le> i \<and> i < int (length xs) then Inr (xs ! nat i) else Inl OutOfBounds)"

definition wr :: "'a list \<Rightarrow> int \<Rightarrow> 'a \<Rightarrow> error + 'a list" where
  "wr xs i v = (if 0 \<le> i \<and> i < int (length xs) then Inr (xs[nat i := v]) else Inl OutOfBounds)"

text \<open>
  A counted loop \<open>for (i = lo; i < hi; ++i) body\<close> over a state; the first failing
  iteration ends it.
\<close>

function for_loop :: "int \<Rightarrow> int \<Rightarrow> (int \<Rightarrow> 's \<Rightarrow> error + 's) \<Rightarrow> 's \<Rightarrow> error + 's" where
  "for_loop i hi body s =
     (if i < hi
      then (case body i s of Inl e \<Rightarrow> Inl e | Inr s' \<Rightarrow> for_loop (i + 1) hi body s')
      else Inr s)"
  by pat_completeness auto
termination
  by (relation "measure (\<lambda>(i, hi, body, s). nat (hi - i))") auto

declare for_loop.simps [simp del]

text \<open>
  \<open>real_type\<close>: the source only stores, copies and returns these values, and names
  one special value, the quiet NaN.
\<close>

datatype real_type = Finite real | quiet_NaN

datatype MemorySpace = HOST | DEVICE

text \<open>
  The format tag of a sparse matrix. The source names two tags; the enumeration itself
  is declared outside the files at hand, so every other tag is \<open>OTHER_FORMAT k\<close>.
\<close>

datatype SparseFormat = COMPRESSED_SPARSE_ROW | COMPRESSED_SPARSE_COLUMN | OTHER_FORMAT nat

text \<open>
  A sparse matrix: for CSR, \<open>row_data\<close> is the row-pointer array and \<open>col_data\<close>
  the column indices; for CSC, \<open>col_data\<close> is the column-pointer array and
  \<open>row_data\<close> the row indices. One logical copy of each array is kept.
\<close>

record Sparse =
  num_rows :: int
  num_columns :: int
  num_nnz :: int
  sparse_format :: SparseFormat
  row_data :: "int list"
  col_data :: "int list"
  val_data :: "real_type list"

definition getNumRows :: "Sparse \<Rightarrow> int" where
  "getNumRows A = num_rows A"

definition getNumColumns :: "Sparse \<Rightarrow> int" where
  "getNumColumns A = num_columns A"

definition getNnz :: "Sparse \<Rightarrow> int" where
  "getNnz A = num_nnz A"

definition getSparseFormat :: "Sparse \<Rightarrow> SparseFormat" where
  "getSparseFormat A = sparse_format A"

section \<open>LinSolverDirectCuSolverRf::csc2csr\<close>

text \<open>
  The working state of the conversion: the three destination arrays
  \<open>(rowPtrCsr, colIdxCsr, valuesCsr)\<close>.
\<close>

type_synonym csr_arrays = "int list \<times> int list \<times> real_type list"

text \<open>Set all CSR row pointers to zero.\<close>

definition zero_row_ptr :: "int \<Rightarrow> csr_arrays \<Rightarrow> error + csr_arrays" where
  "zero_row_ptr i s =
     (case s of (rowPtrCsr, colIdxCsr, valuesCsr) \<Rightarrow>
        bindE (wr rowPtrCsr i 0) (\<lambda>rp. Inr (rp, colIdxCsr, valuesCsr)))"

text \<open>Set all CSR values and column indices to zero.\<close>

definition zero_entry :: "int \<Rightarrow> csr_arrays \<Rightarrow> error + csr_arrays" where
  "zero_entry i s =
     (case s of (rowPtrCsr, colIdxCsr, valuesCsr) \<Rightarrow>
        bindE (wr colIdxCsr i 0) (\<lambda>ci.
        bindE (wr valuesCsr i (Finite 0)) (\<lambda>vs. Inr (rowPtrCsr, ci, vs))))"

text \<open>Compute number of entries per row: \<open>rowPtrCsr[rowIdxCsc[i]]++\<close>.\<close>

definition count_entry :: "int list \<Rightarrow> int \<Rightarrow> csr_arrays \<Rightarrow> error + csr_arrays" where
  "count_entry rowIdxCsc i s =
     (case s of (rowPtrCsr, colIdxCsr, valuesCsr) \<Rightarrow>
        bindE (rd rowIdxCsc i) (\<lambda>r.
        bindE (rd rowPtrCsr r) (\<lambda>c.
        bindE (wr rowPtrCsr r (c + 1)) (\<lambda>rp. Inr (rp, colIdxCsr, valuesCsr)))))"

text \<open>Cumulative sum of nnz per row; the loop carries \<open>rowsum\<close>.\<close>

definition cumsum_step :: "int \<Rightarrow> csr_arrays \<times> int \<Rightarrow> error + csr_arrays \<times> int" where
  "cumsum_step row st =
     (case st of ((rowPtrCsr, colIdxCsr, valuesCsr), rowsum) \<Rightarrow>
        bindE (rd rowPtrCsr row) (\<lambda>temp.
        bindE (wr rowPtrCsr row rowsum) (\<lambda>rp.
        Inr ((rp, colIdxCsr, valuesCsr), rowsum + temp))))"

text \<open>The body of the inner scatter loop, for source position \<open>jj\<close> of column \<open>col\<close>.\<close>

definition scatter_entry ::
  "int list \<Rightarrow> real_type list \<Rightarrow> int \<Rightarrow> int \<Rightarrow> csr_arrays \<Rightarrow> error + csr_arrays" where
  "scatter_entry rowIdxCsc valuesCsc col jj s =
     (case s of (rowPtrCsr, colIdxCsr, valuesCsr) \<Rightarrow>
        bindE (rd rowIdxCsc jj) (\<lambda>row.
        bindE (rd rowPtrCsr row) (\<lambda>dest.
        bindE (wr colIdxCsr dest col) (\<lambda>ci.
        bindE (rd valuesCsc jj) (\<lambda>v.
        bindE (wr valuesCsr dest v) (\<lambda>vs.
        bindE (rd rowPtrCsr row) (\<lambda>c.
        bindE (wr rowPtrCsr row (c + 1)) (\<lambda>rp. Inr (rp, ci, vs)))))))))"

text \<open>The body of the outer scatter loop: all source positions of column \<open>col\<close>.\<close>

definition scatter_column ::
  "int list \<Rightarrow> int list \<Rightarrow> real_type list \<Rightarrow> int \<Rightarrow> csr_arrays \<Rightarrow> error + csr_arrays" where
  "scatter_column rowIdxCsc colPtrCsc valuesCsc col s =
     bindE (rd colPtrCsc col) (\<lambda>lo.
     bindE (rd colPtrCsc (col + 1)) (\<lambda>hi.
       for_loop lo hi (scatter_entry rowIdxCsc valuesCsc col) s))"

text \<open>Restore CSR row pointer values; the loop carries \<open>last\<close>.\<close>

definition unshift_step :: "int \<Rightarrow> csr_arrays \<times> int \<Rightarrow> error + csr_arrays \<times> int" where
  "unshift_step row st =
     (case st of ((rowPtrCsr, colIdxCsr, valuesCsr), last') \<Rightarrow>
        bindE (rd rowPtrCsr row) (\<lambda>temp.
        bindE (wr rowPtrCsr row last') (\<lambda>rp.
        Inr ((rp, colIdxCsr, valuesCsr), temp))))"

text \<open>
  The conversion. The three assertions come first; \<open>n\<close> is the number of columns of
  the source, and every loop over the row pointers runs to \<open>n\<close>. The destination
  arrays arrive allocated, with whatever content the allocation left.
\<close>

definition csc2csr :: "Sparse \<Rightarrow> Sparse \<Rightarrow> error + int \<times> Sparse" where
  "csc2csr A_csc A_csr =
     (if getNnz A_csc \<noteq> getNnz A_csr then Inl AssertionFailed
      else if getNumRows A_csc \<noteq> getNumRows A_csr then Inl AssertionFailed
      else if getNumColumns A_csr \<noteq> getNumColumns A_csc then Inl AssertionFailed
      else
        let nnz = getNnz A_csc;
            n = getNumColumns A_csc;
            rowIdxCsc = row_data A_csc;
            colPtrCsc = col_data A_csc;
            valuesCsc = val_data A_csc
        in
        bindE (for_loop 0 (n + 1) zero_row_ptr (row_data A_csr, col_data A_csr, val_data A_csr)) (\<lambda>s1.
        bindE (for_loop 0 nnz zero_entry s1) (\<lambda>s2.
        bindE (for_loop 0 nnz (count_entry rowIdxCsc) s2) (\<lambda>s3.
        bindE (for_loop 0 n cumsum_step (s3, 0)) (\<lambda>(s4, rowsum).
        bindE (case s4 of (rowPtrCsr, colIdxCsr, valuesCsr) \<Rightarrow>
                 bindE (wr rowPtrCsr n nnz) (\<lambda>rp. Inr (rp, colIdxCsr, valuesCsr))) (\<lambda>s5.
        bindE (for_loop 0 n (scatter_column rowIdxCsc colPtrCsc valuesCsc) s5) (\<lambda>s6.
        bindE (for_loop 0 (n + 1) unshift_step (s6, 0)) (\<lambda>(s7, last').
          case s7 of (rowPtrCsr, colIdxCsr, valuesCsr) \<Rightarrow>
            Inr (0, A_csr\<lparr>row_data := rowPtrCsr, col_data := colIdxCsr, val_data := valuesCsr\<rparr>)))))))))"


section \<open>What a conversion has to achieve\<close>

text \<open>
  A CSC matrix with valid structure: the column pointers are non-decreasing, start at 0
  and end at nnz, the arrays have their lengths, and the row indices are in range.
\<close>

definition csc_valid :: "Sparse \<Rightarrow> bool" where
  "csc_valid A =
     (0 \<le> num_rows A \<and> 0 \<le> num_columns A \<and> 0 \<le> num_nnz A
      \<and> length (col_data A) = nat (num_columns A) + 1
      \<and> length (row_data A) = nat (num_nnz A)
      \<and> length (val_data A) = nat (num_nnz A)
      \<and> sorted (col_data A)
      \<and> col_data A ! 0 = 0
      \<and> col_data A ! nat (num_columns A) = num_nnz A
      \<and> list_all (\<lambda>r. 0 \<le> r \<and> r < num_rows A) (row_data A))"

text \<open>A destination whose three arrays are allocated, with any content.\<close>

definition csr_allocated :: "Sparse \<Rightarrow> bool" where
  "csr_allocated M =
     (length (row_data M) = nat (num_rows M) + 1
      \<and> length (col_data M) = nat (num_nnz M)
      \<and> length (val_data M) = nat (num_nnz M))"

text \<open>
  The invariant of the pointer array of a CSR matrix: non-decreasing, 0 first, nnz last.
\<close>

definition csr_pointers_valid :: "Sparse \<Rightarrow> bool" where
  "csr_pointers_valid M =
     (length (row_data M) = nat (num_rows M) + 1
      \<and> sorted (row_data M)
      \<and> row_data M ! 0 = 0
      \<and> row_data M ! nat (num_rows M) = num_nnz M)"

text \<open>
  The (row, column, value) triples a matrix represents, in storage order: column by
  column for CSC, row by row for CSR.
\<close>

definition csc_column :: "Sparse \<Rightarrow> nat \<Rightarrow> (int \<times> int \<times> real_type) list" where
  "csc_column A c =
     map (\<lambda>p. (row_data A ! p, int c, val_data A ! p))
       [nat (col_data A ! c) ..< nat (col_data A ! Suc c)]"

definition csc_triples :: "Sparse \<Rightarrow> (int \<times> int \<times> real_type) list" where
  "csc_triples A = concat (map (csc_column A) [0 ..< nat (num_columns A)])"

definition csr_row :: "Sparse \<Rightarrow> nat \<Rightarrow> (int \<times> int \<times> real_type) list" where
  "csr_row M r =
     map (\<lambda>p. (int r, col_data M ! p, val_data M ! p))
       [nat (row_data M ! r) ..< nat (row_data M ! Suc r)]"

definition csr_triples :: "Sparse \<Rightarrow> (int \<times> int \<times> real_type) list" where
  "csr_triples M = concat (map (csr_row M) [0 ..< nat (num_rows M)])"

text \<open>
  For the row indices \<open>R\<close> of a source: how many entries lie in row \<open>r\<close>, and how
  many lie in the rows before \<open>r\<close>.
\<close>

definition row_count :: "int list \<Rightarrow> nat \<Rightarrow> nat" where
  "row_count R r = length (filter (\<lambda>x. x = int r) R)"

definition row_start :: "int list \<Rightarrow> nat \<Rightarrow> nat" where
  "row_start R r = length (filter (\<lambda>x. x < int r) R)"

text \<open>
  The state of the scatter pass once the source entries \<open>T\<close> (a prefix of the source,
  in storage order) have been written: the cursor of each row stands behind the entries
  of that row written so far, and these lie in the row's segment in the order in which
  they were written.
\<close>

definition scatter_inv ::
  "int list \<Rightarrow> nat \<Rightarrow> (int \<times> int \<times> real_type) list \<Rightarrow> csr_arrays \<Rightarrow> bool" where
  "scatter_inv R N T s =
     (case s of (rowPtrCsr, colIdxCsr, valuesCsr) \<Rightarrow>
        length rowPtrCsr = N + 1 \<and> length colIdxCsr = length R \<and> length valuesCsr = length R
        \<and> length T \<le> length R \<and> map fst T = take (length T) R
        \<and> rowPtrCsr ! N = int (length R)
        \<and> (\<forall>r < N.
              rowPtrCsr ! r = int (row_start R r + length (filter (\<lambda>t. fst t = int r) T))
            \<and> map (\<lambda>p. (colIdxCsr ! p, valuesCsr ! p))
                [row_start R r ..< row_start R r + length (filter (\<lambda>t. fst t = int r) T)]
              = map snd (filter (\<lambda>t. fst t = int r) T)))"

section \<open>Heaps, vectors and the parameter registry\<close>

text \<open>
  Objects reached through pointers live in a heap: an address is an index, a freed
  cell is \<open>None\<close>, and an allocation takes the next address, so it never returns an
  address that is or was in use.
\<close>

type_synonym 'a heap = "'a option list"

definition heap_get :: "'a heap \<Rightarrow> nat \<Rightarrow> 'a option" where
  "heap_get h a = (if a < length h then h ! a else None)"

definition heap_new :: "'a \<Rightarrow> 'a heap \<Rightarrow> nat \<times> 'a heap" where
  "heap_new v h = (length h, h @ [Some v])"

definition heap_set :: "nat \<Rightarrow> 'a \<Rightarrow> 'a heap \<Rightarrow> 'a heap" where
  "heap_set a v h = h[a := Some v]"

definition heap_free :: "nat \<Rightarrow> 'a heap \<Rightarrow> 'a heap" where
  "heap_free a h = h[a := None]"

text \<open>
  Modelled from the spec: the vector container is declared outside the files at hand.
  The spec gives it raw array accessors parameterized by memory space, a method that
  marks the data updated in a space, and a data copy between spaces.
\<close>

record Vector =
  h_data :: "real_type list"
  d_data :: "real_type list"
  cpu_updated :: bool
  gpu_updated :: bool

definition getData :: "Vector \<Rightarrow> MemorySpace \<Rightarrow> real_type list" where
  "getData v memspace = (case memspace of HOST \<Rightarrow> h_data v | DEVICE \<Rightarrow> d_data v)"

definition setData :: "MemorySpace \<Rightarrow> real_type list \<Rightarrow> Vector \<Rightarrow> Vector" where
  "setData memspace xs v =
     (case memspace of HOST \<Rightarrow> v\<lparr>h_data := xs\<rparr> | DEVICE \<Rightarrow> v\<lparr>d_data := xs\<rparr>)"

definition copyDataFrom :: "real_type list \<Rightarrow> MemorySpace \<Rightarrow> MemorySpace \<Rightarrow> Vector \<Rightarrow> Vector" where
  "copyDataFrom src memspaceIn memspaceOut v = setData memspaceOut src v"

definition setDataUpdated :: "MemorySpace \<Rightarrow> Vector \<Rightarrow> Vector" where
  "setDataUpdated memspace v =
     (case memspace of
        HOST \<Rightarrow> v\<lparr>cpu_updated := True, gpu_updated := False\<rparr>
      | DEVICE \<Rightarrow> v\<lparr>gpu_updated := True, cpu_updated := False\<rparr>)"

text \<open>
  Device arrays owned by a solver are kept by value. Modelled from the spec: the memory
  handler is outside the files at hand; an allocation gives an array of the requested
  length (its content is not specified by the source; the model fills it with
  \<open>fill\<close>), and a copy of \<open>n\<close> elements needs both arrays to hold \<open>n\<close> elements.
\<close>

definition allocateArrayOnDevice :: "'a \<Rightarrow> int \<Rightarrow> error + 'a list" where
  "allocateArrayOnDevice fill n = (if n < 0 then Inl BadAlloc else Inr (replicate (nat n) fill))"

definition copyArray :: "'a list option \<Rightarrow> 'a list \<Rightarrow> int \<Rightarrow> error + 'a list" where
  "copyArray dst src n =
     (case dst of
        None \<Rightarrow> Inl InvalidPointer
      | Some d \<Rightarrow>
          if n < 0 \<or> nat n > length d \<or> nat n > length src then Inl OutOfBounds
          else Inr (take (nat n) src @ drop (nat n) d))"

text \<open>
  The base class of the solvers: the bound matrix and the parameter registry. The
  matrix is held by value.
\<close>

record 'p LinSolver =
  A_m :: "Sparse option"
  params_list_m :: "(string \<times> 'p) list"

text \<open>
  Modelled from the spec: the registry lookup is a method of the base class, outside the
  files at hand. An id that is not registered matches no \<open>case\<close> label of a
  \<open>switch (getParamId(id))\<close>: it is \<open>None\<close> here.
\<close>

definition getParamId :: "('p, 'z) LinSolver_scheme \<Rightarrow> string \<Rightarrow> 'p option" where
  "getParamId s id' = map_of (params_list_m s) id'"

section \<open>LinSolverDirectKLU\<close>

datatype KLU_ParamaterIDs = PIVOT_TOL | ORDERING | HALT_IF_SINGULAR

record klu_common =
  btf :: int
  scale :: int
  ordering :: int
  tol :: real_type
  halt_if_singular :: bool
  status :: int
  rcond :: real_type

text \<open>
  The vendor's symbolic and numeric objects: the fields the source reads, and the rest
  as an opaque payload.
\<close>

record klu_symbolic =
  Q :: "int list"
  symbolic_data :: nat

record klu_numeric =
  Pnum :: "int list"
  lnz :: int
  unz :: int
  numeric_data :: nat

text \<open>
  The vendor library, as a parameter: each entry is one library call, from its inputs
  to its return value and the objects it writes.
\<close>

record klu_lib =
  klu_defaults :: "klu_common \<Rightarrow> klu_common"
  klu_analyze :: "int \<Rightarrow> int list \<Rightarrow> int list \<Rightarrow> klu_common \<Rightarrow> klu_symbolic option \<times> klu_common"
  klu_factor :: "int list \<Rightarrow> int list \<Rightarrow> real_type list \<Rightarrow> klu_symbolic option \<Rightarrow> klu_common
                 \<Rightarrow> klu_numeric option \<times> klu_common"
  klu_refactor :: "int list \<Rightarrow> int list \<Rightarrow> real_type list \<Rightarrow> klu_symbolic option
                   \<Rightarrow> klu_numeric option \<Rightarrow> klu_common \<Rightarrow> int \<times> klu_numeric option \<times> klu_common"
  klu_solve :: "klu_symbolic option \<Rightarrow> klu_numeric option \<Rightarrow> int \<Rightarrow> int \<Rightarrow> real_type list
                \<Rightarrow> klu_common \<Rightarrow> int \<times> real_type list \<times> klu_common"
  klu_extract :: "klu_numeric option \<Rightarrow> klu_symbolic option \<Rightarrow> Sparse \<Rightarrow> Sparse \<Rightarrow> klu_common
                  \<Rightarrow> int \<times> Sparse \<times> Sparse \<times> klu_common"

record LinSolverDirectKLU = "KLU_ParamaterIDs LinSolver" +
  Symbolic_m :: "klu_symbolic option"
  Numeric_m :: "klu_numeric option"
  Common_m :: klu_common
  L_m :: "Sparse option"
  U_m :: "Sparse option"
  P_m :: "nat option"
  Q_m :: "nat option"
  factors_extracted_m :: bool
  pivot_threshold_tol_m :: real_type
  ordering_m :: int
  halt_if_singular_m :: bool

text \<open>Register configurable parameters.\<close>

definition KLU_initParamList :: "LinSolverDirectKLU \<Rightarrow> LinSolverDirectKLU" where
  "KLU_initParamList s =
     s\<lparr>params_list_m :=
         AList.update ''halt_if_singular'' HALT_IF_SINGULAR
           (AList.update ''ordering'' ORDERING
             (AList.update ''pivot_tol'' PIVOT_TOL (params_list_m s)))\<rparr>"

text \<open>
  The constructor. The in-class initial values of \<open>ordering_\<close>,
  \<open>pivot_threshold_tol_\<close> and \<open>halt_if_singular_\<close> are declared outside the files
  at hand and are arguments here, as is the structure \<open>Common_\<close> before
  \<open>klu_defaults\<close> fills it.
\<close>

definition KLU_new :: "klu_lib \<Rightarrow> klu_common \<Rightarrow> int \<Rightarrow> real_type \<Rightarrow> bool \<Rightarrow> LinSolverDirectKLU" where
  "KLU_new lib common0 ordering0 tol0 halt0 =
     KLU_initParamList
       \<lparr>A_m = None, params_list_m = [],
        Symbolic_m = None, Numeric_m = None,
        Common_m = (klu_defaults lib common0)
          \<lparr>btf := 0, scale := -1, ordering := ordering0, tol := tol0, halt_if_singular := halt0\<rparr>,
        L_m = None, U_m = None, P_m = None, Q_m = None,
        factors_extracted_m = False,
        pivot_threshold_tol_m = tol0, ordering_m = ordering0, halt_if_singular_m = halt0\<rparr>"

text \<open>
  \<open>delete [] p\<close> on the heap of integer arrays: deleting a null pointer does nothing;
  deleting a live array frees it; deleting an array that is not live (deleted before,
  or never allocated) is undefined behaviour in the source and the error
  \<open>InvalidPointer\<close> here.
\<close>

definition delete_array :: "nat option \<Rightarrow> 'a heap \<Rightarrow> error + 'a heap" where
  "delete_array p h =
     (case p of
        None \<Rightarrow> Inr h
      | Some a \<Rightarrow>
          (case heap_get h a of
             None \<Rightarrow> Inl InvalidPointer
           | Some v \<Rightarrow> Inr (heap_free a h)))"

text \<open>
  The destructor, on the solver and the heap of integer arrays: the two ordering arrays
  are deleted, \<open>P_\<close> first, only if the factors were extracted. The factor matrices,
  deleted under the same condition, are held by value in the solver record, and the
  symbolic and numeric objects freed last are the vendor's; neither is on this heap.
  What is left of the solver is not accessible; the heap is.
\<close>

definition KLU_delete :: "LinSolverDirectKLU \<Rightarrow> int list heap \<Rightarrow> error + int list heap" where
  "KLU_delete s h =
     (if factors_extracted_m s
      then bindE (delete_array (P_m s) h) (\<lambda>h1. delete_array (Q_m s) h1)
      else Inr h)"

definition KLU_setup :: "Sparse \<Rightarrow> LinSolverDirectKLU \<Rightarrow> int \<times> LinSolverDirectKLU" where
  "KLU_setup A s = (0, s\<lparr>A_m := Some A\<rparr>)"

definition KLU_analyze :: "klu_lib \<Rightarrow> LinSolverDirectKLU \<Rightarrow> error + int \<times> LinSolverDirectKLU" where
  "KLU_analyze lib s =
     (case A_m s of
        None \<Rightarrow> Inl InvalidPointer
      | Some A \<Rightarrow>
          (case klu_analyze lib (getNumRows A) (row_data A) (col_data A) (Common_m s) of
             (symb, c) \<Rightarrow>
               Inr (if symb = None then 1 else 0,
                    s\<lparr>Symbolic_m := symb, Common_m := c, factors_extracted_m := False,
                      L_m := None, U_m := None\<rparr>)))"

definition KLU_factorize :: "klu_lib \<Rightarrow> LinSolverDirectKLU \<Rightarrow> error + int \<times> LinSolverDirectKLU" where
  "KLU_factorize lib s =
     (case A_m s of
        None \<Rightarrow> Inl InvalidPointer
      | Some A \<Rightarrow>
          (case klu_factor lib (row_data A) (col_data A) (val_data A) (Symbolic_m s) (Common_m s) of
             (num, c) \<Rightarrow>
               Inr (if num = None then 1 else 0,
                    s\<lparr>Numeric_m := num, Common_m := c, factors_extracted_m := False,
                      L_m := None, U_m := None\<rparr>)))"

definition KLU_refactorize :: "klu_lib \<Rightarrow> LinSolverDirectKLU \<Rightarrow> error + int \<times> LinSolverDirectKLU" where
  "KLU_refactorize lib s =
     (case A_m s of
        None \<Rightarrow> Inl InvalidPointer
      | Some A \<Rightarrow>
          (case klu_refactor lib (row_data A) (col_data A) (val_data A) (Symbolic_m s) (Numeric_m s)
                  (Common_m s) of
             (kluStatus, num, c) \<Rightarrow>
               Inr (if kluStatus = 0 then 1 else 0,
                    s\<lparr>Numeric_m := num, Common_m := c, factors_extracted_m := False,
                      L_m := None, U_m := None\<rparr>)))"

text \<open>
  \<open>solve(rhs, x)\<close>: the two vectors are pointers into the callers' heap of vectors.
  The data of \<open>rhs\<close> is copied into \<open>x\<close>, then the vendor solves in place on \<open>x\<close>.
\<close>

definition KLU_solve ::
  "klu_lib \<Rightarrow> nat \<Rightarrow> nat \<Rightarrow> LinSolverDirectKLU \<times> Vector heap
     \<Rightarrow> error + int \<times> LinSolverDirectKLU \<times> Vector heap" where
  "KLU_solve lib rhs x st =
     (case st of (s, vs) \<Rightarrow>
        (case (heap_get vs rhs, heap_get vs x) of
           (Some rv, Some xv) \<Rightarrow>
             let vs1 = heap_set x (setDataUpdated HOST (copyDataFrom (getData rv HOST) HOST HOST xv)) vs
             in
             (case (A_m s, heap_get vs1 x) of
                (Some A, Some xv1) \<Rightarrow>
                  (case klu_solve lib (Symbolic_m s) (Numeric_m s) (getNumRows A) 1 (getData xv1 HOST)
                          (Common_m s) of
                     (kluStatus, b, c) \<Rightarrow>
                       Inr (if kluStatus = 0 then 1 else 0,
                            s\<lparr>Common_m := c\<rparr>,
                            heap_set x (setData HOST b xv1) vs1))
              | _ \<Rightarrow> Inl InvalidPointer)
         | _ \<Rightarrow> Inl InvalidPointer))"

text \<open>\<open>solve(rhs)\<close> is not implemented: it reports so and returns 1.\<close>

definition KLU_solve1 ::
  "nat \<Rightarrow> LinSolverDirectKLU \<times> Vector heap \<Rightarrow> error + int \<times> LinSolverDirectKLU \<times> Vector heap" where
  "KLU_solve1 rhs st = (case st of (s, vs) \<Rightarrow> Inr (1, s, vs))"

text \<open>
  \<open>getLFactor\<close> and \<open>getUFactor\<close>: on the first call after a factorization both
  factors are allocated as CSC matrices and filled by the vendor's extraction.
\<close>

definition new_Csc :: "int \<Rightarrow> int \<Rightarrow> int \<Rightarrow> Sparse" where
  "new_Csc n m nnz =
     \<lparr>num_rows = n, num_columns = m, num_nnz = nnz, sparse_format = COMPRESSED_SPARSE_COLUMN,
      row_data = replicate (nat nnz) 0, col_data = replicate (nat (m + 1)) 0,
      val_data = replicate (nat nnz) (Finite 0)\<rparr>"

definition KLU_extract_factors :: "klu_lib \<Rightarrow> LinSolverDirectKLU \<Rightarrow> error + LinSolverDirectKLU" where
  "KLU_extract_factors lib s =
     (if \<not> factors_extracted_m s then
        (case (Numeric_m s, A_m s) of
           (Some num, Some A) \<Rightarrow>
             let nnzL = lnz num; nnzU = unz num in
             (case klu_extract lib (Numeric_m s) (Symbolic_m s)
                     (new_Csc (getNumRows A) (getNumColumns A) nnzL)
                     (new_Csc (getNumRows A) (getNumColumns A) nnzU) (Common_m s) of
                (ok, L, U, c) \<Rightarrow>
                  Inr (s\<lparr>L_m := Some L, U_m := Some U, Common_m := c, factors_extracted_m := True\<rparr>))
         | _ \<Rightarrow> Inl InvalidPointer)
      else Inr s)"

definition KLU_getLFactor ::
  "klu_lib \<Rightarrow> LinSolverDirectKLU \<Rightarrow> error + Sparse option \<times> LinSolverDirectKLU" where
  "KLU_getLFactor lib s = bindE (KLU_extract_factors lib s) (\<lambda>s'. Inr (L_m s', s'))"

definition KLU_getUFactor ::
  "klu_lib \<Rightarrow> LinSolverDirectKLU \<Rightarrow> error + Sparse option \<times> LinSolverDirectKLU" where
  "KLU_getUFactor lib s = bindE (KLU_extract_factors lib s) (\<lambda>s'. Inr (U_m s', s'))"

text \<open>
  \<open>getPOrdering\<close> and \<open>getQOrdering\<close>, on the solver and the heap of integer arrays.
  With a numeric object, a new array of \<open>A_->getNumRows()\<close> entries is allocated, its
  address is stored in \<open>P_\<close> (\<open>Q_\<close>), that many entries are copied into it and the
  address is returned; without one, the null pointer is returned.
\<close>

definition memcpy_new :: "int list \<Rightarrow> int \<Rightarrow> int list heap \<Rightarrow> error + nat \<times> int list heap" where
  "memcpy_new src n h =
     (if n < 0 then Inl BadAlloc
      else if nat n > length src then Inl OutOfBounds
      else Inr (heap_new (take (nat n) src) h))"

definition KLU_getPOrdering ::
  "LinSolverDirectKLU \<times> int list heap
     \<Rightarrow> error + nat option \<times> LinSolverDirectKLU \<times> int list heap" where
  "KLU_getPOrdering st =
     (case st of (s, h) \<Rightarrow>
        (case Numeric_m s of
           Some num \<Rightarrow>
             (case A_m s of
                None \<Rightarrow> Inl InvalidPointer
              | Some A \<Rightarrow>
                  bindE (memcpy_new (Pnum num) (getNumRows A) h) (\<lambda>(p, h').
                    Inr (Some p, s\<lparr>P_m := Some p\<rparr>, h')))
         | None \<Rightarrow> Inr (None, s, h)))"

definition KLU_getQOrdering ::
  "LinSolverDirectKLU \<times> int list heap
     \<Rightarrow> error + nat option \<times> LinSolverDirectKLU \<times> int list heap" where
  "KLU_getQOrdering st =
     (case st of (s, h) \<Rightarrow>
        (case Numeric_m s of
           Some num \<Rightarrow>
             (case (A_m s, Symbolic_m s) of
                (Some A, Some symb) \<Rightarrow>
                  bindE (memcpy_new (Q symb) (getNumRows A) h) (\<lambda>(q, h').
                    Inr (Some q, s\<lparr>Q_m := Some q\<rparr>, h'))
              | _ \<Rightarrow> Inl InvalidPointer)
         | None \<Rightarrow> Inr (None, s, h)))"

definition KLU_setPivotThreshold :: "real_type \<Rightarrow> LinSolverDirectKLU \<Rightarrow> LinSolverDirectKLU" where
  "KLU_setPivotThreshold t s = s\<lparr>pivot_threshold_tol_m := t, Common_m := (Common_m s)\<lparr>tol := t\<rparr>\<rparr>"

definition KLU_setOrdering :: "int \<Rightarrow> LinSolverDirectKLU \<Rightarrow> LinSolverDirectKLU" where
  "KLU_setOrdering ord s = s\<lparr>ordering_m := ord, Common_m := (Common_m s)\<lparr>ordering := ord\<rparr>\<rparr>"

definition KLU_setHaltIfSingular :: "bool \<Rightarrow> LinSolverDirectKLU \<Rightarrow> LinSolverDirectKLU" where
  "KLU_setHaltIfSingular isHalt s =
     s\<lparr>halt_if_singular_m := isHalt, Common_m := (Common_m s)\<lparr>halt_if_singular := isHalt\<rparr>\<rparr>"

text \<open>
  The parameter interface. \<open>atof\<close> and \<open>atoi\<close> are the C library's and are
  arguments. Messages written to the log or to standard output are not part of the state.
\<close>

definition KLU_setCliParam ::
  "(string \<Rightarrow> real_type) \<Rightarrow> (string \<Rightarrow> int) \<Rightarrow> string \<Rightarrow> string \<Rightarrow> LinSolverDirectKLU
     \<Rightarrow> int \<times> LinSolverDirectKLU" where
  "KLU_setCliParam atof atoi id' v s =
     (case getParamId s id' of
        Some PIVOT_TOL \<Rightarrow> (0, KLU_setPivotThreshold (atof v) s)
      | Some ORDERING \<Rightarrow> (0, KLU_setOrdering (atoi v) s)
      | Some HALT_IF_SINGULAR \<Rightarrow> (0, KLU_setHaltIfSingular (v = ''yes'') s)
      | None \<Rightarrow> (0, s))"

definition KLU_getCliParamString :: "LinSolverDirectKLU \<Rightarrow> string \<Rightarrow> string" where
  "KLU_getCliParamString s id' = (case getParamId s id' of _ \<Rightarrow> [])"

definition KLU_getCliParamInt :: "LinSolverDirectKLU \<Rightarrow> string \<Rightarrow> int" where
  "KLU_getCliParamInt s id' =
     (case getParamId s id' of
        Some ORDERING \<Rightarrow> ordering_m s
      | _ \<Rightarrow> -1)"

definition KLU_getCliParamReal :: "LinSolverDirectKLU \<Rightarrow> string \<Rightarrow> real_type" where
  "KLU_getCliParamReal s id' =
     (case getParamId s id' of
        Some PIVOT_TOL \<Rightarrow> pivot_threshold_tol_m s
      | _ \<Rightarrow> quiet_NaN)"

definition KLU_getCliParamBool :: "LinSolverDirectKLU \<Rightarrow> string \<Rightarrow> bool" where
  "KLU_getCliParamBool s id' =
     (case getParamId s id' of
        Some HALT_IF_SINGULAR \<Rightarrow> halt_if_singular_m s
      | _ \<Rightarrow> False)"

section \<open>LinSolverDirectCuSolverRf\<close>

datatype CuSolverRf_ParamaterIDs = ZERO_PIVOT | PIVOT_BOOST

datatype cusolverRfFactorization_t =
  CUSOLVERRF_FACTORIZATION_ALG0 | CUSOLVERRF_FACTORIZATION_ALG1 | CUSOLVERRF_FACTORIZATION_ALG2

datatype cusolverRfTriangularSolve_t =
  CUSOLVERRF_TRIANGULAR_SOLVE_ALG1 | CUSOLVERRF_TRIANGULAR_SOLVE_ALG2 | CUSOLVERRF_TRIANGULAR_SOLVE_ALG3

text \<open>
  The vendor library, as a parameter. A handle is a pointer to an opaque object of
  type \<open>'h\<close>; each call that takes the handle maps the object's content to a status
  code and the new content. \<open>rf_fresh\<close> is the content of a handle just created.
\<close>

record 'h cusolverRf_lib =
  rf_fresh :: 'h
  cusolverRfSetResetValuesFastMode :: "'h \<Rightarrow> int \<times> 'h"
  cusolverRfSetupDevice ::
    "int \<Rightarrow> Sparse \<Rightarrow> Sparse \<Rightarrow> Sparse \<Rightarrow> int list \<Rightarrow> int list \<Rightarrow> 'h \<Rightarrow> int \<times> 'h"
  cusolverRfAnalyze :: "'h \<Rightarrow> int \<times> 'h"
  cusolverRfSetAlgs :: "cusolverRfFactorization_t \<Rightarrow> cusolverRfTriangularSolve_t \<Rightarrow> 'h \<Rightarrow> int \<times> 'h"
  cusolverRfResetValues :: "Sparse \<Rightarrow> int list \<Rightarrow> int list \<Rightarrow> 'h \<Rightarrow> int \<times> 'h"
  cusolverRfRefactor :: "'h \<Rightarrow> int \<times> 'h"
  cusolverRfSolve ::
    "'h \<Rightarrow> int list \<Rightarrow> int list \<Rightarrow> int \<Rightarrow> real_type list \<Rightarrow> int \<Rightarrow> real_type list \<Rightarrow> int
       \<Rightarrow> int \<times> real_type list \<times> real_type list"
  cusolverRfSetNumericProperties :: "real_type \<Rightarrow> real_type \<Rightarrow> 'h \<Rightarrow> int \<times> 'h"

definition cusolverRfCreate :: "'h cusolverRf_lib \<Rightarrow> 'h heap \<Rightarrow> nat \<times> 'h heap" where
  "cusolverRfCreate lib hs = heap_new (rf_fresh lib) hs"

definition cusolverRfDestroy :: "nat \<Rightarrow> 'h heap \<Rightarrow> error + 'h heap" where
  "cusolverRfDestroy p hs =
     (case heap_get hs p of None \<Rightarrow> Inl InvalidPointer | Some d \<Rightarrow> Inr (heap_free p hs))"

text \<open>A vendor call on the object behind the handle \<open>p\<close>.\<close>

definition rf_call :: "'h heap \<Rightarrow> nat \<Rightarrow> ('h \<Rightarrow> int \<times> 'h) \<Rightarrow> error + int \<times> 'h heap" where
  "rf_call hs p f =
     (case heap_get hs p of
        None \<Rightarrow> Inl InvalidPointer
      | Some d \<Rightarrow> (case f d of (st, d') \<Rightarrow> Inr (st, heap_set p d' hs)))"

record LinSolverDirectCuSolverRf = "CuSolverRf_ParamaterIDs LinSolver" +
  handle_cusolverrf_m :: nat
  status_cusolverrf_m :: int
  d_P_m :: "int list option"
  d_Q_m :: "int list option"
  d_T_m :: "real_type list option"
  setup_completed_m :: bool
  zero_pivot_m :: real_type
  pivot_boost_m :: real_type

text \<open>Set the zero pivot and pivot boost parameters.\<close>

definition CuSolverRf_initParamList :: "LinSolverDirectCuSolverRf \<Rightarrow> LinSolverDirectCuSolverRf" where
  "CuSolverRf_initParamList s =
     s\<lparr>params_list_m :=
         AList.update ''pivot_boost'' PIVOT_BOOST
           (AList.update ''zero_pivot'' ZERO_PIVOT (params_list_m s))\<rparr>"

text \<open>
  The constructor creates the handle. The in-class initial values of the members it
  does not set are declared outside the files at hand: the two parameters and the
  status are arguments, the device pointers start null.
\<close>

definition CuSolverRf_new ::
  "'h cusolverRf_lib \<Rightarrow> real_type \<Rightarrow> real_type \<Rightarrow> int \<Rightarrow> 'h heap \<Rightarrow> LinSolverDirectCuSolverRf \<times> 'h heap" where
  "CuSolverRf_new lib zero0 boost0 status0 hs =
     (case cusolverRfCreate lib hs of
        (h, hs') \<Rightarrow>
          (CuSolverRf_initParamList
             \<lparr>A_m = None, params_list_m = [],
              handle_cusolverrf_m = h, status_cusolverrf_m = status0,
              d_P_m = None, d_Q_m = None, d_T_m = None,
              setup_completed_m = False,
              zero_pivot_m = zero0, pivot_boost_m = boost0\<rparr>,
           hs'))"

text \<open>
  A new CSR matrix with its data allocated. The content of the fresh arrays is not
  specified by the source; the model fills them with zeros.
\<close>

definition new_Csr :: "int \<Rightarrow> int \<Rightarrow> int \<Rightarrow> Sparse" where
  "new_Csr n m nnz =
     \<lparr>num_rows = n, num_columns = m, num_nnz = nnz, sparse_format = COMPRESSED_SPARSE_ROW,
      row_data = replicate (nat (n + 1)) 0, col_data = replicate (nat nnz) 0,
      val_data = replicate (nat nnz) (Finite 0)\<rparr>"

text \<open>
  The first \<open>switch\<close> of \<open>setup\<close>: factors in CSC format are converted, factors in CSR
  format are taken as they are, and any other format gives no factors.
\<close>

definition convert_factors :: "Sparse \<Rightarrow> Sparse \<Rightarrow> error + (Sparse \<times> Sparse) option" where
  "convert_factors L U =
     (case getSparseFormat L of
        COMPRESSED_SPARSE_COLUMN \<Rightarrow>
          bindE (csc2csr L (new_Csr (getNumRows L) (getNumColumns L) (getNnz L))) (\<lambda>(e1, L_csr).
          bindE (csc2csr U (new_Csr (getNumRows U) (getNumColumns U) (getNnz U))) (\<lambda>(e2, U_csr).
            Inr (Some (L_csr, U_csr))))
      | COMPRESSED_SPARSE_ROW \<Rightarrow> Inr (Some (L, U))
      | OTHER_FORMAT k \<Rightarrow> Inr None)"

definition CuSolverRf_setAlgorithms ::
  "'h cusolverRf_lib \<Rightarrow> cusolverRfFactorization_t \<Rightarrow> cusolverRfTriangularSolve_t
     \<Rightarrow> LinSolverDirectCuSolverRf \<times> 'h heap \<Rightarrow> error + 'h heap" where
  "CuSolverRf_setAlgorithms lib fact_alg solve_alg st =
     (case st of (s, hs) \<Rightarrow>
        bindE (rf_call hs (handle_cusolverrf_m s) (cusolverRfSetAlgs lib fact_alg solve_alg))
          (\<lambda>(e, hs'). Inr hs'))"

text \<open>
  The part of \<open>setup\<close> after the first \<open>switch\<close>: the device arrays, the copies
  of the two orderings and the vendor calls, whose status codes are added up.
\<close>

definition CuSolverRf_setup_device ::
  "'h cusolverRf_lib \<Rightarrow> Sparse \<Rightarrow> Sparse \<Rightarrow> Sparse \<Rightarrow> int list \<Rightarrow> int list
     \<Rightarrow> LinSolverDirectCuSolverRf \<times> 'h heap
     \<Rightarrow> error + int \<times> LinSolverDirectCuSolverRf \<times> 'h heap" where
  "CuSolverRf_setup_device lib A L_csr U_csr P Q' st =
     (case st of (s2, hs2) \<Rightarrow>
        let n = getNumRows A in
        bindE (case d_P_m s2 of None \<Rightarrow> allocateArrayOnDevice 0 n | Some a \<Rightarrow> Inr a) (\<lambda>dP.
        bindE (case d_Q_m s2 of None \<Rightarrow> allocateArrayOnDevice 0 n | Some a \<Rightarrow> Inr a) (\<lambda>dQ.
        bindE (allocateArrayOnDevice (Finite 0) n) (\<lambda>dT.
        bindE (copyArray (Some dP) P n) (\<lambda>dP'.
        bindE (copyArray (Some dQ) Q' n) (\<lambda>dQ'.
        bindE (rf_call hs2 (handle_cusolverrf_m s2)
                 (cusolverRfSetResetValuesFastMode lib)) (\<lambda>(st1, hs3).
        bindE (rf_call hs3 (handle_cusolverrf_m s2)
                 (cusolverRfSetupDevice lib n A L_csr U_csr dP' dQ')) (\<lambda>(st2, hs4).
        bindE (rf_call hs4 (handle_cusolverrf_m s2) (cusolverRfAnalyze lib)) (\<lambda>(st3, hs5).
        bindE (CuSolverRf_setAlgorithms lib CUSOLVERRF_FACTORIZATION_ALG0
                 CUSOLVERRF_TRIANGULAR_SOLVE_ALG1 (s2, hs5)) (\<lambda>hs6.
          Inr (0 + st1 + st2 + st3,
               s2\<lparr>d_P_m := Some dP', d_Q_m := Some dQ', d_T_m := Some dT,
                  status_cusolverrf_m := st3, setup_completed_m := True\<rparr>,
               hs6)))))))))))"

text \<open>
  \<open>setup\<close>, on the solver and the heap of vendor handles. The two assertions come
  first. The matrix is bound and, if a setup has completed before, the handle is
  destroyed and created anew, before the format of the factors is looked at.
\<close>

definition CuSolverRf_setup ::
  "'h cusolverRf_lib \<Rightarrow> Sparse \<Rightarrow> Sparse \<Rightarrow> Sparse \<Rightarrow> int list \<Rightarrow> int list
     \<Rightarrow> LinSolverDirectCuSolverRf \<times> 'h heap
     \<Rightarrow> error + int \<times> LinSolverDirectCuSolverRf \<times> 'h heap" where
  "CuSolverRf_setup lib A L U P Q' st =
     (case st of (s0, hs0) \<Rightarrow>
        if getSparseFormat A \<noteq> COMPRESSED_SPARSE_ROW then Inl AssertionFailed
        else if getSparseFormat L \<noteq> getSparseFormat U then Inl AssertionFailed
        else
          let s1 = s0\<lparr>A_m := Some A\<rparr> in
          bindE (if setup_completed_m s1
                 then bindE (cusolverRfDestroy (handle_cusolverrf_m s1) hs0) (\<lambda>hs.
                        case cusolverRfCreate lib hs of
                          (h, hs') \<Rightarrow> Inr (s1\<lparr>handle_cusolverrf_m := h\<rparr>, hs'))
                 else Inr (s1, hs0)) (\<lambda>(s2, hs2).
          bindE (convert_factors L U) (\<lambda>factors.
            case factors of
              None \<Rightarrow> Inr (1, s2, hs2)
            | Some (L_csr, U_csr) \<Rightarrow> CuSolverRf_setup_device lib A L_csr U_csr P Q' (s2, hs2))))"

text \<open>
  \<open>refactorize\<close>: the assertions on the matrix and on the permutation vectors, then
  the two vendor calls, whose status codes are added up.
\<close>

definition CuSolverRf_refactorize ::
  "'h cusolverRf_lib \<Rightarrow> LinSolverDirectCuSolverRf \<times> 'h heap
     \<Rightarrow> error + int \<times> LinSolverDirectCuSolverRf \<times> 'h heap" where
  "CuSolverRf_refactorize lib st =
     (case st of (s, hs) \<Rightarrow>
        (case A_m s of
           None \<Rightarrow> Inl AssertionFailed
         | Some A \<Rightarrow>
             if \<not> getNumRows A > 0 then Inl AssertionFailed
             else if \<not> getNnz A > 0 then Inl AssertionFailed
             else
               (case (d_P_m s, d_Q_m s) of
                  (Some dP, Some dQ) \<Rightarrow>
                    bindE (rf_call hs (handle_cusolverrf_m s) (cusolverRfResetValues lib A dP dQ))
                      (\<lambda>(st1, hs1).
                    bindE (rf_call hs1 (handle_cusolverrf_m s) (cusolverRfRefactor lib))
                      (\<lambda>(st2, hs2).
                      Inr (0 + st1 + st2, s\<lparr>status_cusolverrf_m := st2\<rparr>, hs2)))
                | _ \<Rightarrow> Inl AssertionFailed)))"

text \<open>
  \<open>solve(rhs)\<close>: the vendor solves in place on the device data of \<open>rhs\<close>, with the
  scratch vector \<open>d_T_\<close>. The heap of handles is only read.
\<close>

definition CuSolverRf_solve1 ::
  "'h cusolverRf_lib \<Rightarrow> 'h heap \<Rightarrow> nat \<Rightarrow> LinSolverDirectCuSolverRf \<times> Vector heap
     \<Rightarrow> error + int \<times> LinSolverDirectCuSolverRf \<times> Vector heap" where
  "CuSolverRf_solve1 lib hs rhs st =
     (case st of (s, vs) \<Rightarrow>
        (case (heap_get hs (handle_cusolverrf_m s), d_P_m s, d_Q_m s, d_T_m s, A_m s, heap_get vs rhs) of
           (Some d, Some dP, Some dQ, Some dT, Some A, Some rv) \<Rightarrow>
             (case cusolverRfSolve lib d dP dQ 1 dT (getNumRows A) (getData rv DEVICE) (getNumRows A) of
                (st1, dT', xf) \<Rightarrow>
                  Inr (st1,
                       s\<lparr>status_cusolverrf_m := st1, d_T_m := Some dT'\<rparr>,
                       heap_set rhs (setData DEVICE xf rv) vs))
         | _ \<Rightarrow> Inl InvalidPointer))"

text \<open>
  \<open>solve(rhs, x)\<close>: the device data of \<open>rhs\<close> is copied into \<open>x\<close>, then the vendor
  solves in place on \<open>x\<close>.
\<close>

definition CuSolverRf_solve ::
  "'h cusolverRf_lib \<Rightarrow> 'h heap \<Rightarrow> nat \<Rightarrow> nat \<Rightarrow> LinSolverDirectCuSolverRf \<times> Vector heap
     \<Rightarrow> error + int \<times> LinSolverDirectCuSolverRf \<times> Vector heap" where
  "CuSolverRf_solve lib hs rhs x st =
     (case st of (s, vs) \<Rightarrow>
        (case (heap_get vs rhs, heap_get vs x) of
           (Some rv, Some xv) \<Rightarrow>
             let vs1 = heap_set x
                         (setDataUpdated DEVICE (copyDataFrom (getData rv DEVICE) DEVICE DEVICE xv)) vs
             in
             (case (heap_get hs (handle_cusolverrf_m s), d_P_m s, d_Q_m s, d_T_m s, A_m s,
                    heap_get vs1 x) of
                (Some d, Some dP, Some dQ, Some dT, Some A, Some xv1) \<Rightarrow>
                  (case cusolverRfSolve lib d dP dQ 1 dT (getNumRows A) (getData xv1 DEVICE)
                          (getNumRows A) of
                     (st1, dT', xf) \<Rightarrow>
                       Inr (st1,
                            s\<lparr>status_cusolverrf_m := st1, d_T_m := Some dT'\<rparr>,
                            heap_set x (setData DEVICE xf xv1) vs1))
              | _ \<Rightarrow> Inl InvalidPointer)
         | _ \<Rightarrow> Inl InvalidPointer))"

definition CuSolverRf_setNumericalProperties ::
  "'h cusolverRf_lib \<Rightarrow> real_type \<Rightarrow> real_type \<Rightarrow> LinSolverDirectCuSolverRf \<times> 'h heap
     \<Rightarrow> error + int \<times> LinSolverDirectCuSolverRf \<times> 'h heap" where
  "CuSolverRf_setNumericalProperties lib nzero nboost st =
     (case st of (s, hs) \<Rightarrow>
        bindE (rf_call hs (handle_cusolverrf_m s) (cusolverRfSetNumericProperties lib nzero nboost))
          (\<lambda>(st1, hs'). Inr (st1, s\<lparr>status_cusolverrf_m := st1\<rparr>, hs')))"

definition CuSolverRf_setCliParam ::
  "'h cusolverRf_lib \<Rightarrow> (string \<Rightarrow> real_type) \<Rightarrow> string \<Rightarrow> string
     \<Rightarrow> LinSolverDirectCuSolverRf \<times> 'h heap
     \<Rightarrow> error + int \<times> LinSolverDirectCuSolverRf \<times> 'h heap" where
  "CuSolverRf_setCliParam lib atof id' v st =
     (case st of (s, hs) \<Rightarrow>
        (case getParamId s id' of
           Some ZERO_PIVOT \<Rightarrow>
             let s1 = s\<lparr>zero_pivot_m := atof v\<rparr> in
             bindE (CuSolverRf_setNumericalProperties lib (zero_pivot_m s1) (pivot_boost_m s1) (s1, hs))
               (\<lambda>(e, s2, hs2). Inr (0, s2, hs2))
         | Some PIVOT_BOOST \<Rightarrow>
             let s1 = s\<lparr>pivot_boost_m := atof v\<rparr> in
             bindE (CuSolverRf_setNumericalProperties lib (zero_pivot_m s1) (pivot_boost_m s1) (s1, hs))
               (\<lambda>(e, s2, hs2). Inr (0, s2, hs2))
         | None \<Rightarrow> Inr (0, s, hs)))"

definition CuSolverRf_getCliParamString :: "LinSolverDirectCuSolverRf \<Rightarrow> string \<Rightarrow> string" where
  "CuSolverRf_getCliParamString s id' = (case getParamId s id' of _ \<Rightarrow> [])"

definition CuSolverRf_getCliParamInt :: "LinSolverDirectCuSolverRf \<Rightarrow> string \<Rightarrow> int" where
  "CuSolverRf_getCliParamInt s id' = (case getParamId s id' of _ \<Rightarrow> -1)"

definition CuSolverRf_getCliParamReal :: "LinSolverDirectCuSolverRf \<Rightarrow> string \<Rightarrow> real_type" where
  "CuSolverRf_getCliParamReal s id' =
     (case getParamId s id' of
        Some ZERO_PIVOT \<Rightarrow> zero_pivot_m s
      | Some PIVOT_BOOST \<Rightarrow> pivot_boost_m s
      | None \<Rightarrow> quiet_NaN)"

definition CuSolverRf_getCliParamBool :: "LinSolverDirectCuSolverRf \<Rightarrow> string \<Rightarrow> bool" where
  "CuSolverRf_getCliParamBool s id' = (case getParamId s id' of _ \<Rightarrow> False)"

section \<open>LinSolverDirectRocSparseILU0\<close>

datatype rocsparse_fill_mode = rocsparse_fill_mode_lower | rocsparse_fill_mode_upper

datatype rocsparse_diag_type = rocsparse_diag_type_non_unit | rocsparse_diag_type_unit

record rocsparse_mat_descr =
  fill_mode :: rocsparse_fill_mode
  diag_type :: rocsparse_diag_type

text \<open>
  The matrix arguments every vendor call takes: \<open>n\<close>, \<open>nnz\<close>, the descriptor, the
  values, the row pointers and the column indices.
\<close>

type_synonym csr_args = "int \<times> int \<times> rocsparse_mat_descr \<times> real_type list \<times> int list \<times> int list"

text \<open>
  The vendor library, as a parameter. The matrix info object is opaque, of type
  \<open>'i\<close>; descriptors and info objects are created on a heap and reached through
  pointers. The two triangular solves read their right-hand side and write their result
  vector.
\<close>

record 'i rocsparse_lib =
  rocsparse_fresh_descr :: rocsparse_mat_descr
  rocsparse_fresh_info :: 'i
  rocsparse_dcsrilu0_buffer_size :: "csr_args \<Rightarrow> 'i \<Rightarrow> int \<times> nat \<times> 'i"
  rocsparse_dcsrsv_buffer_size :: "csr_args \<Rightarrow> 'i \<Rightarrow> int \<times> nat \<times> 'i"
  rocsparse_dcsrilu0_analysis :: "csr_args \<Rightarrow> 'i \<Rightarrow> int \<times> 'i"
  rocsparse_dcsrsv_analysis :: "csr_args \<Rightarrow> 'i \<Rightarrow> int \<times> 'i"
  rocsparse_dcsrilu0 :: "csr_args \<Rightarrow> 'i \<Rightarrow> int \<times> real_type list \<times> 'i"
  rocsparse_dcsrsv_solve ::
    "real_type \<Rightarrow> csr_args \<Rightarrow> 'i \<Rightarrow> real_type list \<Rightarrow> real_type list \<Rightarrow> int \<times> real_type list"

record LinSolverDirectRocSparseILU0 = "int LinSolver" +
  status_rocsparse_m :: int
  descr_A_m :: "nat option"
  descr_L_m :: "nat option"
  descr_U_m :: "nat option"
  info_A_m :: "nat option"
  buffer_m :: "nat option"
  d_aux1_m :: "real_type list option"
  d_ILU_vals_m :: "real_type list option"

text \<open>
  The constructor only stores the workspace; the members start null (their in-class
  initial values are declared outside the files at hand; the status is an argument).
  No parameter is registered.
\<close>

definition ILU0_new :: "int \<Rightarrow> LinSolverDirectRocSparseILU0" where
  "ILU0_new status0 =
     \<lparr>A_m = None, params_list_m = [],
      status_rocsparse_m = status0,
      descr_A_m = None, descr_L_m = None, descr_U_m = None, info_A_m = None,
      buffer_m = None, d_aux1_m = None, d_ILU_vals_m = None\<rparr>"

text \<open>
  \<open>setup\<close>, on the solver, the heap of descriptors and the heap of info objects. The
  value buffer is allocated and filled from the matrix, the three descriptors and the
  info object are created, then come the three buffer size queries, the three analyses
  and the factorization; the status codes are added up.
\<close>

definition ILU0_setup ::
  "'i rocsparse_lib \<Rightarrow> Sparse
     \<Rightarrow> LinSolverDirectRocSparseILU0 \<times> rocsparse_mat_descr heap \<times> 'i heap
     \<Rightarrow> error + int \<times> LinSolverDirectRocSparseILU0 \<times> rocsparse_mat_descr heap \<times> 'i heap" where
  "ILU0_setup lib A st =
     (case st of (s0, dh0, ih0) \<Rightarrow>
        let s1 = s0\<lparr>A_m := Some A\<rparr>;
            n = getNumRows A;
            nnz = getNnz A
        in
        bindE (allocateArrayOnDevice (Finite 0) nnz) (\<lambda>vals0.
        bindE (copyArray (Some vals0) (val_data A) nnz) (\<lambda>vals.
          case heap_new (rocsparse_fresh_descr lib) dh0 of (pA, dh1) \<Rightarrow>
          case heap_new ((rocsparse_fresh_descr lib)
                 \<lparr>fill_mode := rocsparse_fill_mode_lower, diag_type := rocsparse_diag_type_unit\<rparr>) dh1 of
            (pL, dh2) \<Rightarrow>
          case heap_new ((rocsparse_fresh_descr lib)
                 \<lparr>fill_mode := rocsparse_fill_mode_upper, diag_type := rocsparse_diag_type_non_unit\<rparr>) dh2 of
            (pU, dh3) \<Rightarrow>
          case heap_new (rocsparse_fresh_info lib) ih0 of (pI, ih1) \<Rightarrow>
          (case (heap_get dh3 pA, heap_get dh3 pL, heap_get dh3 pU, heap_get ih1 pI) of
             (Some dA, Some dL, Some dU, Some i0) \<Rightarrow>
               let rp = row_data A; ci = col_data A in
               (case rocsparse_dcsrilu0_buffer_size lib (n, nnz, dA, vals, rp, ci) i0 of
                  (st1, buffer_size_A, i1) \<Rightarrow>
               (case rocsparse_dcsrsv_buffer_size lib (n, nnz, dL, vals, rp, ci) i1 of
                  (st2, buffer_size_L, i2) \<Rightarrow>
               (case rocsparse_dcsrsv_buffer_size lib (n, nnz, dU, vals, rp, ci) i2 of
                  (st3, buffer_size_U, i3) \<Rightarrow>
               let buffer_size = max buffer_size_A (max buffer_size_L buffer_size_U) in
               (case rocsparse_dcsrilu0_analysis lib (n, nnz, dA, vals, rp, ci) i3 of
                  (st4, i4) \<Rightarrow>
               (case rocsparse_dcsrsv_analysis lib (n, nnz, dL, vals, rp, ci) i4 of
                  (st5, i5) \<Rightarrow>
               (case rocsparse_dcsrsv_analysis lib (n, nnz, dU, vals, rp, ci) i5 of
                  (st6, i6) \<Rightarrow>
               (case rocsparse_dcsrilu0 lib (n, nnz, dA, vals, rp, ci) i6 of
                  (st7, vals', i7) \<Rightarrow>
               bindE (allocateArrayOnDevice (Finite 0) n) (\<lambda>aux.
                 Inr (0 + st1 + st2 + st3 + st4 + st5 + st6 + st7,
                      s1\<lparr>status_rocsparse_m := st7,
                         descr_A_m := Some pA, descr_L_m := Some pL, descr_U_m := Some pU,
                         info_A_m := Some pI, buffer_m := Some buffer_size,
                         d_aux1_m := Some aux, d_ILU_vals_m := Some vals'\<rparr>,
                      dh3, heap_set pI i7 ih1)))))))))
           | _ \<Rightarrow> Inl InvalidPointer))))"

text \<open>
  \<open>reset\<close>: the matrix is bound, its values are copied into the solver's buffer and
  the factorization is computed again; the one status code is added to zero.
\<close>

definition ILU0_reset ::
  "'i rocsparse_lib \<Rightarrow> Sparse \<Rightarrow> rocsparse_mat_descr heap
     \<Rightarrow> LinSolverDirectRocSparseILU0 \<times> 'i heap
     \<Rightarrow> error + int \<times> LinSolverDirectRocSparseILU0 \<times> 'i heap" where
  "ILU0_reset lib A dh st =
     (case st of (s0, ih) \<Rightarrow>
        let s1 = s0\<lparr>A_m := Some A\<rparr>;
            n = getNumRows A;
            nnz = getNnz A
        in
        bindE (copyArray (d_ILU_vals_m s1) (val_data A) nnz) (\<lambda>vals.
          case (descr_A_m s1, info_A_m s1) of
            (Some pA, Some pI) \<Rightarrow>
              (case (heap_get dh pA, heap_get ih pI) of
                 (Some dA, Some i0) \<Rightarrow>
                   (case rocsparse_dcsrilu0 lib (n, nnz, dA, vals, row_data A, col_data A) i0 of
                      (st1, vals', i1) \<Rightarrow>
                        Inr (0 + st1,
                             s1\<lparr>status_rocsparse_m := st1, d_ILU_vals_m := Some vals'\<rparr>,
                             heap_set pI i1 ih))
               | _ \<Rightarrow> Inl InvalidPointer)
          | _ \<Rightarrow> Inl InvalidPointer))"

text \<open>
  What both forms of \<open>solve\<close> read: the bound matrix, the factor values, the
  descriptors of the two factors, the info object and the scratch vector.
\<close>

definition ILU0_solve_args ::
  "LinSolverDirectRocSparseILU0 \<Rightarrow> rocsparse_mat_descr heap \<Rightarrow> 'i heap
     \<Rightarrow> error + csr_args \<times> csr_args \<times> 'i \<times> real_type list" where
  "ILU0_solve_args s dh ih =
     (case (A_m s, d_ILU_vals_m s, d_aux1_m s) of
        (Some A, Some vals, Some aux) \<Rightarrow>
          (case (descr_L_m s, descr_U_m s, info_A_m s) of
             (Some pL, Some pU, Some pI) \<Rightarrow>
               (case (heap_get dh pL, heap_get dh pU, heap_get ih pI) of
                  (Some dL, Some dU, Some i0) \<Rightarrow>
                    Inr ((getNumRows A, getNnz A, dL, vals, row_data A, col_data A),
                         (getNumRows A, getNnz A, dU, vals, row_data A, col_data A),
                         i0, aux)
                | _ \<Rightarrow> Inl InvalidPointer)
           | _ \<Rightarrow> Inl InvalidPointer)
      | _ \<Rightarrow> Inl InvalidPointer)"

text \<open>
  \<open>solve(rhs)\<close>: the lower solve reads \<open>rhs\<close> and writes the scratch vector, the
  upper solve reads the scratch vector and writes \<open>rhs\<close>. The solution is returned
  in \<open>rhs\<close>.
\<close>

definition ILU0_solve1 ::
  "'i rocsparse_lib \<Rightarrow> rocsparse_mat_descr heap \<Rightarrow> 'i heap \<Rightarrow> nat
     \<Rightarrow> LinSolverDirectRocSparseILU0 \<times> Vector heap
     \<Rightarrow> error + int \<times> LinSolverDirectRocSparseILU0 \<times> Vector heap" where
  "ILU0_solve1 lib dh ih rhs st =
     (case st of (s, vs) \<Rightarrow>
        bindE (ILU0_solve_args s dh ih) (\<lambda>(argsL, argsU, i0, aux).
          case heap_get vs rhs of
            None \<Rightarrow> Inl InvalidPointer
          | Some rv \<Rightarrow>
              (case rocsparse_dcsrsv_solve lib (Finite 1) argsL i0 (getData rv DEVICE) aux of
                 (st1, aux') \<Rightarrow>
              (case rocsparse_dcsrsv_solve lib (Finite 1) argsU i0 aux' (getData rv DEVICE) of
                 (st2, y) \<Rightarrow>
                   Inr (0 + st1 + st2,
                        s\<lparr>status_rocsparse_m := st2, d_aux1_m := Some aux'\<rparr>,
                        heap_set rhs (setDataUpdated DEVICE (setData DEVICE y rv)) vs)))))"

text \<open>
  \<open>solve(rhs, x)\<close>: the lower solve reads \<open>rhs\<close> and writes the scratch vector, the
  upper solve reads the scratch vector and writes \<open>x\<close>.
\<close>

definition ILU0_solve ::
  "'i rocsparse_lib \<Rightarrow> rocsparse_mat_descr heap \<Rightarrow> 'i heap \<Rightarrow> nat \<Rightarrow> nat
     \<Rightarrow> LinSolverDirectRocSparseILU0 \<times> Vector heap
     \<Rightarrow> error + int \<times> LinSolverDirectRocSparseILU0 \<times> Vector heap" where
  "ILU0_solve lib dh ih rhs x st =
     (case st of (s, vs) \<Rightarrow>
        bindE (ILU0_solve_args s dh ih) (\<lambda>(argsL, argsU, i0, aux).
          case (heap_get vs rhs, heap_get vs x) of
            (Some rv, Some xv) \<Rightarrow>
              (case rocsparse_dcsrsv_solve lib (Finite 1) argsL i0 (getData rv DEVICE) aux of
                 (st1, aux') \<Rightarrow>
              (case rocsparse_dcsrsv_solve lib (Finite 1) argsU i0 aux' (getData xv DEVICE) of
                 (st2, y) \<Rightarrow>
                   Inr (0 + st1 + st2,
                        s\<lparr>status_rocsparse_m := st2, d_aux1_m := Some aux'\<rparr>,
                        heap_set x (setDataUpdated DEVICE (setData DEVICE y xv)) vs)))
          | _ \<Rightarrow> Inl InvalidPointer))"

text \<open>The parameter interface: every \<open>switch\<close> has only its default branch.\<close>

definition ILU0_setCliParam ::
  "string \<Rightarrow> string \<Rightarrow> LinSolverDirectRocSparseILU0 \<Rightarrow> int \<times> LinSolverDirectRocSparseILU0" where
  "ILU0_setCliParam id' v s = (case getParamId s id' of _ \<Rightarrow> (0, s))"

definition ILU0_getCliParamString :: "LinSolverDirectRocSparseILU0 \<Rightarrow> string \<Rightarrow> string" where
  "ILU0_getCliParamString s id' = (case getParamId s id' of _ \<Rightarrow> [])"

definition ILU0_getCliParamInt :: "LinSolverDirectRocSparseILU0 \<Rightarrow> string \<Rightarrow> int" where
  "ILU0_getCliParamInt s id' = (case getParamId s id' of _ \<Rightarrow> -1)"

definition ILU0_getCliParamReal :: "LinSolverDirectRocSparseILU0 \<Rightarrow> string \<Rightarrow> real_type" where
  "ILU0_getCliParamReal s id' = (case getParamId s id' of _ \<Rightarrow> quiet_NaN)"

definition ILU0_getCliParamBool :: "LinSolverDirectRocSparseILU0 \<Rightarrow> string \<Rightarrow> bool" where
  "ILU0_getCliParamBool s id' = (case getParamId s id' of _ \<Rightarrow> False)"

section \<open>Concrete inputs\<close>

text \<open>
  Small vendor libraries, matrices and vectors on which the models are run. The host
  library finds the orderings \<open>[1, 0]\<close> and "solves" by writing ones; the device
  libraries report fixed status codes.
\<close>

definition common0 :: klu_common where
  "common0 = \<lparr>btf = 1, scale = 2, ordering = 0, tol = Finite 0, halt_if_singular = True,
              status = 0, rcond = Finite 0\<rparr>"

definition toy_klu :: klu_lib where
  "toy_klu =
     \<lparr>klu_defaults = (\<lambda>c. c\<lparr>status := 0\<rparr>),
      klu_analyze = (\<lambda>n rp ci c. (Some \<lparr>Q = [1, 0], symbolic_data = 0\<rparr>, c)),
      klu_factor = (\<lambda>rp ci v sy c. (Some \<lparr>Pnum = [1, 0], lnz = 2, unz = 2, numeric_data = 0\<rparr>, c)),
      klu_refactor = (\<lambda>rp ci v sy nu c. (1, nu, c)),
      klu_solve = (\<lambda>sy nu n k b c. (1, map (\<lambda>v. Finite 1) b, c)),
      klu_extract = (\<lambda>nu sy L U c. (1, L, U, c))\<rparr>"

definition A2 :: Sparse where
  "A2 = \<lparr>num_rows = 2, num_columns = 2, num_nnz = 2, sparse_format = COMPRESSED_SPARSE_ROW,
         row_data = [0, 1, 2], col_data = [0, 1], val_data = [Finite 2, Finite 4]\<rparr>"

definition B2 :: Sparse where
  "B2 = \<lparr>num_rows = 2, num_columns = 2, num_nnz = 2, sparse_format = COMPRESSED_SPARSE_ROW,
         row_data = [0, 1, 2], col_data = [1, 0], val_data = [Finite 3, Finite 5]\<rparr>"

definition L2 :: Sparse where
  "L2 = \<lparr>num_rows = 2, num_columns = 2, num_nnz = 2, sparse_format = COMPRESSED_SPARSE_ROW,
         row_data = [0, 1, 2], col_data = [0, 1], val_data = [Finite 1, Finite 1]\<rparr>"

definition T2 :: Sparse where
  "T2 = \<lparr>num_rows = 2, num_columns = 2, num_nnz = 2, sparse_format = OTHER_FORMAT 0,
         row_data = [0, 1], col_data = [0, 1], val_data = [Finite 1, Finite 1]\<rparr>"

definition vs0 :: "Vector heap" where
  "vs0 = [Some \<lparr>h_data = [Finite 2, Finite 4], d_data = [Finite 2, Finite 4],
                cpu_updated = True, gpu_updated = True\<rparr>,
          Some \<lparr>h_data = [Finite 0, Finite 0], d_data = [Finite 0, Finite 0],
                cpu_updated = True, gpu_updated = True\<rparr>]"

text \<open>A host solver after construction, \<open>setup\<close>, \<open>analyze\<close> and \<open>factorize\<close>.\<close>

definition klu_session :: "error + LinSolverDirectKLU" where
  "klu_session =
     (case KLU_setup A2 (KLU_new toy_klu common0 0 (Finite 0) False) of
        (e0, s0) \<Rightarrow>
          bindE (KLU_analyze toy_klu s0) (\<lambda>(e1, s1).
          bindE (KLU_factorize toy_klu s1) (\<lambda>(e2, s2). Inr s2)))"

text \<open>The same solver once the factors have been asked for.\<close>

definition klu_session_factors :: "error + LinSolverDirectKLU" where
  "klu_session_factors =
     bindE klu_session (\<lambda>s. bindE (KLU_getLFactor toy_klu s) (\<lambda>(L, s'). Inr s'))"

text \<open>
  The device library keeps in its handle the values of the matrix it was set up with.
\<close>

definition toy_rf :: "real_type list cusolverRf_lib" where
  "toy_rf =
     \<lparr>rf_fresh = [],
      cusolverRfSetResetValuesFastMode = (\<lambda>d. (0, d)),
      cusolverRfSetupDevice = (\<lambda>n A L U P Q' d. (0, val_data A)),
      cusolverRfAnalyze = (\<lambda>d. (0, d)),
      cusolverRfSetAlgs = (\<lambda>fa sa d. (0, d)),
      cusolverRfResetValues = (\<lambda>A P Q' d. (3, val_data A)),
      cusolverRfRefactor = (\<lambda>d. (4, d)),
      cusolverRfSolve = (\<lambda>d P Q' k T n xf ldxf. (0, xf, map (\<lambda>v. Finite 1) xf)),
      cusolverRfSetNumericProperties = (\<lambda>z b d. (0, d))\<rparr>"

text \<open>A device solver after construction and a first \<open>setup\<close> with CSR factors.\<close>

definition rf_session :: "error + LinSolverDirectCuSolverRf \<times> real_type list heap" where
  "rf_session =
     bindE (CuSolverRf_setup toy_rf A2 L2 L2 [1, 0] [1, 0]
              (CuSolverRf_new toy_rf (Finite 0) (Finite 0) 0 []))
       (\<lambda>(e, s, hs). Inr (s, hs))"

definition toy_roc :: "nat rocsparse_lib" where
  "toy_roc =
     \<lparr>rocsparse_fresh_descr =
        \<lparr>fill_mode = rocsparse_fill_mode_lower, diag_type = rocsparse_diag_type_non_unit\<rparr>,
      rocsparse_fresh_info = 0,
      rocsparse_dcsrilu0_buffer_size = (\<lambda>a i. (0, 8, i)),
      rocsparse_dcsrsv_buffer_size = (\<lambda>a i. (0, 16, i)),
      rocsparse_dcsrilu0_analysis = (\<lambda>a i. (0, Suc i)),
      rocsparse_dcsrsv_analysis = (\<lambda>a i. (0, Suc i)),
      rocsparse_dcsrilu0 = (\<lambda>a i. (case a of (n, nnz, d, vals, rp, ci) \<Rightarrow> (0, vals, Suc i))),
      rocsparse_dcsrsv_solve = (\<lambda>alpha a i x y. (0, map (\<lambda>v. Finite 7) x))\<rparr>"

text \<open>An incomplete-factorization solver after construction and a first \<open>setup\<close>.\<close>

definition ilu0_session ::
  "error + LinSolverDirectRocSparseILU0 \<times> rocsparse_mat_descr heap \<times> nat heap" where
  "ilu0_session =
     bindE (ILU0_setup toy_roc A2 (ILU0_new 0, [], [])) (\<lambda>(e, s, dh, ih). Inr (s, dh, ih))"

text \<open>The states these sessions end in, written out.\<close>

definition klu_factorized :: LinSolverDirectKLU where
  "klu_factorized =
     \<lparr>A_m = Some A2,
      params_list_m =
        [(''pivot_tol'', PIVOT_TOL), (''ordering'', ORDERING), (''halt_if_singular'', HALT_IF_SINGULAR)],
      Symbolic_m = Some \<lparr>Q = [1, 0], symbolic_data = 0\<rparr>,
      Numeric_m = Some \<lparr>Pnum = [1, 0], lnz = 2, unz = 2, numeric_data = 0\<rparr>,
      Common_m = \<lparr>btf = 0, scale = - 1, ordering = 0, tol = Finite 0, halt_if_singular = False,
                  status = 0, rcond = Finite 0\<rparr>,
      L_m = None, U_m = None, P_m = None, Q_m = None,
      factors_extracted_m = False, pivot_threshold_tol_m = Finite 0,
      ordering_m = 0, halt_if_singular_m = False\<rparr>"

definition klu_extracted :: LinSolverDirectKLU where
  "klu_extracted =
     klu_factorized\<lparr>L_m := Some (new_Csc 2 2 2), U_m := Some (new_Csc 2 2 2),
                    factors_extracted_m := True\<rparr>"

definition rf_ready :: LinSolverDirectCuSolverRf where
  "rf_ready =
     \<lparr>A_m = Some A2,
      params_list_m = [(''zero_pivot'', ZERO_PIVOT), (''pivot_boost'', PIVOT_BOOST)],
      handle_cusolverrf_m = 0, status_cusolverrf_m = 0,
      d_P_m = Some [1, 0], d_Q_m = Some [1, 0], d_T_m = Some [Finite 0, Finite 0],
      setup_completed_m = True, zero_pivot_m = Finite 0, pivot_boost_m = Finite 0\<rparr>"

definition rf_handles :: "real_type list heap" where
  "rf_handles = [Some [Finite 2, Finite 4]]"

definition ilu0_ready :: LinSolverDirectRocSparseILU0 where
  "ilu0_ready =
     \<lparr>A_m = Some A2, params_list_m = [], status_rocsparse_m = 0,
      descr_A_m = Some 0, descr_L_m = Some 1, descr_U_m = Some 2, info_A_m = Some 0,
      buffer_m = Some 16, d_aux1_m = Some [Finite 0, Finite 0],
      d_ILU_vals_m = Some [Finite 2, Finite 4]\<rparr>"

definition ilu0_descrs :: "rocsparse_mat_descr heap" where
  "ilu0_descrs =
     [Some \<lparr>fill_mode = rocsparse_fill_mode_lower, diag_type = rocsparse_diag_type_non_unit\<rparr>,
      Some \<lparr>fill_mode = rocsparse_fill_mode_lower, diag_type = rocsparse_diag_type_unit\<rparr>,
      Some \<lparr>fill_mode = rocsparse_fill_mode_upper, diag_type = rocsparse_diag_type_non_unit\<rparr>]"

definition ilu0_infos :: "nat heap" where
  "ilu0_infos = [Some 4]"

text \<open>
  Sources for the conversion, each with valid structure, and zeroed destinations of the
  same dimensions: a 2 by 2 source; a 1 by 2 source with both entries; a 2 by 1 source
  with its first entry; a 6 by 4 source with the entries (0,0), (0,1), (0,2) and (5,3).
\<close>

definition square22 :: Sparse where
  "square22 = \<lparr>num_rows = 2, num_columns = 2, num_nnz = 3, sparse_format = COMPRESSED_SPARSE_COLUMN,
               row_data = [1, 0, 1], col_data = [0, 1, 3],
               val_data = [Finite 5, Finite 7, Finite 8]\<rparr>"

definition square22_dst :: Sparse where
  "square22_dst = \<lparr>num_rows = 2, num_columns = 2, num_nnz = 3, sparse_format = COMPRESSED_SPARSE_ROW,
                   row_data = [9, 9, 9], col_data = [9, 9, 9],
                   val_data = [Finite 9, Finite 9, Finite 9]\<rparr>"

definition wide12 :: Sparse where
  "wide12 = \<lparr>num_rows = 1, num_columns = 2, num_nnz = 2, sparse_format = COMPRESSED_SPARSE_COLUMN,
             row_data = [0, 0], col_data = [0, 1, 2], val_data = [Finite 5, Finite 7]\<rparr>"

definition wide12_dst :: Sparse where
  "wide12_dst = \<lparr>num_rows = 1, num_columns = 2, num_nnz = 2, sparse_format = COMPRESSED_SPARSE_ROW,
                 row_data = [0, 0], col_data = [0, 0], val_data = [Finite 0, Finite 0]\<rparr>"

definition tall21 :: Sparse where
  "tall21 = \<lparr>num_rows = 2, num_columns = 1, num_nnz = 1, sparse_format = COMPRESSED_SPARSE_COLUMN,
             row_data = [0], col_data = [0, 1], val_data = [Finite 5]\<rparr>"

definition tall21_dst :: Sparse where
  "tall21_dst = \<lparr>num_rows = 2, num_columns = 1, num_nnz = 1, sparse_format = COMPRESSED_SPARSE_ROW,
                 row_data = [0, 0, 0], col_data = [0], val_data = [Finite 0]\<rparr>"

definition tall64 :: Sparse where
  "tall64 = \<lparr>num_rows = 6, num_columns = 4, num_nnz = 4, sparse_format = COMPRESSED_SPARSE_COLUMN,
             row_data = [0, 0, 0, 5], col_data = [0, 1, 2, 3, 4],
             val_data = [Finite 1, Finite 2, Finite 3, Finite 4]\<rparr>"

definition tall64_dst :: Sparse where
  "tall64_dst = \<lparr>num_rows = 6, num_columns = 4, num_nnz = 4, sparse_format = COMPRESSED_SPARSE_ROW,
                 row_data = [0, 0, 0, 0, 0, 0, 0], col_data = [0, 0, 0, 0],
                 val_data = [Finite 0, Finite 0, Finite 0, Finite 0]\<rparr>"

section \<open>Basic facts\<close>

lemma bindE_Inr: "bindE (Inr x) f = f x"
  by (simp add: bindE_def)

lemma bindE_Inl: "bindE (Inl e) f = Inl e"
  by (simp add: bindE_def)

lemma heap_get_new: "heap_get (snd (heap_new v h)) a = (if a = length h then Some v else heap_get h a)"
  by (auto simp: heap_get_def heap_new_def nth_append)

lemma heap_get_set:
  "heap_get (heap_set a v h) b = (if b = a \<and> a < length h then Some v else heap_get h b)"
  by (auto simp: heap_get_def heap_set_def)

lemma heap_get_free:
  "heap_get (heap_free a h) b = (if b = a then None else heap_get h b)"
  by (auto simp: heap_get_def heap_free_def)

lemma length_heap_set: "length (heap_set a v h) = length h"
  by (simp add: heap_set_def)

lemma length_heap_free: "length (heap_free a h) = length h"
  by (simp add: heap_free_def)

lemma heap_get_Some_less: "heap_get h a = Some v \<Longrightarrow> a < length h"
  by (auto simp: heap_get_def split: if_splits)

lemma getParamId_unregistered:
  "id' \<notin> fst ` set (params_list_m s) \<Longrightarrow> getParamId s id' = None"
  by (simp add: getParamId_def map_of_eq_None_iff)

section \<open>Unknown parameter ids\<close>

text \<open>
  Claim C7. For each of the three solvers and every string that is not registered in
  its parameter list: the real getter returns NaN, the integer getter returns -1, the
  string getter returns the empty string, and the setter returns 0 and leaves the solver
  (and, for the device-refactor solver, the heap of vendor handles) as it was.
\<close>

theorem unknown_param_id:
  assumes "id' \<notin> fst ` set (params_list_m sk)"
    and "id' \<notin> fst ` set (params_list_m sr)"
    and "id' \<notin> fst ` set (params_list_m si)"
  shows "KLU_getCliParamReal sk id' = quiet_NaN
       \<and> KLU_getCliParamInt sk id' = -1
       \<and> KLU_getCliParamString sk id' = []
       \<and> KLU_setCliParam atof atoi id' v sk = (0, sk)
       \<and> CuSolverRf_getCliParamReal sr id' = quiet_NaN
       \<and> CuSolverRf_getCliParamInt sr id' = -1
       \<and> CuSolverRf_getCliParamString sr id' = []
       \<and> CuSolverRf_setCliParam lib atof id' v (sr, hs) = Inr (0, sr, hs)
       \<and> ILU0_getCliParamReal si id' = quiet_NaN
       \<and> ILU0_getCliParamInt si id' = -1
       \<and> ILU0_getCliParamString si id' = []
       \<and> ILU0_setCliParam id' v si = (0, si)"
proof -
  have k: "getParamId sk id' = None"
    using assms(1) by (rule getParamId_unregistered)
  have r: "getParamId sr id' = None"
    using assms(2) by (rule getParamId_unregistered)
  show ?thesis
    by (simp add: k r KLU_getCliParamReal_def KLU_getCliParamInt_def KLU_getCliParamString_def
        KLU_setCliParam_def CuSolverRf_getCliParamReal_def CuSolverRf_getCliParamInt_def
        CuSolverRf_getCliParamString_def CuSolverRf_setCliParam_def ILU0_getCliParamReal_def
        ILU0_getCliParamInt_def ILU0_getCliParamString_def ILU0_setCliParam_def)
qed

lemma klu_new_params:
  "params_list_m (KLU_new lib c0 o0 t0 h0) =
     [(''pivot_tol'', PIVOT_TOL), (''ordering'', ORDERING), (''halt_if_singular'', HALT_IF_SINGULAR)]"
  by (simp add: KLU_new_def KLU_initParamList_def)

lemma rf_new_params:
  "params_list_m (fst (CuSolverRf_new lib z0 b0 st0 hs)) =
     [(''zero_pivot'', ZERO_PIVOT), (''pivot_boost'', PIVOT_BOOST)]"
  by (simp add: CuSolverRf_new_def CuSolverRf_initParamList_def cusolverRfCreate_def heap_new_def)

lemma ilu0_new_params: "params_list_m (ILU0_new st0) = []"
  by (simp add: ILU0_new_def)

theorem unknown_param_id_witness:
  "''not_a_key'' \<notin> fst ` set (params_list_m (KLU_new toy_klu common0 0 (Finite 0) False))
   \<and> ''not_a_key'' \<notin> fst ` set (params_list_m (fst (CuSolverRf_new toy_rf (Finite 0) (Finite 0) 0 [])))
   \<and> ''not_a_key'' \<notin> fst ` set (params_list_m (ILU0_new 0))
   \<and> KLU_getCliParamReal (KLU_new toy_klu common0 0 (Finite 0) False) ''not_a_key'' = quiet_NaN
   \<and> KLU_getCliParamInt (KLU_new toy_klu common0 0 (Finite 0) False) ''not_a_key'' = -1
   \<and> KLU_getCliParamString (KLU_new toy_klu common0 0 (Finite 0) False) ''not_a_key'' = []
   \<and> KLU_setCliParam (\<lambda>t. Finite 1) (\<lambda>t. 1) ''not_a_key'' ''1''
        (KLU_new toy_klu common0 0 (Finite 0) False)
      = (0, KLU_new toy_klu common0 0 (Finite 0) False)
   \<and> CuSolverRf_getCliParamReal (fst (CuSolverRf_new toy_rf (Finite 0) (Finite 0) 0 [])) ''not_a_key''
      = quiet_NaN
   \<and> CuSolverRf_getCliParamInt (fst (CuSolverRf_new toy_rf (Finite 0) (Finite 0) 0 [])) ''not_a_key''
      = -1
   \<and> CuSolverRf_getCliParamString (fst (CuSolverRf_new toy_rf (Finite 0) (Finite 0) 0 []))
        ''not_a_key'' = []
   \<and> CuSolverRf_setCliParam toy_rf (\<lambda>t. Finite 1) ''not_a_key'' ''1''
        (fst (CuSolverRf_new toy_rf (Finite 0) (Finite 0) 0 []), [Some []])
      = Inr (0, fst (CuSolverRf_new toy_rf (Finite 0) (Finite 0) 0 []), [Some []])
   \<and> ILU0_getCliParamReal (ILU0_new 0) ''not_a_key'' = quiet_NaN
   \<and> ILU0_getCliParamInt (ILU0_new 0) ''not_a_key'' = -1
   \<and> ILU0_getCliParamString (ILU0_new 0) ''not_a_key'' = []
   \<and> ILU0_setCliParam ''not_a_key'' ''1'' (ILU0_new 0) = (0, ILU0_new 0)"
proof -
  have k: "''not_a_key'' \<notin> fst ` set (params_list_m (KLU_new toy_klu common0 0 (Finite 0) False))"
    by (simp add: klu_new_params)
  have r: "''not_a_key''
      \<notin> fst ` set (params_list_m (fst (CuSolverRf_new toy_rf (Finite 0) (Finite 0) 0 [])))"
    by (simp add: rf_new_params)
  have i: "''not_a_key'' \<notin> fst ` set (params_list_m (ILU0_new 0))"
    by (simp add: ilu0_new_params)
  from k r i
    unknown_param_id [OF k r i, of "\<lambda>t. Finite 1" "\<lambda>t. 1" "''1''" toy_rf "[Some []]"]
  show ?thesis by blast
qed

section \<open>Orderings of the host solver without a factorization\<close>

text \<open>
  Claim C10. While the host solver holds no numeric factorization, \<open>getPOrdering\<close>
  and \<open>getQOrdering\<close> return the null pointer; the solver and the heap of integer
  arrays are as before, so nothing is allocated and nothing is dereferenced.
\<close>

theorem orderings_without_numeric:
  assumes "Numeric_m s = None"
  shows "KLU_getPOrdering (s, h) = Inr (None, s, h) \<and> KLU_getQOrdering (s, h) = Inr (None, s, h)"
  using assms by (simp add: KLU_getPOrdering_def KLU_getQOrdering_def)

theorem orderings_without_numeric_witness:
  "Numeric_m (KLU_new toy_klu common0 0 (Finite 0) False) = None
   \<and> KLU_getPOrdering (KLU_new toy_klu common0 0 (Finite 0) False, [Some [5, 6]])
       = Inr (None, KLU_new toy_klu common0 0 (Finite 0) False, [Some [5, 6]])
   \<and> KLU_getQOrdering (KLU_new toy_klu common0 0 (Finite 0) False, [Some [5, 6]])
       = Inr (None, KLU_new toy_klu common0 0 (Finite 0) False, [Some [5, 6]])"
proof -
  have n: "Numeric_m (KLU_new toy_klu common0 0 (Finite 0) False) = None"
    by (simp add: KLU_new_def KLU_initParamList_def)
  show ?thesis
    using n orderings_without_numeric [OF n, of "[Some [5, 6]]"] by simp
qed

section \<open>The concrete sessions\<close>

lemmas csc2csr_steps =
  csc2csr_def getNnz_def getNumRows_def getNumColumns_def getSparseFormat_def Let_def
  bindE_def rd_def wr_def zero_row_ptr_def zero_entry_def count_entry_def cumsum_step_def
  scatter_column_def scatter_entry_def unshift_step_def

lemma replicate_2: "replicate 2 x = [x, x]"
  by (simp add: numeral_2_eq_2)

lemma klu_session_eq: "klu_session = Inr klu_factorized"
  by (simp add: klu_session_def klu_factorized_def KLU_setup_def KLU_new_def KLU_initParamList_def
      KLU_analyze_def KLU_factorize_def toy_klu_def common0_def bindE_def A2_def getNumRows_def)

lemma klu_session_factors_eq: "klu_session_factors = Inr klu_extracted"
  by (simp add: klu_session_factors_def klu_session_eq klu_extracted_def klu_factorized_def
      KLU_getLFactor_def KLU_extract_factors_def toy_klu_def bindE_def A2_def getNumRows_def
      getNumColumns_def)

lemma rf_session_eq: "rf_session = Inr (rf_ready, rf_handles)"
  by (simp add: rf_session_def rf_ready_def rf_handles_def CuSolverRf_setup_def CuSolverRf_new_def
      CuSolverRf_initParamList_def cusolverRfCreate_def heap_new_def heap_get_def heap_set_def
      convert_factors_def CuSolverRf_setup_device_def CuSolverRf_setAlgorithms_def rf_call_def
      allocateArrayOnDevice_def
      copyArray_def toy_rf_def bindE_def A2_def L2_def getNumRows_def getSparseFormat_def replicate_2)

lemma ilu0_session_eq: "ilu0_session = Inr (ilu0_ready, ilu0_descrs, ilu0_infos)"
  by (simp add: ilu0_session_def ilu0_ready_def ilu0_descrs_def ilu0_infos_def ILU0_setup_def
      ILU0_new_def heap_new_def heap_get_def heap_set_def allocateArrayOnDevice_def copyArray_def
      toy_roc_def bindE_def A2_def getNumRows_def getNnz_def Let_def replicate_2)

lemma csc2csr_square_example:
  "csc2csr square22 square22_dst
   = Inr (0, square22_dst\<lparr>row_data := [0, 1, 3], col_data := [1, 0, 1],
                            val_data := [Finite 7, Finite 5, Finite 8]\<rparr>)"
  by (simp add: csc2csr_steps for_loop.simps square22_def square22_dst_def)

section \<open>The two forms of solve\<close>

lemma getData_setData: "getData (setData sp xs v) sp = xs"
  by (cases sp) (simp_all add: getData_def setData_def)

lemma getData_setDataUpdated: "getData (setDataUpdated sp' v) sp = getData v sp"
  by (cases sp; cases sp') (simp_all add: getData_def setDataUpdated_def)

text \<open>
  Claim C3. For each of the three solvers, a right-hand-side vector \<open>rhs\<close> and an
  output vector \<open>x\<close>, two vector objects: \<open>solve(rhs, x)\<close> returns, the object
  \<open>rhs\<close> is as before, and the data of \<open>x\<close> (host data for the host solver,
  device data for the two device solvers) is what the vendor's solve wrote for the data
  of \<open>rhs\<close>.
\<close>

theorem solve_two_args_frame:
  assumes "rhs \<noteq> x"
    and "heap_get vs rhs = Some rv"
    and "heap_get vs x = Some xv"
    and "A_m sk = Some Ak"
    and "klu_solve klib (Symbolic_m sk) (Numeric_m sk) (getNumRows Ak) 1 (getData rv HOST) (Common_m sk)
         = (kluStatus, b, c)"
    and "A_m sr = Some Ar"
    and "heap_get hs (handle_cusolverrf_m sr) = Some d"
    and "d_P_m sr = Some dP"
    and "d_Q_m sr = Some dQ"
    and "d_T_m sr = Some dT"
    and "cusolverRfSolve rlib d dP dQ 1 dT (getNumRows Ar) (getData rv DEVICE) (getNumRows Ar)
         = (st, dT', xf)"
    and "ILU0_solve_args si dh ih = Inr (argsL, argsU, i0, aux)"
    and "rocsparse_dcsrsv_solve ilib (Finite 1) argsL i0 (getData rv DEVICE) aux = (st1, aux')"
    and "rocsparse_dcsrsv_solve ilib (Finite 1) argsU i0 aux' (getData xv DEVICE) = (st2, y)"
  shows "(\<exists>ret s' vs' xv'. KLU_solve klib rhs x (sk, vs) = Inr (ret, s', vs')
            \<and> heap_get vs' rhs = Some rv
            \<and> heap_get vs' x = Some xv' \<and> getData xv' HOST = b)
       \<and> (\<exists>s' vs' xv'. CuSolverRf_solve rlib hs rhs x (sr, vs) = Inr (st, s', vs')
            \<and> heap_get vs' rhs = Some rv
            \<and> heap_get vs' x = Some xv' \<and> getData xv' DEVICE = xf)
       \<and> (\<exists>s' vs' xv'. ILU0_solve ilib dh ih rhs x (si, vs) = Inr (st1 + st2, s', vs')
            \<and> heap_get vs' rhs = Some rv
            \<and> heap_get vs' x = Some xv' \<and> getData xv' DEVICE = y)"
proof -
  have lx: "x < length vs"
    using assms(3) by (rule heap_get_Some_less)
  have copy: "getData (setDataUpdated sp (copyDataFrom src sp sp xv)) sp = src" for sp src
    by (simp add: copyDataFrom_def getData_setDataUpdated getData_setData)
  have klu: "\<exists>ret s' vs' xv'. KLU_solve klib rhs x (sk, vs) = Inr (ret, s', vs')
      \<and> heap_get vs' rhs = Some rv \<and> heap_get vs' x = Some xv' \<and> getData xv' HOST = b"
    using assms(1-5) lx
    by (simp add: KLU_solve_def heap_get_set length_heap_set copy getData_setData Let_def)
  have rf: "\<exists>s' vs' xv'. CuSolverRf_solve rlib hs rhs x (sr, vs) = Inr (st, s', vs')
      \<and> heap_get vs' rhs = Some rv \<and> heap_get vs' x = Some xv' \<and> getData xv' DEVICE = xf"
    using assms(1-3) assms(6-11) lx
    by (simp add: CuSolverRf_solve_def heap_get_set length_heap_set copy getData_setData Let_def)
  have ilu: "\<exists>s' vs' xv'. ILU0_solve ilib dh ih rhs x (si, vs) = Inr (st1 + st2, s', vs')
      \<and> heap_get vs' rhs = Some rv \<and> heap_get vs' x = Some xv' \<and> getData xv' DEVICE = y"
    using assms(1-3) assms(12-14) lx
    by (simp add: ILU0_solve_def bindE_def heap_get_set length_heap_set getData_setDataUpdated
        getData_setData)
  from klu rf ilu show ?thesis by blast
qed

lemma ilu0_ready_args:
  "ILU0_solve_args ilu0_ready ilu0_descrs ilu0_infos =
     Inr ((2, 2, \<lparr>fill_mode = rocsparse_fill_mode_lower, diag_type = rocsparse_diag_type_unit\<rparr>,
           [Finite 2, Finite 4], [0, 1, 2], [0, 1]),
          (2, 2, \<lparr>fill_mode = rocsparse_fill_mode_upper, diag_type = rocsparse_diag_type_non_unit\<rparr>,
           [Finite 2, Finite 4], [0, 1, 2], [0, 1]),
          4, [Finite 0, Finite 0])"
  by (simp add: ILU0_solve_args_def ilu0_ready_def ilu0_descrs_def ilu0_infos_def heap_get_def
      A2_def getNumRows_def getNnz_def)

theorem solve_two_args_frame_witness:
  "(0::nat) \<noteq> 1
   \<and> (\<exists>ret s' vs' xv'. KLU_solve toy_klu 0 1 (klu_factorized, vs0) = Inr (ret, s', vs')
         \<and> heap_get vs' 0 = heap_get vs0 0
         \<and> heap_get vs' 1 = Some xv' \<and> getData xv' HOST = [Finite 1, Finite 1])
   \<and> (\<exists>s' vs' xv'. CuSolverRf_solve toy_rf rf_handles 0 1 (rf_ready, vs0) = Inr (0, s', vs')
         \<and> heap_get vs' 0 = heap_get vs0 0
         \<and> heap_get vs' 1 = Some xv' \<and> getData xv' DEVICE = [Finite 1, Finite 1])
   \<and> (\<exists>s' vs' xv'. ILU0_solve toy_roc ilu0_descrs ilu0_infos 0 1 (ilu0_ready, vs0) = Inr (0, s', vs')
         \<and> heap_get vs' 0 = heap_get vs0 0
         \<and> heap_get vs' 1 = Some xv' \<and> getData xv' DEVICE = [Finite 7, Finite 7])"
proof -
  have ne: "(0::nat) \<noteq> 1" by simp
  have r: "heap_get vs0 0 = Some \<lparr>h_data = [Finite 2, Finite 4], d_data = [Finite 2, Finite 4],
      cpu_updated = True, gpu_updated = True\<rparr>"
    by (simp add: vs0_def heap_get_def)
  have x: "heap_get vs0 1 = Some \<lparr>h_data = [Finite 0, Finite 0], d_data = [Finite 0, Finite 0],
      cpu_updated = True, gpu_updated = True\<rparr>"
    by (simp add: vs0_def heap_get_def)
  have ak: "A_m klu_factorized = Some A2"
    by (simp add: klu_factorized_def)
  have ks: "klu_solve toy_klu (Symbolic_m klu_factorized) (Numeric_m klu_factorized) (getNumRows A2) 1
      (getData \<lparr>h_data = [Finite 2, Finite 4], d_data = [Finite 2, Finite 4],
         cpu_updated = True, gpu_updated = True\<rparr> HOST) (Common_m klu_factorized)
      = (1, [Finite 1, Finite 1], Common_m klu_factorized)"
    by (simp add: toy_klu_def getData_def)
  have ar: "A_m rf_ready = Some A2"
    by (simp add: rf_ready_def)
  have hd: "heap_get rf_handles (handle_cusolverrf_m rf_ready) = Some [Finite 2, Finite 4]"
    by (simp add: rf_ready_def rf_handles_def heap_get_def)
  have dp: "d_P_m rf_ready = Some [1, 0]" and dq: "d_Q_m rf_ready = Some [1, 0]"
    and dt: "d_T_m rf_ready = Some [Finite 0, Finite 0]"
    by (simp_all add: rf_ready_def)
  have rs: "cusolverRfSolve toy_rf [Finite 2, Finite 4] [1, 0] [1, 0] 1 [Finite 0, Finite 0]
      (getNumRows A2)
      (getData \<lparr>h_data = [Finite 2, Finite 4], d_data = [Finite 2, Finite 4],
         cpu_updated = True, gpu_updated = True\<rparr> DEVICE) (getNumRows A2)
      = (0, [Finite 2, Finite 4], [Finite 1, Finite 1])"
    by (simp add: toy_rf_def getData_def)
  have l: "rocsparse_dcsrsv_solve toy_roc (Finite 1)
      (2, 2, \<lparr>fill_mode = rocsparse_fill_mode_lower, diag_type = rocsparse_diag_type_unit\<rparr>,
       [Finite 2, Finite 4], [0, 1, 2], [0, 1]) 4
      (getData \<lparr>h_data = [Finite 2, Finite 4], d_data = [Finite 2, Finite 4],
         cpu_updated = True, gpu_updated = True\<rparr> DEVICE) [Finite 0, Finite 0]
      = (0, [Finite 7, Finite 7])"
    by (simp add: toy_roc_def getData_def)
  have u: "rocsparse_dcsrsv_solve toy_roc (Finite 1)
      (2, 2, \<lparr>fill_mode = rocsparse_fill_mode_upper, diag_type = rocsparse_diag_type_non_unit\<rparr>,
       [Finite 2, Finite 4], [0, 1, 2], [0, 1]) 4 [Finite 7, Finite 7]
      (getData \<lparr>h_data = [Finite 0, Finite 0], d_data = [Finite 0, Finite 0],
         cpu_updated = True, gpu_updated = True\<rparr> DEVICE)
      = (0, [Finite 7, Finite 7])"
    by (simp add: toy_roc_def)
  from solve_two_args_frame [OF ne r x ak ks ar hd dp dq dt rs ilu0_ready_args l u] ne r
  show ?thesis by simp
qed

text \<open>
  Claim C4, as amended. With the data a factorization leaves in place, \<open>solve(rhs)\<close>
  of the device-refactor solver returns the vendor's status and the device data of
  \<open>rhs\<close> is what the vendor's solve wrote for it; \<open>solve(rhs)\<close> of the
  incomplete-factorization solver returns the sum of the status codes of its two
  triangular solves and the device data of \<open>rhs\<close> is the result of the second, run on
  the result of the first. The host solver's \<open>solve(rhs)\<close> returns 1 and changes
  nothing.
\<close>

theorem solve_one_arg:
  assumes "heap_get vs rhs = Some rv"
    and "A_m sr = Some Ar"
    and "heap_get hs (handle_cusolverrf_m sr) = Some d"
    and "d_P_m sr = Some dP"
    and "d_Q_m sr = Some dQ"
    and "d_T_m sr = Some dT"
    and "cusolverRfSolve rlib d dP dQ 1 dT (getNumRows Ar) (getData rv DEVICE) (getNumRows Ar)
         = (st, dT', xf)"
    and "ILU0_solve_args si dh ih = Inr (argsL, argsU, i0, aux)"
    and "rocsparse_dcsrsv_solve ilib (Finite 1) argsL i0 (getData rv DEVICE) aux = (st1, aux')"
    and "rocsparse_dcsrsv_solve ilib (Finite 1) argsU i0 aux' (getData rv DEVICE) = (st2, y)"
  shows "(\<exists>s' vs' rv'. CuSolverRf_solve1 rlib hs rhs (sr, vs) = Inr (st, s', vs')
            \<and> heap_get vs' rhs = Some rv' \<and> getData rv' DEVICE = xf)
       \<and> (\<exists>s' vs' rv'. ILU0_solve1 ilib dh ih rhs (si, vs) = Inr (st1 + st2, s', vs')
            \<and> heap_get vs' rhs = Some rv' \<and> getData rv' DEVICE = y)
       \<and> KLU_solve1 rhs (sk, vs) = Inr (1, sk, vs)"
proof -
  have lr: "rhs < length vs"
    using assms(1) by (rule heap_get_Some_less)
  have rf: "\<exists>s' vs' rv'. CuSolverRf_solve1 rlib hs rhs (sr, vs) = Inr (st, s', vs')
      \<and> heap_get vs' rhs = Some rv' \<and> getData rv' DEVICE = xf"
    using assms(1-7) lr
    by (simp add: CuSolverRf_solve1_def heap_get_set length_heap_set getData_setData)
  have ilu: "\<exists>s' vs' rv'. ILU0_solve1 ilib dh ih rhs (si, vs) = Inr (st1 + st2, s', vs')
      \<and> heap_get vs' rhs = Some rv' \<and> getData rv' DEVICE = y"
    using assms(1) assms(8-10) lr
    by (simp add: ILU0_solve1_def bindE_def heap_get_set length_heap_set getData_setDataUpdated
        getData_setData)
  have klu: "KLU_solve1 rhs (sk, vs) = Inr (1, sk, vs)"
    by (simp add: KLU_solve1_def)
  from rf ilu klu show ?thesis by blast
qed

theorem solve_one_arg_witness:
  "(\<exists>s' vs' rv'. CuSolverRf_solve1 toy_rf rf_handles 0 (rf_ready, vs0) = Inr (0, s', vs')
       \<and> heap_get vs' 0 = Some rv' \<and> getData rv' DEVICE = [Finite 1, Finite 1])
   \<and> (\<exists>s' vs' rv'. ILU0_solve1 toy_roc ilu0_descrs ilu0_infos 0 (ilu0_ready, vs0) = Inr (0, s', vs')
       \<and> heap_get vs' 0 = Some rv' \<and> getData rv' DEVICE = [Finite 7, Finite 7])
   \<and> KLU_solve1 0 (klu_factorized, vs0) = Inr (1, klu_factorized, vs0)"
proof -
  have r: "heap_get vs0 0 = Some \<lparr>h_data = [Finite 2, Finite 4], d_data = [Finite 2, Finite 4],
      cpu_updated = True, gpu_updated = True\<rparr>"
    by (simp add: vs0_def heap_get_def)
  have ar: "A_m rf_ready = Some A2"
    by (simp add: rf_ready_def)
  have hd: "heap_get rf_handles (handle_cusolverrf_m rf_ready) = Some [Finite 2, Finite 4]"
    by (simp add: rf_ready_def rf_handles_def heap_get_def)
  have dp: "d_P_m rf_ready = Some [1, 0]" and dq: "d_Q_m rf_ready = Some [1, 0]"
    and dt: "d_T_m rf_ready = Some [Finite 0, Finite 0]"
    by (simp_all add: rf_ready_def)
  have rs: "cusolverRfSolve toy_rf [Finite 2, Finite 4] [1, 0] [1, 0] 1 [Finite 0, Finite 0]
      (getNumRows A2)
      (getData \<lparr>h_data = [Finite 2, Finite 4], d_data = [Finite 2, Finite 4],
         cpu_updated = True, gpu_updated = True\<rparr> DEVICE) (getNumRows A2)
      = (0, [Finite 2, Finite 4], [Finite 1, Finite 1])"
    by (simp add: toy_rf_def getData_def)
  have l: "rocsparse_dcsrsv_solve toy_roc (Finite 1)
      (2, 2, \<lparr>fill_mode = rocsparse_fill_mode_lower, diag_type = rocsparse_diag_type_unit\<rparr>,
       [Finite 2, Finite 4], [0, 1, 2], [0, 1]) 4
      (getData \<lparr>h_data = [Finite 2, Finite 4], d_data = [Finite 2, Finite 4],
         cpu_updated = True, gpu_updated = True\<rparr> DEVICE) [Finite 0, Finite 0]
      = (0, [Finite 7, Finite 7])"
    by (simp add: toy_roc_def getData_def)
  have u: "rocsparse_dcsrsv_solve toy_roc (Finite 1)
      (2, 2, \<lparr>fill_mode = rocsparse_fill_mode_upper, diag_type = rocsparse_diag_type_non_unit\<rparr>,
       [Finite 2, Finite 4], [0, 1, 2], [0, 1]) 4 [Finite 7, Finite 7]
      (getData \<lparr>h_data = [Finite 2, Finite 4], d_data = [Finite 2, Finite 4],
         cpu_updated = True, gpu_updated = True\<rparr> DEVICE)
      = (0, [Finite 7, Finite 7])"
    by (simp add: toy_roc_def)
  from solve_one_arg [OF r ar hd dp dq dt rs ilu0_ready_args l u, of klu_factorized]
  show ?thesis by simp
qed

text \<open>
  The claim as stated covers the host solver: on a factorized host solver \<open>solve(rhs)\<close>
  returns 1, not 0, and the data of \<open>rhs\<close> stays what it was, while the vendor's
  solve would have written ones.
\<close>

theorem solve_one_arg_host_counterexample:
  "klu_session = Inr klu_factorized
   \<and> Symbolic_m klu_factorized \<noteq> None \<and> Numeric_m klu_factorized \<noteq> None
   \<and> KLU_solve1 0 (klu_factorized, vs0) = Inr (1, klu_factorized, vs0)
   \<and> \<not> (\<exists>s' vs'. KLU_solve1 0 (klu_factorized, vs0) = Inr (0, s', vs'))"
  by (simp add: klu_session_eq KLU_solve1_def klu_factorized_def)

section \<open>Accumulated status codes\<close>

lemma rf_call_live:
  "heap_get hs p = Some d \<Longrightarrow> f d = (st, d') \<Longrightarrow> rf_call hs p f = Inr (st, heap_set p d' hs)"
  by (simp add: rf_call_def)

text \<open>
  Claim C8. Once its assertions hold and its handle is live, \<open>refactorize\<close> of the
  device-refactor solver returns the sum of the status codes of the vendor's value reset
  and refactorization; \<open>reset\<close> of the incomplete-factorization solver returns the
  status code of the one factorization it runs. So the value is 0 when every step
  reports 0, and a value other than 0 means that some step did not report 0. (The status
  codes are values of the vendors' enumerations; the sum of two of them does not
  overflow.)
\<close>

theorem refactorize_status_sum:
  assumes "A_m s = Some A"
    and "0 < getNumRows A"
    and "0 < getNnz A"
    and "d_P_m s = Some dP"
    and "d_Q_m s = Some dQ"
    and "heap_get hs (handle_cusolverrf_m s) = Some d"
    and "cusolverRfResetValues rlib A dP dQ d = (st1, d1)"
    and "cusolverRfRefactor rlib d1 = (st2, d2)"
    and "copyArray (d_ILU_vals_m si) (val_data B) (getNnz B) = Inr vals"
    and "descr_A_m si = Some pA"
    and "info_A_m si = Some pI"
    and "heap_get dh pA = Some dA"
    and "heap_get ih pI = Some i0"
    and "rocsparse_dcsrilu0 ilib (getNumRows B, getNnz B, dA, vals, row_data B, col_data B) i0
         = (st3, vals', i1)"
  shows "(\<exists>ret s' hs'. CuSolverRf_refactorize rlib (s, hs) = Inr (ret, s', hs')
            \<and> ret = st1 + st2
            \<and> (st1 = 0 \<and> st2 = 0 \<longrightarrow> ret = 0)
            \<and> (ret \<noteq> 0 \<longrightarrow> st1 \<noteq> 0 \<or> st2 \<noteq> 0))
       \<and> (\<exists>ret s' ih'. ILU0_reset ilib B dh (si, ih) = Inr (ret, s', ih')
            \<and> ret = st3)"
proof -
  have l: "handle_cusolverrf_m s < length hs"
    using assms(6) by (rule heap_get_Some_less)
  have c1: "rf_call hs (handle_cusolverrf_m s) (cusolverRfResetValues rlib A dP dQ)
      = Inr (st1, heap_set (handle_cusolverrf_m s) d1 hs)"
    using assms(6,7) by (rule rf_call_live)
  have g: "heap_get (heap_set (handle_cusolverrf_m s) d1 hs) (handle_cusolverrf_m s) = Some d1"
    using l by (simp add: heap_get_set)
  have c2: "rf_call (heap_set (handle_cusolverrf_m s) d1 hs) (handle_cusolverrf_m s)
        (cusolverRfRefactor rlib)
      = Inr (st2, heap_set (handle_cusolverrf_m s) d2 (heap_set (handle_cusolverrf_m s) d1 hs))"
    using g assms(8) by (rule rf_call_live)
  have rf: "CuSolverRf_refactorize rlib (s, hs)
      = Inr (st1 + st2, s\<lparr>status_cusolverrf_m := st2\<rparr>,
             heap_set (handle_cusolverrf_m s) d2 (heap_set (handle_cusolverrf_m s) d1 hs))"
    using assms(1-5) by (simp add: CuSolverRf_refactorize_def c1 c2 bindE_def)
  have ilu: "ILU0_reset ilib B dh (si, ih)
      = Inr (st3, si\<lparr>A_m := Some B, status_rocsparse_m := st3, d_ILU_vals_m := Some vals'\<rparr>,
             heap_set pI i1 ih)"
    using assms(9-14) by (simp add: ILU0_reset_def bindE_def Let_def)
  from rf ilu show ?thesis by simp
qed

theorem refactorize_status_sum_witness:
  "(\<exists>ret s' hs'. CuSolverRf_refactorize toy_rf (rf_ready, rf_handles) = Inr (ret, s', hs')
       \<and> ret = 3 + 4)
   \<and> (\<exists>ret s' ih'. ILU0_reset (toy_roc\<lparr>rocsparse_dcsrilu0 := \<lambda>a i. (5, [], i)\<rparr>) B2 ilu0_descrs
          (ilu0_ready, ilu0_infos) = Inr (ret, s', ih')
       \<and> ret = 5)"
proof -
  have a: "A_m rf_ready = Some A2"
    by (simp add: rf_ready_def)
  have n: "0 < getNumRows A2" and z: "0 < getNnz A2"
    by (simp_all add: A2_def getNumRows_def getNnz_def)
  have dp: "d_P_m rf_ready = Some [1, 0]" and dq: "d_Q_m rf_ready = Some [1, 0]"
    by (simp_all add: rf_ready_def)
  have hd: "heap_get rf_handles (handle_cusolverrf_m rf_ready) = Some [Finite 2, Finite 4]"
    by (simp add: rf_ready_def rf_handles_def heap_get_def)
  have v1: "cusolverRfResetValues toy_rf A2 [1, 0] [1, 0] [Finite 2, Finite 4]
      = (3, [Finite 2, Finite 4])"
    by (simp add: toy_rf_def A2_def)
  have v2: "cusolverRfRefactor toy_rf [Finite 2, Finite 4] = (4, [Finite 2, Finite 4])"
    by (simp add: toy_rf_def)
  have cp: "copyArray (d_ILU_vals_m ilu0_ready) (val_data B2) (getNnz B2) = Inr [Finite 3, Finite 5]"
    by (simp add: copyArray_def ilu0_ready_def B2_def getNnz_def)
  have pa: "descr_A_m ilu0_ready = Some 0" and pi: "info_A_m ilu0_ready = Some 0"
    by (simp_all add: ilu0_ready_def)
  have da: "heap_get ilu0_descrs 0
      = Some \<lparr>fill_mode = rocsparse_fill_mode_lower, diag_type = rocsparse_diag_type_non_unit\<rparr>"
    by (simp add: ilu0_descrs_def heap_get_def)
  have ia: "heap_get ilu0_infos 0 = Some 4"
    by (simp add: ilu0_infos_def heap_get_def)
  have v3: "rocsparse_dcsrilu0 (toy_roc\<lparr>rocsparse_dcsrilu0 := \<lambda>a i. (5, [], i)\<rparr>)
      (getNumRows B2, getNnz B2,
       \<lparr>fill_mode = rocsparse_fill_mode_lower, diag_type = rocsparse_diag_type_non_unit\<rparr>,
       [Finite 3, Finite 5], row_data B2, col_data B2) 4 = (5, [], 4)"
    by simp
  from refactorize_status_sum [OF a n z dp dq hd v1 v2 cp pa pi da ia v3]
  show ?thesis by simp
qed

section \<open>Setup of the device-refactor solver\<close>

lemma convert_factors_other:
  "getSparseFormat L = OTHER_FORMAT k \<Longrightarrow> convert_factors L U = Inr None"
  by (simp add: convert_factors_def)

text \<open>
  Claim C5, as amended. When the matrix is in CSR format and the two factors share a
  format that is neither CSC nor CSR, \<open>setup\<close> returns 1. By then it has bound the
  matrix and, if a setup had completed before, destroyed the handle and created a new,
  empty one; everything else (the device arrays, the completion flag, the parameters, the
  last status) is as before.
\<close>

theorem setup_unrecognized_format:
  assumes "getSparseFormat A = COMPRESSED_SPARSE_ROW"
    and "getSparseFormat L = OTHER_FORMAT k"
    and "getSparseFormat U = OTHER_FORMAT k"
    and "heap_get hs (handle_cusolverrf_m s) = Some d"
  shows "CuSolverRf_setup lib A L U P Q' (s, hs) =
           (if setup_completed_m s
            then Inr (1, s\<lparr>A_m := Some A, handle_cusolverrf_m := length hs\<rparr>,
                      heap_free (handle_cusolverrf_m s) hs @ [Some (rf_fresh lib)])
            else Inr (1, s\<lparr>A_m := Some A\<rparr>, hs))"
  using assms
  by (simp add: CuSolverRf_setup_def convert_factors_other cusolverRfDestroy_def
      cusolverRfCreate_def heap_new_def length_heap_free bindE_def Let_def)

theorem setup_unrecognized_format_witness:
  "getSparseFormat B2 = COMPRESSED_SPARSE_ROW
   \<and> getSparseFormat T2 = OTHER_FORMAT 0
   \<and> heap_get rf_handles (handle_cusolverrf_m rf_ready) = Some [Finite 2, Finite 4]
   \<and> CuSolverRf_setup toy_rf B2 T2 T2 [0, 1] [0, 1] (rf_ready, rf_handles)
       = Inr (1, rf_ready\<lparr>A_m := Some B2, handle_cusolverrf_m := 1\<rparr>, [None, Some []])"
proof -
  have a: "getSparseFormat B2 = COMPRESSED_SPARSE_ROW"
    by (simp add: B2_def getSparseFormat_def)
  have t: "getSparseFormat T2 = OTHER_FORMAT 0"
    by (simp add: T2_def getSparseFormat_def)
  have hd: "heap_get rf_handles (handle_cusolverrf_m rf_ready) = Some [Finite 2, Finite 4]"
    by (simp add: rf_ready_def rf_handles_def heap_get_def)
  have c: "setup_completed_m rf_ready" and h: "handle_cusolverrf_m rf_ready = 0"
    by (simp_all add: rf_ready_def)
  from setup_unrecognized_format [OF a t t hd, of toy_rf "[0, 1]" "[0, 1]"] a t hd
  show ?thesis
    by (simp add: c h rf_handles_def heap_free_def toy_rf_def)
qed

text \<open>
  The claim as stated wants the solver as it was before the call. On the solver that
  the first session set up, the call rebinds the matrix and destroys the handle that
  held the factorization.
\<close>

theorem setup_unrecognized_format_counterexample:
  "rf_session = Inr (rf_ready, rf_handles)
   \<and> (\<exists>s' hs'. CuSolverRf_setup toy_rf B2 T2 T2 [0, 1] [0, 1] (rf_ready, rf_handles)
                 = Inr (1, s', hs')
        \<and> A_m s' \<noteq> A_m rf_ready
        \<and> heap_get rf_handles (handle_cusolverrf_m rf_ready) = Some [Finite 2, Finite 4]
        \<and> heap_get hs' (handle_cusolverrf_m rf_ready) = None
        \<and> heap_get hs' (handle_cusolverrf_m s') = Some []
        \<and> (s', hs') \<noteq> (rf_ready, rf_handles))"
  by (simp add: rf_session_eq CuSolverRf_setup_def convert_factors_def cusolverRfDestroy_def
      cusolverRfCreate_def heap_new_def heap_free_def heap_get_def bindE_def Let_def
      rf_ready_def rf_handles_def B2_def A2_def T2_def getSparseFormat_def getNumRows_def toy_rf_def)

section \<open>Setup on a solver that is already set up\<close>

lemma rf_call_Inr:
  assumes "rf_call hs p f = Inr (st, hs')"
  shows "length hs' = length hs \<and> heap_get hs' p \<noteq> None
       \<and> (\<forall>q. q \<noteq> p \<longrightarrow> heap_get hs' q = heap_get hs q)"
  using assms
  by (auto simp: rf_call_def heap_get_set length_heap_set split: option.splits prod.splits
      dest: heap_get_Some_less)

lemma setAlgorithms_Inr:
  assumes "CuSolverRf_setAlgorithms lib fa sa (s, hs) = Inr hs'"
  shows "length hs' = length hs \<and> heap_get hs' (handle_cusolverrf_m s) \<noteq> None
       \<and> (\<forall>q. q \<noteq> handle_cusolverrf_m s \<longrightarrow> heap_get hs' q = heap_get hs q)"
proof -
  from assms obtain e where "rf_call hs (handle_cusolverrf_m s) (cusolverRfSetAlgs lib fa sa) = Inr (e, hs')"
    by (auto simp: CuSolverRf_setAlgorithms_def bindE_def split: sum.splits)
  then show ?thesis by (rule rf_call_Inr)
qed

lemma setup_device_handle:
  assumes "CuSolverRf_setup_device lib A L_csr U_csr P Q' (s2, hs2) = Inr (e, s', hs')"
  shows "handle_cusolverrf_m s' = handle_cusolverrf_m s2
       \<and> heap_get hs' (handle_cusolverrf_m s2) \<noteq> None
       \<and> (\<forall>q. q \<noteq> handle_cusolverrf_m s2 \<longrightarrow> heap_get hs' q = heap_get hs2 q)"
  using assms
  by (auto simp: CuSolverRf_setup_device_def bindE_def Let_def
      split: sum.splits option.splits prod.splits
      dest!: rf_call_Inr setAlgorithms_Inr)

lemma heap_free_set: "heap_free a (heap_set a v h) = heap_free a h"
  by (simp add: heap_free_def heap_set_def)

lemma heap_get_set_same: "a < length h \<Longrightarrow> heap_get (heap_set a v h) a = Some v"
  by (simp add: heap_get_set)

text \<open>
  Claim C6, as amended. On a device-refactor solver whose setup has completed, whose
  handle is live, \<open>setup\<close> does not depend on what the old handle holds: the result
  is the same whatever it held. When it returns, the old handle is destroyed and the
  solver's handle is a new one, created after the old one was destroyed. The host
  solver's \<open>setup\<close> only binds the matrix, and its symbolic and numeric objects stay
  as they are. The incomplete-factorization solver's \<open>setup\<close> creates new descriptors
  and a new info object, and every descriptor and info object that existed before still
  exists, with its content.
\<close>

theorem setup_again_recreates_handle:
  assumes "setup_completed_m s"
    and "heap_get hs (handle_cusolverrf_m s) = Some d"
  shows "CuSolverRf_setup lib A L U P Q' (s, heap_set (handle_cusolverrf_m s) d' hs)
           = CuSolverRf_setup lib A L U P Q' (s, hs)
       \<and> (\<forall>e s' hs'. CuSolverRf_setup lib A L U P Q' (s, hs) = Inr (e, s', hs') \<longrightarrow>
             heap_get hs' (handle_cusolverrf_m s) = None
           \<and> handle_cusolverrf_m s' = length hs
           \<and> heap_get hs' (handle_cusolverrf_m s') \<noteq> None)
       \<and> KLU_setup Ak sk = (0, sk\<lparr>A_m := Some Ak\<rparr>)
       \<and> Symbolic_m (snd (KLU_setup Ak sk)) = Symbolic_m sk
       \<and> Numeric_m (snd (KLU_setup Ak sk)) = Numeric_m sk
       \<and> (\<forall>e s' dh' ih'. ILU0_setup ilib Ai (si, dh, ih) = Inr (e, s', dh', ih') \<longrightarrow>
             descr_A_m s' = Some (length dh)
           \<and> info_A_m s' = Some (length ih)
           \<and> (\<forall>p < length dh. heap_get dh' p = heap_get dh p)
           \<and> (\<forall>p < length ih. heap_get ih' p = heap_get ih p))"
proof -
  let ?h = "handle_cusolverrf_m s"
  have l: "?h < length hs"
    using assms(2) by (rule heap_get_Some_less)
  have same: "CuSolverRf_setup lib A L U P Q' (s, heap_set ?h d' hs)
      = CuSolverRf_setup lib A L U P Q' (s, hs)"
    using assms l
    by (simp add: CuSolverRf_setup_def cusolverRfDestroy_def heap_get_set_same heap_free_set
        bindE_def Let_def)
  have fresh: "heap_get hs' ?h = None \<and> handle_cusolverrf_m s' = length hs
      \<and> heap_get hs' (handle_cusolverrf_m s') \<noteq> None"
    if r: "CuSolverRf_setup lib A L U P Q' (s, hs) = Inr (e, s', hs')" for e s' hs'
  proof -
    let ?s2 = "s\<lparr>A_m := Some A, handle_cusolverrf_m := length hs\<rparr>"
    let ?hs2 = "heap_free ?h hs @ [Some (rf_fresh lib)]"
    have h2: "heap_get ?hs2 (handle_cusolverrf_m ?s2) \<noteq> None"
      by (simp add: heap_get_def length_heap_free nth_append)
    have old: "heap_get ?hs2 ?h = None"
      using l by (simp add: heap_get_def heap_free_def nth_append)
    from r assms l have
      "bindE (convert_factors L U) (\<lambda>factors.
         case factors of
           None \<Rightarrow> Inr (1, ?s2, ?hs2)
         | Some (L_csr, U_csr) \<Rightarrow> CuSolverRf_setup_device lib A L_csr U_csr P Q' (?s2, ?hs2))
       = Inr (e, s', hs')"
      by (simp add: CuSolverRf_setup_def cusolverRfDestroy_def cusolverRfCreate_def heap_new_def
          length_heap_free bindE_def Let_def split: if_splits)
    then have
      "handle_cusolverrf_m s' = handle_cusolverrf_m ?s2
       \<and> heap_get hs' (handle_cusolverrf_m ?s2) \<noteq> None
       \<and> (\<forall>q. q \<noteq> handle_cusolverrf_m ?s2 \<longrightarrow> heap_get hs' q = heap_get ?hs2 q)"
      using h2
      by (auto simp: bindE_def split: sum.splits option.splits dest!: setup_device_handle)
    with old l show ?thesis by auto
  qed
  have klu: "KLU_setup Ak sk = (0, sk\<lparr>A_m := Some Ak\<rparr>)
      \<and> Symbolic_m (snd (KLU_setup Ak sk)) = Symbolic_m sk
      \<and> Numeric_m (snd (KLU_setup Ak sk)) = Numeric_m sk"
    by (simp add: KLU_setup_def)
  have ilu: "descr_A_m s' = Some (length dh) \<and> info_A_m s' = Some (length ih)
      \<and> (\<forall>p < length dh. heap_get dh' p = heap_get dh p)
      \<and> (\<forall>p < length ih. heap_get ih' p = heap_get ih p)"
    if "ILU0_setup ilib Ai (si, dh, ih) = Inr (e, s', dh', ih')" for e s' dh' ih'
    using that
    by (auto simp: ILU0_setup_def heap_new_def heap_get_def heap_set_def bindE_def Let_def
        nth_append split: sum.splits option.splits prod.splits if_splits)
  from same fresh klu ilu show ?thesis by blast
qed

theorem setup_again_recreates_handle_witness:
  "setup_completed_m rf_ready
   \<and> heap_get rf_handles (handle_cusolverrf_m rf_ready) = Some [Finite 2, Finite 4]
   \<and> CuSolverRf_setup toy_rf B2 L2 L2 [0, 1] [0, 1]
        (rf_ready, heap_set (handle_cusolverrf_m rf_ready) [Finite 9] rf_handles)
      = CuSolverRf_setup toy_rf B2 L2 L2 [0, 1] [0, 1] (rf_ready, rf_handles)
   \<and> CuSolverRf_setup toy_rf B2 L2 L2 [0, 1] [0, 1] (rf_ready, rf_handles)
      = Inr (0, rf_ready\<lparr>A_m := Some B2, handle_cusolverrf_m := 1,
                         d_P_m := Some [0, 1], d_Q_m := Some [0, 1]\<rparr>,
             [None, Some [Finite 3, Finite 5]])"
proof -
  have c: "setup_completed_m rf_ready"
    by (simp add: rf_ready_def)
  have hd: "heap_get rf_handles (handle_cusolverrf_m rf_ready) = Some [Finite 2, Finite 4]"
    by (simp add: rf_ready_def rf_handles_def heap_get_def)
  have run: "CuSolverRf_setup toy_rf B2 L2 L2 [0, 1] [0, 1] (rf_ready, rf_handles)
      = Inr (0, rf_ready\<lparr>A_m := Some B2, handle_cusolverrf_m := 1,
                         d_P_m := Some [0, 1], d_Q_m := Some [0, 1]\<rparr>,
             [None, Some [Finite 3, Finite 5]])"
    by (simp add: CuSolverRf_setup_def rf_ready_def rf_handles_def cusolverRfDestroy_def
        cusolverRfCreate_def heap_new_def heap_get_def heap_set_def heap_free_def
        convert_factors_def CuSolverRf_setup_device_def CuSolverRf_setAlgorithms_def rf_call_def
        allocateArrayOnDevice_def copyArray_def toy_rf_def bindE_def B2_def L2_def getNumRows_def
        getSparseFormat_def replicate_2)
  have same: "CuSolverRf_setup toy_rf B2 L2 L2 [0, 1] [0, 1]
        (rf_ready, heap_set (handle_cusolverrf_m rf_ready) [Finite 9] rf_handles)
      = CuSolverRf_setup toy_rf B2 L2 L2 [0, 1] [0, 1] (rf_ready, rf_handles)"
    using setup_again_recreates_handle [OF c hd, of toy_rf B2 L2 L2 "[0, 1]" "[0, 1]" "[Finite 9]"
        B2 klu_factorized toy_roc B2 ilu0_ready ilu0_descrs ilu0_infos]
    by (rule conjunct1)
  from c hd same run show ?thesis by simp
qed

text \<open>
  The claim as stated covers the other two solvers. After a second \<open>setup\<close> the host
  solver still holds the numeric object of the first matrix, and the
  incomplete-factorization solver has left the descriptors and the info object of the
  first matrix alive.
\<close>

theorem setup_again_counterexample:
  "klu_session = Inr klu_factorized
   \<and> Numeric_m (snd (KLU_setup B2 klu_factorized)) = Numeric_m klu_factorized
   \<and> Numeric_m klu_factorized = Some \<lparr>Pnum = [1, 0], lnz = 2, unz = 2, numeric_data = 0\<rparr>
   \<and> ilu0_session = Inr (ilu0_ready, ilu0_descrs, ilu0_infos)
   \<and> (\<exists>e s' dh' ih'. ILU0_setup toy_roc B2 (ilu0_ready, ilu0_descrs, ilu0_infos)
                       = Inr (e, s', dh', ih')
        \<and> descr_A_m ilu0_ready = Some 0 \<and> heap_get dh' 0 = heap_get ilu0_descrs 0
        \<and> heap_get dh' 0 \<noteq> None
        \<and> info_A_m ilu0_ready = Some 0 \<and> heap_get ih' 0 = Some 4)"
  by (simp add: klu_session_eq ilu0_session_eq KLU_setup_def klu_factorized_def
      ILU0_setup_def ilu0_ready_def ilu0_descrs_def ilu0_infos_def heap_new_def heap_get_def
      heap_set_def allocateArrayOnDevice_def copyArray_def toy_roc_def bindE_def B2_def
      getNumRows_def getNnz_def Let_def replicate_2)

section \<open>Orderings of the host solver after a factorization\<close>

lemma heap_get_append_new: "heap_get (h @ [Some v]) (length h) = Some v"
  by (simp add: heap_get_def)

lemma heap_get_append_old: "a < length h \<Longrightarrow> heap_get (h @ [x]) a = heap_get h a"
  by (simp add: heap_get_def nth_append)

lemma delete_array_new:
  "delete_array (Some (length h)) (h @ [Some v]) = Inr (h @ [None])"
  by (simp add: delete_array_def heap_get_def heap_free_def)

lemma delete_array_freed:
  "delete_array (Some (length h)) (h @ [None]) = Inl InvalidPointer"
  by (simp add: delete_array_def heap_get_def)

lemma delete_array_old:
  "delete_array p (h @ [Some v]) =
     (case p of
        None \<Rightarrow> Inr (h @ [Some v])
      | Some a \<Rightarrow>
          if a = length h then Inr (h @ [None])
          else (case heap_get h a of
                  None \<Rightarrow> Inl InvalidPointer
                | Some w \<Rightarrow> Inr (h[a := None] @ [Some v])))"
  by (cases p)
    (auto simp: delete_array_def heap_get_def heap_free_def nth_append list_update_append
      split: option.splits)

text \<open>
  Claim C9, as amended. With a numeric (and symbolic) object whose permutation holds at
  least \<open>n = A_->getNumRows()\<close> entries, \<open>getPOrdering\<close> (\<open>getQOrdering\<close>) returns
  the address of a new array, one that was not allocated before, holding the first
  \<open>n\<close> entries of the row (column) permutation; every array that existed before is
  untouched; the address is also stored in \<open>P_\<close> (\<open>Q_\<close>). The destructor, run on the
  solver and the heap the call has left: if the factors were not extracted it deletes
  nothing; if they were, it deletes the array just returned (and the array the other
  member points to, which has to be null or live). If the caller has deleted the array
  it was given and the factors were extracted, the destructor deletes the array a second
  time, which is an error.
\<close>

theorem orderings_fresh_copy:
  assumes "Numeric_m s = Some num"
    and "Symbolic_m s = Some symb"
    and "A_m s = Some A"
    and "0 \<le> getNumRows A"
    and "nat (getNumRows A) \<le> length (Pnum num)"
    and "nat (getNumRows A) \<le> length (Q symb)"
  shows "KLU_getPOrdering (s, h)
           = Inr (Some (length h), s\<lparr>P_m := Some (length h)\<rparr>,
                  h @ [Some (take (nat (getNumRows A)) (Pnum num))])
       \<and> KLU_getQOrdering (s, h)
           = Inr (Some (length h), s\<lparr>Q_m := Some (length h)\<rparr>,
                  h @ [Some (take (nat (getNumRows A)) (Q symb))])
       \<and> heap_get h (length h) = None
       \<and> length (take (nat (getNumRows A)) (Pnum num)) = nat (getNumRows A)
       \<and> length (take (nat (getNumRows A)) (Q symb)) = nat (getNumRows A)
       \<and> (\<forall>a < length h. heap_get (h @ [x]) a = heap_get h a)
       \<and> KLU_delete (s\<lparr>P_m := Some (length h)\<rparr>) (h @ [Some v])
           = (if factors_extracted_m s then delete_array (Q_m s) (h @ [None])
              else Inr (h @ [Some v]))
       \<and> KLU_delete (s\<lparr>Q_m := Some (length h)\<rparr>) (h @ [Some v])
           = (if factors_extracted_m s
              then (case P_m s of
                      None \<Rightarrow> Inr (h @ [None])
                    | Some p \<Rightarrow>
                        (case heap_get h p of
                           None \<Rightarrow> Inl InvalidPointer
                         | Some w \<Rightarrow> Inr (h[p := None] @ [None])))
              else Inr (h @ [Some v]))
       \<and> KLU_delete (s\<lparr>P_m := Some (length h)\<rparr>) (h @ [None])
           = (if factors_extracted_m s then Inl InvalidPointer else Inr (h @ [None]))
       \<and> KLU_delete (s\<lparr>Q_m := Some (length h)\<rparr>) (h @ [None])
           = (if factors_extracted_m s then Inl InvalidPointer else Inr (h @ [None]))"
proof -
  have p: "KLU_getPOrdering (s, h)
      = Inr (Some (length h), s\<lparr>P_m := Some (length h)\<rparr>,
             h @ [Some (take (nat (getNumRows A)) (Pnum num))])"
    using assms by (simp add: KLU_getPOrdering_def memcpy_new_def heap_new_def bindE_def)
  have q: "KLU_getQOrdering (s, h)
      = Inr (Some (length h), s\<lparr>Q_m := Some (length h)\<rparr>,
             h @ [Some (take (nat (getNumRows A)) (Q symb))])"
    using assms by (simp add: KLU_getQOrdering_def memcpy_new_def heap_new_def bindE_def)
  have f: "heap_get h (length h) = None"
    by (simp add: heap_get_def)
  have n: "length (take (nat (getNumRows A)) (Pnum num)) = nat (getNumRows A)"
    "length (take (nat (getNumRows A)) (Q symb)) = nat (getNumRows A)"
    using assms(5,6) by simp_all
  have o: "\<forall>a < length h. heap_get (h @ [x]) a = heap_get h a"
    by (simp add: heap_get_append_old)
  have dp: "KLU_delete (s\<lparr>P_m := Some (length h)\<rparr>) (h @ [Some v])
      = (if factors_extracted_m s then delete_array (Q_m s) (h @ [None])
         else Inr (h @ [Some v]))"
    by (simp add: KLU_delete_def delete_array_new bindE_def)
  have len: "length (h[a := None]) = length h" for a
    by simp
  have dq: "KLU_delete (s\<lparr>Q_m := Some (length h)\<rparr>) (h @ [Some v])
      = (if factors_extracted_m s
         then (case P_m s of
                 None \<Rightarrow> Inr (h @ [None])
               | Some p \<Rightarrow>
                   (case heap_get h p of
                      None \<Rightarrow> Inl InvalidPointer
                    | Some w \<Rightarrow> Inr (h[p := None] @ [None])))
         else Inr (h @ [Some v]))"
    using delete_array_new [of "h[a := None]" v for a] delete_array_freed [of h]
    by (auto simp: KLU_delete_def delete_array_old delete_array_new bindE_def f
        split: option.splits)
  have fp: "KLU_delete (s\<lparr>P_m := Some (length h)\<rparr>) (h @ [None])
      = (if factors_extracted_m s then Inl InvalidPointer else Inr (h @ [None]))"
    by (simp add: KLU_delete_def delete_array_freed bindE_def)
  have fq: "KLU_delete (s\<lparr>Q_m := Some (length h)\<rparr>) (h @ [None])
      = (if factors_extracted_m s then Inl InvalidPointer else Inr (h @ [None]))"
    by (auto simp: KLU_delete_def delete_array_def bindE_def heap_get_def heap_free_def
        nth_append nth_list_update split: option.splits sum.splits if_splits)
  from p q f n o dp dq fp fq show ?thesis by blast
qed

theorem orderings_fresh_copy_witness:
  "Numeric_m klu_extracted = Some \<lparr>Pnum = [1, 0], lnz = 2, unz = 2, numeric_data = 0\<rparr>
   \<and> KLU_getPOrdering (klu_extracted, [Some [7, 7]])
       = Inr (Some 1, klu_extracted\<lparr>P_m := Some 1\<rparr>, [Some [7, 7], Some [1, 0]])
   \<and> KLU_getQOrdering (klu_extracted, [Some [7, 7]])
       = Inr (Some 1, klu_extracted\<lparr>Q_m := Some 1\<rparr>, [Some [7, 7], Some [1, 0]])
   \<and> KLU_delete (klu_extracted\<lparr>P_m := Some 1\<rparr>) [Some [7, 7], Some [1, 0]]
       = Inr [Some [7, 7], None]
   \<and> KLU_delete (klu_extracted\<lparr>Q_m := Some 1\<rparr>) [Some [7, 7], Some [1, 0]]
       = Inr [Some [7, 7], None]
   \<and> KLU_delete (klu_extracted\<lparr>P_m := Some 1\<rparr>) [Some [7, 7], None] = Inl InvalidPointer
   \<and> KLU_delete (klu_extracted\<lparr>Q_m := Some 1\<rparr>) [Some [7, 7], None] = Inl InvalidPointer
   \<and> Numeric_m klu_factorized = Some \<lparr>Pnum = [1, 0], lnz = 2, unz = 2, numeric_data = 0\<rparr>
   \<and> KLU_getPOrdering (klu_factorized, [Some [7, 7]])
       = Inr (Some 1, klu_factorized\<lparr>P_m := Some 1\<rparr>, [Some [7, 7], Some [1, 0]])
   \<and> KLU_delete (klu_factorized\<lparr>P_m := Some 1\<rparr>) [Some [7, 7], Some [1, 0]]
       = Inr [Some [7, 7], Some [1, 0]]"
proof -
  have nu: "Numeric_m klu_factorized = Some \<lparr>Pnum = [1, 0], lnz = 2, unz = 2, numeric_data = 0\<rparr>"
    and sy: "Symbolic_m klu_factorized = Some \<lparr>Q = [1, 0], symbolic_data = 0\<rparr>"
    and a: "A_m klu_factorized = Some A2"
    and fe: "\<not> factors_extracted_m klu_factorized"
    by (simp_all add: klu_factorized_def)
  have nu': "Numeric_m klu_extracted = Some \<lparr>Pnum = [1, 0], lnz = 2, unz = 2, numeric_data = 0\<rparr>"
    and sy': "Symbolic_m klu_extracted = Some \<lparr>Q = [1, 0], symbolic_data = 0\<rparr>"
    and a': "A_m klu_extracted = Some A2"
    and fe': "factors_extracted_m klu_extracted"
    and pq: "P_m klu_extracted = None" "Q_m klu_extracted = None"
    by (simp_all add: klu_extracted_def klu_factorized_def)
  have n: "0 \<le> getNumRows A2"
    and lp: "nat (getNumRows A2) \<le> length (Pnum \<lparr>Pnum = [1, 0], lnz = 2, unz = 2, numeric_data = 0\<rparr>)"
    and lq: "nat (getNumRows A2) \<le> length (Q \<lparr>Q = [1, 0], symbolic_data = 0\<rparr>)"
    by (simp_all add: A2_def getNumRows_def)
  have t: "nat (getNumRows A2) = 2"
    by (simp add: A2_def getNumRows_def)
  from orderings_fresh_copy [OF nu sy a n lp lq, of "[Some [7, 7]]" _ "[1, 0]"]
    orderings_fresh_copy [OF nu' sy' a' n lp lq, of "[Some [7, 7]]" _ "[1, 0]"]
    nu nu' fe fe' pq
  show ?thesis by (simp add: t delete_array_def)
qed

text \<open>
  The claim as stated has the solver never free the array it returned. On the host
  solver whose factors were extracted, the destructor frees the array that
  \<open>getPOrdering\<close> has just returned.
\<close>

theorem orderings_freed_counterexample:
  "klu_session_factors = Inr klu_extracted
   \<and> (\<exists>p s' h' h''. KLU_getPOrdering (klu_extracted, []) = Inr (Some p, s', h')
        \<and> heap_get h' p = Some [1, 0]
        \<and> KLU_delete s' h' = Inr h''
        \<and> heap_get h'' p = None)"
  by (simp add: klu_session_factors_eq KLU_getPOrdering_def memcpy_new_def heap_new_def bindE_def
      klu_extracted_def klu_factorized_def A2_def getNumRows_def KLU_delete_def delete_array_def
      heap_free_def heap_get_def)

section \<open>The conversion on square matrices\<close>

text \<open>
  A loop that keeps an invariant returns, and the invariant holds at its end.
\<close>


lemma for_loop_inv:
  assumes "lo \<le> hi" and "I lo s"
    and step: "\<And>i t. lo \<le> i \<Longrightarrow> i < hi \<Longrightarrow> I i t \<Longrightarrow> \<exists>t'. body i t = Inr t' \<and> I (i + 1) t'"
  shows "\<exists>t. for_loop lo hi body s = Inr t \<and> I hi t"
proof -
  have "\<exists>t. for_loop i hi body s' = Inr t \<and> I hi t"
    if "k = nat (hi - i)" "lo \<le> i" "i \<le> hi" "I i s'" for k i s'
    using that
  proof (induction k arbitrary: i s')
    case 0
    then have "i = hi" by simp
    with 0 show ?case by (simp add: for_loop.simps)
  next
    case (Suc k)
    then have lt: "i < hi" by simp
    from step [OF Suc.prems(2) lt Suc.prems(4)]
    obtain t' where t': "body i s' = Inr t'" "I (i + 1) t'" by blast
    have "\<exists>t. for_loop (i + 1) hi body t' = Inr t \<and> I hi t"
      using Suc.prems lt t'(2) by (intro Suc.IH) auto
    then show ?case
      using lt t'(1) by (subst for_loop.simps) simp
  qed
  from this [OF refl order_refl assms(1,2)] show ?thesis .
qed

lemma for_loop_inv_nat:
  assumes "lo \<le> hi" and "I lo s"
    and step: "\<And>k t. lo \<le> k \<Longrightarrow> k < hi \<Longrightarrow> I k t \<Longrightarrow> \<exists>t'. body (int k) t = Inr t' \<and> I (Suc k) t'"
  shows "\<exists>t. for_loop (int lo) (int hi) body s = Inr t \<and> I hi t"
proof -
  have "\<exists>t. for_loop (int lo) (int hi) body s = Inr t \<and> (\<lambda>i. I (nat i)) (int hi) t"
  proof (rule for_loop_inv)
    fix i t assume i: "int lo \<le> i" "i < int hi" and inv: "I (nat i) t"
    from i have "lo \<le> nat i" "nat i < hi" by auto
    from step [OF this inv] i show "\<exists>t'. body i t = Inr t' \<and> I (nat (i + 1)) t'"
      by (auto simp: nat_add_distrib)
  qed (use assms in auto)
  then show ?thesis by simp
qed

lemma rd_nat: "k < length xs \<Longrightarrow> rd xs (int k) = Inr (xs ! k)"
  by (simp add: rd_def)

lemma wr_nat: "k < length xs \<Longrightarrow> wr xs (int k) v = Inr (xs[k := v])"
  by (simp add: wr_def)

lemma replicate_nth_eq:
  "length xs = n \<Longrightarrow> (\<And>j. j < n \<Longrightarrow> xs ! j = v) \<Longrightarrow> xs = replicate n v"
  by (simp add: list_eq_iff_nth_eq)

lemma pass_zero_rows:
  assumes "length rp = N + 1"
  shows "for_loop 0 (int N + 1) zero_row_ptr (rp, ci, vs) = Inr (replicate (N + 1) 0, ci, vs)"
proof -
  define I where "I = (\<lambda>(k::nat) (s::csr_arrays). case s of (rp', ci', vs') \<Rightarrow>
      ci' = ci \<and> vs' = vs \<and> length rp' = N + 1 \<and> (\<forall>j < k. rp' ! j = 0))"
  have "\<exists>t. for_loop (int 0) (int (N + 1)) zero_row_ptr (rp, ci, vs) = Inr t \<and> I (N + 1) t"
  proof (rule for_loop_inv_nat)
    show "I 0 (rp, ci, vs)" using assms by (simp add: I_def)
  next
    fix k t assume k: "k < N + 1" and inv: "I k t"
    obtain rp' ci' vs' where t: "t = (rp', ci', vs')" by (cases t)
    from inv t k have "I (Suc k) (rp'[k := 0], ci', vs')"
      by (auto simp: I_def nth_list_update less_Suc_eq)
    moreover from inv t k have "wr rp' (int k) 0 = Inr (rp'[k := 0])"
      by (simp add: I_def wr_nat)
    ultimately show "\<exists>t'. zero_row_ptr (int k) t = Inr t' \<and> I (Suc k) t'"
      by (simp add: zero_row_ptr_def t bindE_def)
  qed simp
  then obtain t where r: "for_loop 0 (int N + 1) zero_row_ptr (rp, ci, vs) = Inr t"
    and inv: "I (N + 1) t" by (auto simp: add.commute)
  obtain rp' ci' vs' where t: "t = (rp', ci', vs')" by (cases t)
  from inv t have "rp' = replicate (N + 1) 0"
    by (intro replicate_nth_eq) (simp_all add: I_def)
  with inv t r show ?thesis by (simp add: I_def)
qed

lemma pass_zero_entries:
  assumes "length ci = Z" and "length vs = Z"
  shows "for_loop 0 (int Z) zero_entry (rp, ci, vs)
         = Inr (rp, replicate Z 0, replicate Z (Finite 0))"
proof -
  define I where "I = (\<lambda>(k::nat) (s::csr_arrays). case s of (rp', ci', vs') \<Rightarrow>
      rp' = rp \<and> length ci' = Z \<and> length vs' = Z
      \<and> (\<forall>j < k. ci' ! j = 0 \<and> vs' ! j = Finite 0))"
  have "\<exists>t. for_loop (int 0) (int Z) zero_entry (rp, ci, vs) = Inr t \<and> I Z t"
  proof (rule for_loop_inv_nat)
    show "I 0 (rp, ci, vs)" using assms by (simp add: I_def)
  next
    fix k t assume k: "k < Z" and inv: "I k t"
    obtain rp' ci' vs' where t: "t = (rp', ci', vs')" by (cases t)
    from inv t k have "I (Suc k) (rp', ci'[k := 0], vs'[k := Finite 0])"
      by (auto simp: I_def nth_list_update less_Suc_eq)
    moreover from inv t k have "wr ci' (int k) 0 = Inr (ci'[k := 0])"
      "wr vs' (int k) (Finite 0) = Inr (vs'[k := Finite 0])"
      by (simp_all add: I_def wr_nat)
    ultimately show "\<exists>t'. zero_entry (int k) t = Inr t' \<and> I (Suc k) t'"
      by (simp add: zero_entry_def t bindE_def)
  qed simp
  then obtain t where r: "for_loop 0 (int Z) zero_entry (rp, ci, vs) = Inr t"
    and inv: "I Z t" by auto
  obtain rp' ci' vs' where t: "t = (rp', ci', vs')" by (cases t)
  from inv t have "ci' = replicate Z 0" "vs' = replicate Z (Finite 0)"
    by (intro replicate_nth_eq; simp add: I_def)+
  with inv t r show ?thesis by (simp add: I_def)
qed


lemma rd_int: "0 \<le> i \<Longrightarrow> i < int (length xs) \<Longrightarrow> rd xs i = Inr (xs ! nat i)"
  by (simp add: rd_def)

lemma wr_int: "0 \<le> i \<Longrightarrow> i < int (length xs) \<Longrightarrow> wr xs i v = Inr (xs[nat i := v])"
  by (simp add: wr_def)

lemma row_count_Nil: "row_count [] r = 0"
  by (simp add: row_count_def)

lemma row_count_snoc: "row_count (xs @ [x]) r = row_count xs r + (if x = int r then 1 else 0)"
  by (simp add: row_count_def)

lemma row_start_Suc: "row_start R (Suc r) = row_start R r + row_count R r"
  by (induction R) (auto simp: row_start_def row_count_def)

lemma row_start_0: "\<forall>x \<in> set R. 0 \<le> x \<Longrightarrow> row_start R 0 = 0"
  by (induction R) (auto simp: row_start_def)

lemma row_start_all: "\<forall>x \<in> set R. x < int N \<Longrightarrow> row_start R N = length R"
  by (induction R) (auto simp: row_start_def)

lemma row_start_mono: "r \<le> r' \<Longrightarrow> row_start R r \<le> row_start R r'"
  by (induction R) (auto simp: row_start_def)

lemma pass_count:
  assumes rows: "\<forall>x \<in> set R. 0 \<le> x \<and> x < int N"
  shows "\<exists>rp'. for_loop 0 (int (length R)) (count_entry R) (replicate (N + 1) 0, ci, vs)
                 = Inr (rp', ci, vs)
           \<and> length rp' = N + 1 \<and> (\<forall>r < N. rp' ! r = int (row_count R r)) \<and> rp' ! N = 0"
proof -
  define I where "I = (\<lambda>(k::nat) (s::csr_arrays). case s of (rp', ci', vs') \<Rightarrow>
      ci' = ci \<and> vs' = vs \<and> length rp' = N + 1
      \<and> (\<forall>r < N. rp' ! r = int (row_count (take k R) r)) \<and> rp' ! N = 0)"
  have "\<exists>t. for_loop (int 0) (int (length R)) (count_entry R) (replicate (N + 1) 0, ci, vs) = Inr t
      \<and> I (length R) t"
  proof (rule for_loop_inv_nat)
    show "I 0 (replicate (N + 1) 0, ci, vs)"
      by (simp add: I_def row_count_Nil nth_Cons')
  next
    fix k t assume k: "k < length R" and inv: "I k t"
    obtain rp' ci' vs' where t: "t = (rp', ci', vs')" by (cases t)
    from inv t have l: "length rp' = N + 1" and c: "ci' = ci" "vs' = vs"
      and cnt: "\<forall>r < N. rp' ! r = int (row_count (take k R) r)" and last: "rp' ! N = 0"
      by (simp_all add: I_def)
    from rows k have row: "0 \<le> R ! k" "R ! k < int N" by auto
    then have nrow: "nat (R ! k) < N" by auto
    have r1: "rd R (int k) = Inr (R ! k)" using k by (rule rd_nat)
    have r2: "rd rp' (R ! k) = Inr (rp' ! nat (R ! k))"
      using row l by (intro rd_int) auto
    have w: "wr rp' (R ! k) (rp' ! nat (R ! k) + 1) = Inr (rp'[nat (R ! k) := rp' ! nat (R ! k) + 1])"
      using row l by (intro wr_int) auto
    have "I (Suc k) (rp'[nat (R ! k) := rp' ! nat (R ! k) + 1], ci', vs')"
      using l c cnt last row nrow k
      by (auto simp: I_def take_Suc_conv_app_nth row_count_snoc nth_list_update)
    then show "\<exists>t'. count_entry R (int k) t = Inr t' \<and> I (Suc k) t'"
      by (simp add: count_entry_def t r1 r2 w bindE_def)
  qed simp
  then obtain t where r: "for_loop 0 (int (length R)) (count_entry R) (replicate (N + 1) 0, ci, vs) = Inr t"
    and inv: "I (length R) t" by auto
  obtain rp' ci' vs' where t: "t = (rp', ci', vs')" by (cases t)
  from inv t r show ?thesis by (simp add: I_def)
qed

lemma pass_cumsum:
  assumes l: "length rp = N + 1"
    and cnt: "\<forall>r < N. rp ! r = int (row_count R r)"
    and last: "rp ! N = 0"
    and rows: "\<forall>x \<in> set R. 0 \<le> x"
  shows "\<exists>rp'. for_loop 0 (int N) cumsum_step ((rp, ci, vs), 0)
                 = Inr ((rp', ci, vs), int (row_start R N))
           \<and> length rp' = N + 1 \<and> (\<forall>r < N. rp' ! r = int (row_start R r)) \<and> rp' ! N = 0"
proof -
  define I where "I = (\<lambda>(k::nat) (st::csr_arrays \<times> int). case st of ((rp', ci', vs'), rowsum) \<Rightarrow>
      ci' = ci \<and> vs' = vs \<and> length rp' = N + 1
      \<and> rowsum = int (row_start R k)
      \<and> (\<forall>r < k. rp' ! r = int (row_start R r))
      \<and> (\<forall>r. k \<le> r \<and> r < N \<longrightarrow> rp' ! r = int (row_count R r))
      \<and> rp' ! N = 0)"
  have "\<exists>t. for_loop (int 0) (int N) cumsum_step ((rp, ci, vs), 0) = Inr t \<and> I N t"
  proof (rule for_loop_inv_nat)
    show "I 0 ((rp, ci, vs), 0)"
      using assms by (simp add: I_def row_start_0)
  next
    fix k t assume k: "k < N" and inv: "I k t"
    obtain rp' ci' vs' rowsum where t: "t = ((rp', ci', vs'), rowsum)" by (cases t) auto
    from inv t have l': "length rp' = N + 1" and c: "ci' = ci" "vs' = vs"
      and rs: "rowsum = int (row_start R k)"
      and lo: "\<forall>r < k. rp' ! r = int (row_start R r)"
      and hi: "\<forall>r. k \<le> r \<and> r < N \<longrightarrow> rp' ! r = int (row_count R r)"
      and last': "rp' ! N = 0"
      by (simp_all add: I_def)
    have r1: "rd rp' (int k) = Inr (rp' ! k)" using k l' by (intro rd_nat) simp
    have w: "wr rp' (int k) rowsum = Inr (rp'[k := rowsum])" using k l' by (intro wr_nat) simp
    have "I (Suc k) ((rp'[k := rowsum], ci', vs'), rowsum + rp' ! k)"
      using l' c rs lo hi last' k
      by (auto simp: I_def nth_list_update row_start_Suc less_Suc_eq)
    then show "\<exists>t'. cumsum_step (int k) t = Inr t' \<and> I (Suc k) t'"
      by (simp add: cumsum_step_def t r1 w bindE_def)
  qed simp
  then obtain t where r: "for_loop 0 (int N) cumsum_step ((rp, ci, vs), 0) = Inr t"
    and inv: "I N t" by auto
  obtain rp' ci' vs' rowsum where t: "t = ((rp', ci', vs'), rowsum)" by (cases t) auto
  from inv t r show ?thesis by (simp add: I_def)
qed


lemma row_count_take_le: "row_count (take k R) r \<le> row_count R r"
proof -
  have "row_count (take k R @ drop k R) r = row_count (take k R) r + row_count (drop k R) r"
    by (simp only: row_count_def filter_append length_append)
  then show ?thesis by simp
qed

lemma row_count_take_less:
  assumes "k < length R" and "R ! k = int r"
  shows "row_count (take k R) r < row_count R r"
proof -
  have "R = take k R @ R ! k # drop (Suc k) R"
    using assms(1) by (rule id_take_nth_drop)
  then have "row_count R r = row_count (take k R @ R ! k # drop (Suc k) R) r"
    by simp
  also have "\<dots> = row_count (take k R) r + 1 + row_count (drop (Suc k) R) r"
    using assms(2) by (simp add: row_count_def)
  finally show ?thesis by simp
qed

lemma filter_fst_count:
  assumes "map fst T = xs"
  shows "length (filter (\<lambda>t. fst t = int r) T) = row_count xs r"
proof -
  have "length (filter (\<lambda>t. fst t = int r) T) = length (filter (\<lambda>x. x = int r) (map fst T))"
    by (simp add: filter_map comp_def)
  with assms show ?thesis by (simp add: row_count_def)
qed

lemma scatter_entry_step:
  assumes inv: "scatter_inv R N T (rp, ci, vs)"
    and k: "length T < length R"
    and rows: "\<forall>x \<in> set R. 0 \<le> x \<and> x < int N"
    and lv: "length V = length R"
  shows "\<exists>s'. scatter_entry R V col (int (length T)) (rp, ci, vs) = Inr s'
           \<and> scatter_inv R N (T @ [(R ! length T, col, V ! length T)]) s'"
proof -
  define k where "k = length T"
  define r0 where "r0 = nat (R ! k)"
  define cnt where "cnt = (\<lambda>r. length (filter (\<lambda>t. fst t = int r) T))"
  define dest where "dest = row_start R r0 + cnt r0"
  have kR: "k < length R" using assms(2) by (simp add: k_def)
  from rows kR have row: "0 \<le> R ! k" "R ! k < int N" by auto
  then have r0: "r0 < N" "int r0 = R ! k" by (auto simp: r0_def)
  from inv have lrp: "length rp = N + 1" and lci: "length ci = length R"
    and lvs: "length vs = length R" and fstT: "map fst T = take k R"
    and lastp: "rp ! N = int (length R)"
    and ptr: "\<And>r. r < N \<Longrightarrow> rp ! r = int (row_start R r + cnt r)"
    and seg: "\<And>r. r < N \<Longrightarrow> map (\<lambda>p. (ci ! p, vs ! p)) [row_start R r ..< row_start R r + cnt r]
               = map snd (filter (\<lambda>t. fst t = int r) T)"
    by (simp_all add: scatter_inv_def k_def cnt_def)
  have cnt_eq: "cnt r = row_count (take k R) r" for r
    unfolding cnt_def using fstT by (rule filter_fst_count)
  have cnt_le: "row_start R r + cnt r \<le> row_start R (Suc r)" for r
    by (simp add: cnt_eq row_start_Suc row_count_take_le)
  have "cnt r0 < row_count R r0"
    unfolding cnt_eq using kR r0(2) by (intro row_count_take_less) simp_all
  then have dest_lt: "dest < row_start R (Suc r0)"
    by (simp add: dest_def row_start_Suc)
  have "row_start R (Suc r0) \<le> row_start R N"
    using r0(1) by (intro row_start_mono) simp
  also have "row_start R N = length R"
    using rows by (intro row_start_all) simp
  finally have dest_R: "dest < length R" using dest_lt by simp
  have other: "p \<noteq> dest" if "r < N" "r \<noteq> r0" "row_start R r \<le> p" "p < row_start R r + cnt r" for r p
  proof (cases "r < r0")
    case True
    then have "row_start R (Suc r) \<le> row_start R r0" by (intro row_start_mono) simp
    with cnt_le [of r] that(4) show ?thesis by (simp add: dest_def)
  next
    case False
    with that(2) have "Suc r0 \<le> r" by simp
    then have "row_start R (Suc r0) \<le> row_start R r" by (rule row_start_mono)
    with dest_lt that(3) show ?thesis by simp
  qed
  let ?rp' = "rp[r0 := int dest + 1]" and ?ci' = "ci[dest := col]" and ?vs' = "vs[dest := V ! k]"
  let ?T' = "T @ [(R ! k, col, V ! k)]"
  have e1: "rd R (int k) = Inr (R ! k)" using kR by (rule rd_nat)
  have e2: "rd rp (R ! k) = Inr (int dest)"
    using row lrp ptr [OF r0(1)] by (simp add: rd_def r0_def dest_def)
  have e3: "wr ci (int dest) col = Inr ?ci'" using dest_R lci by (intro wr_nat) simp
  have e4: "rd V (int k) = Inr (V ! k)" using kR lv by (intro rd_nat) simp
  have e5: "wr vs (int dest) (V ! k) = Inr ?vs'" using dest_R lvs by (intro wr_nat) simp
  have e6: "wr rp (R ! k) (int dest + 1) = Inr ?rp'"
    using row lrp by (simp add: wr_def r0_def)
  have run: "scatter_entry R V col (int k) (rp, ci, vs) = Inr (?rp', ?ci', ?vs')"
    by (simp add: scatter_entry_def e1 e2 e3 e4 e5 e6 bindE_def)
  let ?G = "\<lambda>r. map (\<lambda>p. (?ci' ! p, ?vs' ! p))
        [row_start R r ..< row_start R r + length (filter (\<lambda>t. fst t = int r) ?T')]
      = map snd (filter (\<lambda>t. fst t = int r) ?T')
      \<and> ?rp' ! r = int (row_start R r + length (filter (\<lambda>t. fst t = int r) ?T'))"
  have newrow: "?G r" if rN: "r < N" for r
  proof (cases "r = r0")
    case True
    have f: "filter (\<lambda>t. fst t = int r0) ?T' = filter (\<lambda>t. fst t = int r0) T @ [(R ! k, col, V ! k)]"
      using r0(2) by simp
    have old: "map (\<lambda>p. (?ci' ! p, ?vs' ! p)) [row_start R r0 ..< dest]
        = map (\<lambda>p. (ci ! p, vs ! p)) [row_start R r0 ..< dest]"
      by (rule map_cong) (auto simp: nth_list_update)
    have "[row_start R r0 ..< row_start R r0 + (cnt r0 + 1)] = [row_start R r0 ..< dest] @ [dest]"
      by (simp add: dest_def)
    then have "map (\<lambda>p. (?ci' ! p, ?vs' ! p)) [row_start R r0 ..< row_start R r0 + (cnt r0 + 1)]
        = map (\<lambda>p. (ci ! p, vs ! p)) [row_start R r0 ..< dest] @ [(col, V ! k)]"
      using old dest_R lci lvs by simp
    also have "map (\<lambda>p. (ci ! p, vs ! p)) [row_start R r0 ..< dest]
        = map snd (filter (\<lambda>t. fst t = int r0) T)"
      using seg [OF r0(1)] by (simp add: dest_def)
    finally have m1: "map (\<lambda>p. (?ci' ! p, ?vs' ! p)) [row_start R r0 ..< row_start R r0 + (cnt r0 + 1)]
        = map snd (filter (\<lambda>t. fst t = int r0) T) @ [(col, V ! k)]" .
    have m2: "?rp' ! r0 = int (row_start R r0 + (cnt r0 + 1))"
      using r0(1) lrp by (simp add: dest_def)
    have len: "length (filter (\<lambda>t. fst t = int r0) T @ [(R ! k, col, V ! k)]) = cnt r0 + 1"
      by (simp add: cnt_def)
    have "?G r0"
      unfolding f len using m1 m2 by simp
    then show ?thesis unfolding True .
  next
    case False
    then have "int r \<noteq> R ! k" using r0(2) by auto
    then have f: "filter (\<lambda>t. fst t = int r) ?T' = filter (\<lambda>t. fst t = int r) T"
      by simp
    have "?ci' ! p = ci ! p \<and> ?vs' ! p = vs ! p"
      if "p \<in> set [row_start R r ..< row_start R r + cnt r]" for p
      using other [OF rN False, of p] that by auto
    then have "map (\<lambda>p. (?ci' ! p, ?vs' ! p)) [row_start R r ..< row_start R r + cnt r]
        = map (\<lambda>p. (ci ! p, vs ! p)) [row_start R r ..< row_start R r + cnt r]"
      by (intro map_cong) auto
    with seg [OF rN]
    have m1: "map (\<lambda>p. (?ci' ! p, ?vs' ! p)) [row_start R r ..< row_start R r + cnt r]
        = map snd (filter (\<lambda>t. fst t = int r) T)"
      by simp
    have m2: "?rp' ! r = int (row_start R r + cnt r)"
      using False ptr [OF rN] by simp
    have len: "length (filter (\<lambda>t. fst t = int r) T) = cnt r"
      by (simp add: cnt_def)
    show ?thesis
      unfolding f len using m1 m2 by simp
  qed
  have "scatter_inv R N ?T' (?rp', ?ci', ?vs')"
    using lrp lci lvs kR fstT lastp r0(1) newrow
    by (simp add: scatter_inv_def k_def [symmetric] take_Suc_conv_app_nth)
  with run show ?thesis by (simp add: k_def)
qed


lemma csc_valid_cols:
  assumes "csc_valid A" and "c < nat (num_columns A)"
  shows "0 \<le> col_data A ! c \<and> col_data A ! c \<le> col_data A ! Suc c
       \<and> col_data A ! Suc c \<le> num_nnz A"
proof -
  from assms(1) have s: "sorted (col_data A)" and l: "length (col_data A) = nat (num_columns A) + 1"
    and z: "col_data A ! 0 = 0" and e: "col_data A ! nat (num_columns A) = num_nnz A"
    by (simp_all add: csc_valid_def)
  have "col_data A ! 0 \<le> col_data A ! c"
    using s l assms(2) by (intro sorted_nth_mono) simp_all
  moreover have "col_data A ! c \<le> col_data A ! Suc c"
    using s l assms(2) by (intro sorted_nth_mono) simp_all
  moreover have "col_data A ! Suc c \<le> col_data A ! nat (num_columns A)"
    using s l assms(2) by (intro sorted_nth_mono) simp_all
  ultimately show ?thesis using z e by simp
qed

lemma length_csc_prefix:
  assumes "csc_valid A" and "c \<le> nat (num_columns A)"
  shows "length (concat (map (csc_column A) [0 ..< c])) = nat (col_data A ! c)"
  using assms(2)
proof (induction c)
  case 0
  from assms(1) show ?case by (simp add: csc_valid_def)
next
  case (Suc c)
  then have c: "c < nat (num_columns A)" by simp
  from csc_valid_cols [OF assms(1) c]
  have "nat (col_data A ! c) \<le> nat (col_data A ! Suc c)" by (intro nat_mono) simp
  moreover from Suc have "length (concat (map (csc_column A) [0 ..< c])) = nat (col_data A ! c)"
    by simp
  moreover have "length (csc_column A c) = nat (col_data A ! Suc c) - nat (col_data A ! c)"
    by (simp add: csc_column_def)
  ultimately show ?case
    by simp
qed

lemma csc_valid_rows:
  assumes "csc_valid A" and "num_rows A = num_columns A"
  shows "\<forall>x \<in> set (row_data A). 0 \<le> x \<and> x < int (nat (num_columns A))"
  using assms by (auto simp: csc_valid_def list_all_iff)

lemma scatter_column_step:
  assumes v: "csc_valid A" and sq: "num_rows A = num_columns A"
    and c: "c < nat (num_columns A)"
    and inv: "scatter_inv (row_data A) (nat (num_columns A)) (concat (map (csc_column A) [0 ..< c])) s"
  shows "\<exists>s'. scatter_column (row_data A) (col_data A) (val_data A) (int c) s = Inr s'
           \<and> scatter_inv (row_data A) (nat (num_columns A))
               (concat (map (csc_column A) [0 ..< Suc c])) s'"
proof -
  let ?R = "row_data A" and ?CP = "col_data A" and ?V = "val_data A" and ?N = "nat (num_columns A)"
  define lo where "lo = nat (?CP ! c)"
  define hi where "hi = nat (?CP ! Suc c)"
  define Tc where "Tc = concat (map (csc_column A) [0 ..< c])"
  define entry where "entry = (\<lambda>p. (?R ! p, int c, ?V ! p))"
  from csc_valid_cols [OF v c] have cp: "0 \<le> ?CP ! c" "?CP ! c \<le> ?CP ! Suc c"
    "?CP ! Suc c \<le> num_nnz A" by simp_all
  from v have lR: "length ?R = nat (num_nnz A)" and lV: "length ?V = length ?R"
    and lCP: "length ?CP = ?N + 1"
    by (simp_all add: csc_valid_def)
  have lohi: "lo \<le> hi" "hi \<le> length ?R" "int lo = ?CP ! c" "int hi = ?CP ! Suc c"
    using cp lR by (simp_all add: lo_def hi_def)
  have lTc: "length Tc = lo"
    unfolding Tc_def lo_def using v c by (intro length_csc_prefix) simp_all
  define I where "I = (\<lambda>k s. scatter_inv ?R ?N (Tc @ map entry [lo ..< k]) s)"
  have "\<exists>t. for_loop (int lo) (int hi) (scatter_entry ?R ?V (int c)) s = Inr t \<and> I hi t"
  proof (rule for_loop_inv_nat)
    show "lo \<le> hi" by (rule lohi)
    show "I lo s" using inv by (simp add: I_def Tc_def)
  next
    fix k t assume k: "lo \<le> k" "k < hi" and i: "I k t"
    obtain rp ci vs where t: "t = (rp, ci, vs)" by (cases t)
    define T where "T = Tc @ map entry [lo ..< k]"
    have len: "length T = k"
      using k lTc by (simp add: T_def)
    have invT: "scatter_inv ?R ?N T (rp, ci, vs)"
      using i t by (simp add: I_def T_def)
    have kk: "length T < length ?R"
      using len k lohi by simp
    from scatter_entry_step [OF invT kk csc_valid_rows [OF v sq] lV, of "int c"]
    obtain s' where "scatter_entry ?R ?V (int c) (int (length T)) (rp, ci, vs) = Inr s'"
      and "scatter_inv ?R ?N (T @ [(?R ! length T, int c, ?V ! length T)]) s'"
      by blast
    then have "scatter_entry ?R ?V (int c) (int k) (rp, ci, vs) = Inr s'"
      and "scatter_inv ?R ?N (T @ [(?R ! k, int c, ?V ! k)]) s'"
      unfolding len by simp_all
    moreover have "T @ [(?R ! k, int c, ?V ! k)] = Tc @ map entry [lo ..< Suc k]"
      using k by (simp add: entry_def T_def)
    ultimately show "\<exists>t'. scatter_entry ?R ?V (int c) (int k) t = Inr t' \<and> I (Suc k) t'"
      by (simp add: I_def t)
  qed
  then obtain t where r: "for_loop (int lo) (int hi) (scatter_entry ?R ?V (int c)) s = Inr t"
    and i: "I hi t" by blast
  have "Tc @ map entry [lo ..< hi] = concat (map (csc_column A) [0 ..< Suc c])"
    by (simp add: Tc_def entry_def csc_column_def lo_def hi_def)
  with i have "scatter_inv ?R ?N (concat (map (csc_column A) [0 ..< Suc c])) t"
    by (simp add: I_def)
  moreover have "rd ?CP (int c) = Inr (?CP ! c)"
    using c lCP by (intro rd_nat) simp
  moreover have "rd ?CP (int (Suc c)) = Inr (?CP ! Suc c)"
    using c lCP by (intro rd_nat) simp
  then have "rd ?CP (int c + 1) = Inr (?CP ! Suc c)"
    by (simp add: add.commute)
  ultimately show ?thesis
    using r lohi by (simp add: scatter_column_def bindE_def)
qed

lemma pass_scatter:
  assumes v: "csc_valid A" and sq: "num_rows A = num_columns A"
    and inv: "scatter_inv (row_data A) (nat (num_columns A)) [] s"
  shows "\<exists>s'. for_loop 0 (num_columns A)
                 (scatter_column (row_data A) (col_data A) (val_data A)) s = Inr s'
           \<and> scatter_inv (row_data A) (nat (num_columns A)) (csc_triples A) s'"
proof -
  let ?N = "nat (num_columns A)"
  define I where "I = (\<lambda>c s. scatter_inv (row_data A) ?N (concat (map (csc_column A) [0 ..< c])) s)"
  have "\<exists>t. for_loop (int 0) (int ?N) (scatter_column (row_data A) (col_data A) (val_data A)) s
      = Inr t \<and> I ?N t"
  proof (rule for_loop_inv_nat)
    show "I 0 s" using inv by (simp add: I_def)
  next
    fix c t assume "c < ?N" and "I c t"
    with scatter_column_step [OF v sq, of c t]
    show "\<exists>t'. scatter_column (row_data A) (col_data A) (val_data A) (int c) t = Inr t'
        \<and> I (Suc c) t'"
      by (simp add: I_def)
  qed simp
  moreover from v have "int ?N = num_columns A" by (simp add: csc_valid_def)
  ultimately show ?thesis by (simp add: I_def csc_triples_def)
qed

lemma pass_unshift:
  assumes l: "length rp = N + 1"
    and nxt: "\<forall>r < N. rp ! r = int (row_start R (Suc r))"
    and z: "row_start R 0 = 0"
  shows "\<exists>rp' lst. for_loop 0 (int N + 1) unshift_step ((rp, ci, vs), 0) = Inr ((rp', ci, vs), lst)
           \<and> length rp' = N + 1 \<and> (\<forall>r \<le> N. rp' ! r = int (row_start R r))"
proof -
  define I where "I = (\<lambda>(k::nat) (st::csr_arrays \<times> int). case st of ((rp', ci', vs'), lst) \<Rightarrow>
      ci' = ci \<and> vs' = vs \<and> length rp' = N + 1
      \<and> (k \<le> N \<longrightarrow> lst = int (row_start R k))
      \<and> (\<forall>r < k. rp' ! r = int (row_start R r))
      \<and> (\<forall>r. k \<le> r \<and> r \<le> N \<longrightarrow> rp' ! r = rp ! r))"
  have "\<exists>t. for_loop (int 0) (int (N + 1)) unshift_step ((rp, ci, vs), 0) = Inr t \<and> I (N + 1) t"
  proof (rule for_loop_inv_nat)
    show "I 0 ((rp, ci, vs), 0)"
      using assms by (simp add: I_def)
  next
    fix k t assume k: "k < N + 1" and inv: "I k t"
    obtain rp' ci' vs' lst where t: "t = ((rp', ci', vs'), lst)" by (cases t) auto
    from inv t k have l': "length rp' = N + 1" and c: "ci' = ci" "vs' = vs"
      and ls: "lst = int (row_start R k)"
      and lo: "\<forall>r < k. rp' ! r = int (row_start R r)"
      and hi: "\<forall>r. k \<le> r \<and> r \<le> N \<longrightarrow> rp' ! r = rp ! r"
      by (simp_all add: I_def)
    have r1: "rd rp' (int k) = Inr (rp' ! k)" using k l' by (intro rd_nat) simp
    have w: "wr rp' (int k) lst = Inr (rp'[k := lst])" using k l' by (intro wr_nat) simp
    have "I (Suc k) ((rp'[k := lst], ci', vs'), rp' ! k)"
      using l' c ls lo hi k nxt
      by (auto simp: I_def nth_list_update less_Suc_eq)
    then show "\<exists>t'. unshift_step (int k) t = Inr t' \<and> I (Suc k) t'"
      by (simp add: unshift_step_def t r1 w bindE_def)
  qed simp
  then obtain t where r: "for_loop 0 (int N + 1) unshift_step ((rp, ci, vs), 0) = Inr t"
    and inv: "I (N + 1) t" by (auto simp: add.commute)
  obtain rp' ci' vs' lst where t: "t = ((rp', ci', vs'), lst)" by (cases t) auto
  from inv t r show ?thesis by (auto simp: I_def less_Suc_eq_le)
qed


lemma csc_triples_rows:
  assumes v: "csc_valid A"
  shows "length (csc_triples A) = length (row_data A)"
proof -
  have "length (csc_triples A) = nat (col_data A ! nat (num_columns A))"
    unfolding csc_triples_def using v by (intro length_csc_prefix) simp_all
  with v show ?thesis by (simp add: csc_valid_def)
qed

lemma csc2csr_arrays:
  assumes v: "csc_valid A" and sq: "num_rows A = num_columns A"
    and d: "csr_allocated D"
    and dims: "num_rows D = num_rows A" "num_columns D = num_columns A" "num_nnz D = num_nnz A"
  shows "\<exists>rp ci vs.
           csc2csr A D = Inr (0, D\<lparr>row_data := rp, col_data := ci, val_data := vs\<rparr>)
         \<and> length rp = nat (num_columns A) + 1
         \<and> (\<forall>r \<le> nat (num_columns A). rp ! r = int (row_start (row_data A) r))
         \<and> (\<forall>r < nat (num_columns A).
               map (\<lambda>p. (ci ! p, vs ! p)) [row_start (row_data A) r ..< row_start (row_data A) (Suc r)]
               = map snd (filter (\<lambda>t. fst t = int r) (csc_triples A)))"
proof -
  let ?R = "row_data A" and ?CP = "col_data A" and ?V = "val_data A"
  define N where "N = nat (num_columns A)"
  define Z where "Z = length ?R"
  from v have n: "num_columns A = int N" and z: "num_nnz A = int Z"
    by (simp_all add: csc_valid_def N_def Z_def)
  from v sq have rows: "\<forall>x \<in> set ?R. 0 \<le> x \<and> x < int N"
    unfolding N_def by (rule csc_valid_rows)
  from d dims sq n z have l0: "length (row_data D) = N + 1" "length (col_data D) = Z"
    "length (val_data D) = Z"
    by (simp_all add: csr_allocated_def)
  define rp1 where "rp1 = replicate (N + 1) (0::int)"
  have p1: "for_loop 0 (int N + 1) zero_row_ptr (row_data D, col_data D, val_data D)
      = Inr (rp1, col_data D, val_data D)"
    unfolding rp1_def using l0(1) by (rule pass_zero_rows)
  have p2: "for_loop 0 (int Z) zero_entry (rp1, col_data D, val_data D)
      = Inr (rp1, replicate Z 0, replicate Z (Finite 0))"
    using l0(2,3) by (rule pass_zero_entries)
  from pass_count [OF rows, of "replicate Z 0" "replicate Z (Finite 0)"]
  obtain rp3 where p3: "for_loop 0 (int Z) (count_entry ?R)
        (rp1, replicate Z 0, replicate Z (Finite 0))
      = Inr (rp3, replicate Z 0, replicate Z (Finite 0))"
    and l3: "length rp3 = N + 1" and c3: "\<forall>r < N. rp3 ! r = int (row_count ?R r)"
    and e3: "rp3 ! N = 0"
    unfolding rp1_def Z_def by blast
  from rows have nonneg: "\<forall>x \<in> set ?R. 0 \<le> x" by simp
  from pass_cumsum [OF l3 c3 e3 nonneg, of "replicate Z 0" "replicate Z (Finite 0)"]
  obtain rp4 where p4: "for_loop 0 (int N) cumsum_step
        ((rp3, replicate Z 0, replicate Z (Finite 0)), 0)
      = Inr ((rp4, replicate Z 0, replicate Z (Finite 0)), int (row_start ?R N))"
    and l4: "length rp4 = N + 1" and c4: "\<forall>r < N. rp4 ! r = int (row_start ?R r)"
    by blast
  have w: "wr rp4 (int N) (int Z) = Inr (rp4[N := int Z])"
    using l4 by (intro wr_nat) simp
  have inv0: "scatter_inv ?R (nat (num_columns A)) []
      (rp4[N := int Z], replicate Z 0, replicate Z (Finite 0))"
    using l4 c4 by (simp add: scatter_inv_def N_def [symmetric] Z_def)
  from pass_scatter [OF v sq inv0]
  obtain rp6 ci6 vs6 where p5: "for_loop 0 (int N) (scatter_column ?R ?CP ?V)
        (rp4[N := int Z], replicate Z 0, replicate Z (Finite 0)) = Inr (rp6, ci6, vs6)"
    and inv6: "scatter_inv ?R N (csc_triples A) (rp6, ci6, vs6)"
    by (auto simp: n N_def [symmetric])
  have lT: "length (csc_triples A) = length ?R"
    using v by (rule csc_triples_rows)
  from inv6 lT have fstT: "map fst (csc_triples A) = ?R"
    by (simp add: scatter_inv_def)
  have cntT: "length (filter (\<lambda>t. fst t = int r) (csc_triples A)) = row_count ?R r" for r
    using fstT by (rule filter_fst_count)
  from inv6 have l6: "length rp6 = N + 1"
    and c6: "\<forall>r < N. rp6 ! r = int (row_start ?R (Suc r))"
    and seg6: "\<forall>r < N. map (\<lambda>p. (ci6 ! p, vs6 ! p)) [row_start ?R r ..< row_start ?R (Suc r)]
        = map snd (filter (\<lambda>t. fst t = int r) (csc_triples A))"
    by (simp_all add: scatter_inv_def cntT row_start_Suc)
  from pass_unshift [OF l6 c6 row_start_0 [OF nonneg], of ci6 vs6]
  obtain rp7 lst where p6: "for_loop 0 (int N + 1) unshift_step ((rp6, ci6, vs6), 0)
      = Inr ((rp7, ci6, vs6), lst)"
    and l7: "length rp7 = N + 1" and c7: "\<forall>r \<le> N. rp7 ! r = int (row_start ?R r)"
    by blast
  have "csc2csr A D = Inr (0, D\<lparr>row_data := rp7, col_data := ci6, val_data := vs6\<rparr>)"
    using dims
    by (simp add: csc2csr_def getNnz_def getNumRows_def getNumColumns_def Let_def n z
        p1 p2 p3 p4 w p5 p6 bindE_def)
  with l7 c7 seg6 show ?thesis
    unfolding N_def by blast
qed


lemma mset_filter_split:
  "mset (filter (\<lambda>t. 0 \<le> fst t \<and> fst t < int n) T) + mset (filter (\<lambda>t. fst t = int n) T)
   = mset (filter (\<lambda>t. 0 \<le> fst t \<and> fst t < int (Suc n)) (T :: (int \<times> 'a) list))"
  by (induction T) auto

lemma mset_concat_rows:
  "mset (concat (map (\<lambda>r. filter (\<lambda>t. fst t = int r) T) [0 ..< n]))
   = mset (filter (\<lambda>t. 0 \<le> fst t \<and> fst t < int n) (T :: (int \<times> 'a) list))"
proof (induction n)
  case 0
  have "filter (\<lambda>t. 0 \<le> fst t \<and> fst t < int 0) T = []"
    by (induction T) auto
  then show ?case by simp
next
  case (Suc n)
  then show ?case
    using mset_filter_split [of n T] by simp
qed

lemma csc_triples_fst:
  assumes v: "csc_valid A"
  shows "\<forall>t \<in> set (csc_triples A). fst t \<in> set (row_data A)"
proof -
  have "fst t \<in> set (row_data A)" if "c < nat (num_columns A)" "t \<in> set (csc_column A c)" for c t
  proof -
    from csc_valid_cols [OF v that(1)]
    have "nat (col_data A ! Suc c) \<le> nat (num_nnz A)"
      by (intro nat_mono) simp
    with v have "nat (col_data A ! Suc c) \<le> length (row_data A)"
      by (simp add: csc_valid_def)
    with that(2) show ?thesis
      by (auto simp: csc_column_def)
  qed
  then show ?thesis by (auto simp: csc_triples_def)
qed

lemma map_snd_filter_fst:
  "map (\<lambda>cv. (a, cv)) (map snd (filter (\<lambda>t. fst t = a) T)) = filter (\<lambda>t. fst t = a) T"
  by (induction T) auto

text \<open>
  On a square source with valid structure and an allocated destination of the same
  dimensions, whatever the destination holds, the conversion returns 0 and a matrix
  whose pointer array satisfies the CSR invariant; each row of the result lists the
  entries of that row in the order of the source; so the result represents the same
  multiset of triples as the source.
\<close>

lemma csc2csr_square_rows:
  assumes v: "csc_valid A" and sq: "num_rows A = num_columns A"
    and d: "csr_allocated D"
    and dims: "num_rows D = num_rows A" "num_columns D = num_columns A" "num_nnz D = num_nnz A"
  shows "\<exists>M. csc2csr A D = Inr (0, M)
           \<and> num_rows M = num_rows A \<and> num_columns M = num_columns A \<and> num_nnz M = num_nnz A
           \<and> csr_pointers_valid M
           \<and> (\<forall>r < nat (num_rows A). csr_row M r = filter (\<lambda>t. fst t = int r) (csc_triples A))
           \<and> mset (csr_triples M) = mset (csc_triples A)"
proof -
  let ?R = "row_data A"
  define N where "N = nat (num_columns A)"
  from csc2csr_arrays [OF assms]
  obtain rp ci vs where run: "csc2csr A D = Inr (0, D\<lparr>row_data := rp, col_data := ci, val_data := vs\<rparr>)"
    and l: "length rp = N + 1"
    and ptr: "\<And>r. r \<le> N \<Longrightarrow> rp ! r = int (row_start ?R r)"
    and seg: "\<And>r. r < N \<Longrightarrow>
        map (\<lambda>p. (ci ! p, vs ! p)) [row_start ?R r ..< row_start ?R (Suc r)]
        = map snd (filter (\<lambda>t. fst t = int r) (csc_triples A))"
    unfolding N_def by blast
  define M where "M = D\<lparr>row_data := rp, col_data := ci, val_data := vs\<rparr>"
  from v sq have rows: "\<forall>x \<in> set ?R. 0 \<le> x \<and> x < int N"
    unfolding N_def by (rule csc_valid_rows)
  from v have nN: "num_columns A = int N" and zR: "num_nnz A = int (length ?R)"
    by (simp_all add: csc_valid_def N_def)
  have first: "rp ! 0 = 0"
    using ptr [of 0] rows by (simp add: row_start_0)
  have final: "rp ! N = int (length ?R)"
    using ptr [of N] rows by (simp add: row_start_all)
  have "sorted rp"
    unfolding sorted_iff_nth_mono
  proof (intro allI impI)
    fix i j assume "i \<le> j" "j < length rp"
    with l have "i \<le> N" "j \<le> N" by simp_all
    with \<open>i \<le> j\<close> show "rp ! i \<le> rp ! j"
      by (simp add: ptr row_start_mono)
  qed
  with l first final dims sq nN zR have pv: "csr_pointers_valid M"
    by (simp add: csr_pointers_valid_def M_def)
  have row: "csr_row M r = filter (\<lambda>t. fst t = int r) (csc_triples A)" if r: "r < N" for r
  proof -
    have "csr_row M r = map (\<lambda>p. (int r, ci ! p, vs ! p)) [row_start ?R r ..< row_start ?R (Suc r)]"
      using r by (simp add: csr_row_def M_def ptr)
    also have "\<dots> = map (\<lambda>cv. (int r, cv))
        (map (\<lambda>p. (ci ! p, vs ! p)) [row_start ?R r ..< row_start ?R (Suc r)])"
      by simp
    also have "\<dots> = map (\<lambda>cv. (int r, cv)) (map snd (filter (\<lambda>t. fst t = int r) (csc_triples A)))"
      using seg [OF r] by simp
    also have "\<dots> = filter (\<lambda>t. fst t = int r) (csc_triples A)"
      by (rule map_snd_filter_fst)
    finally show ?thesis .
  qed
  have mapeq: "map (csr_row M) [0 ..< N]
      = map (\<lambda>r. filter (\<lambda>t. fst t = int r) (csc_triples A)) [0 ..< N]"
    by (rule map_cong) (simp_all add: row)
  have nrows: "nat (num_rows M) = N"
    using dims sq nN by (simp add: M_def)
  have "csr_triples M = concat (map (\<lambda>r. filter (\<lambda>t. fst t = int r) (csc_triples A)) [0 ..< N])"
    unfolding csr_triples_def nrows mapeq ..
  then have "mset (csr_triples M)
      = mset (filter (\<lambda>t. 0 \<le> fst t \<and> fst t < int N) (csc_triples A))"
    by (simp only: mset_concat_rows)
  also have "filter (\<lambda>t. 0 \<le> fst t \<and> fst t < int N) (csc_triples A) = csc_triples A"
    using csc_triples_fst [OF v] rows by (intro filter_True) auto
  finally have ms: "mset (csr_triples M) = mset (csc_triples A)" .
  from run pv row ms dims sq nN show ?thesis
    by (auto simp: M_def)
qed

text \<open>The triples of a source are listed by column.\<close>

lemma csc_triples_columns_upto:
  "t \<in> set (concat (map (csc_column A) [0 ..< n])) \<Longrightarrow> fst (snd t) < int n"
  by (auto simp: csc_column_def)

lemma csc_triples_columns_sorted:
  "sorted (map (\<lambda>t. fst (snd t)) (concat (map (csc_column A) [0 ..< n])))"
proof (induction n)
  case 0
  show ?case by simp
next
  case (Suc n)
  have col: "map (\<lambda>t. fst (snd t)) (csc_column A n)
      = replicate (length (csc_column A n)) (int n)"
    by (simp add: csc_column_def comp_def map_replicate_const)
  have "\<forall>x \<in> set (map (\<lambda>t. fst (snd t)) (concat (map (csc_column A) [0 ..< n]))).
      \<forall>y \<in> set (replicate (length (csc_column A n)) (int n)). x \<le> y"
  proof (intro ballI)
    fix x y
    assume "x \<in> set (map (\<lambda>t. fst (snd t)) (concat (map (csc_column A) [0 ..< n])))"
      and "y \<in> set (replicate (length (csc_column A n)) (int n))"
    then obtain t where "t \<in> set (concat (map (csc_column A) [0 ..< n]))"
      and "x = fst (snd t)" and "y = int n"
      by auto
    with csc_triples_columns_upto [of t A n] show "x \<le> y"
      by simp
  qed
  with Suc show ?case
    by (simp add: sorted_append col sorted_replicate del: set_concat set_map set_replicate)
qed

lemma sorted_position:
  assumes "sorted (xs :: int list)" and "i < length xs" and "j < length xs" and "xs ! i < xs ! j"
  shows "i < j"
proof (rule ccontr)
  assume "\<not> i < j"
  then have "j \<le> i" by simp
  with assms(1,2) have "xs ! j \<le> xs ! i"
    by (simp add: sorted_iff_nth_mono)
  with assms(4) show False by simp
qed

text \<open>
  Claim C1, as amended. For every square CSC source with valid structure and every
  allocated destination of the same dimensions and nnz, whatever the destination holds:
  the conversion returns 0 and, in the destination, a matrix of these dimensions whose
  pointer array is non-decreasing, starts at 0 and ends at nnz, and which represents the
  same multiset of (row, column, value) triples as the source.
\<close>

theorem csc2csr_square_valid:
  assumes "csc_valid A" and "num_rows A = num_columns A"
    and "csr_allocated D"
    and "num_rows D = num_rows A" and "num_columns D = num_columns A"
    and "num_nnz D = num_nnz A"
  shows "\<exists>M. csc2csr A D = Inr (0, M)
           \<and> num_rows M = num_rows A \<and> num_columns M = num_columns A \<and> num_nnz M = num_nnz A
           \<and> sparse_format M = sparse_format D
           \<and> csr_pointers_valid M
           \<and> mset (csr_triples M) = mset (csc_triples A)"
proof -
  from csc2csr_arrays [OF assms]
  obtain rp ci vs where run: "csc2csr A D = Inr (0, D\<lparr>row_data := rp, col_data := ci, val_data := vs\<rparr>)"
    by blast
  from csc2csr_square_rows [OF assms]
  obtain M where m: "csc2csr A D = Inr (0, M)"
    "num_rows M = num_rows A" "num_columns M = num_columns A" "num_nnz M = num_nnz A"
    "csr_pointers_valid M" "mset (csr_triples M) = mset (csc_triples A)"
    by blast
  from run m(1) have "sparse_format M = sparse_format D"
    by simp
  with m show ?thesis by blast
qed

theorem csc2csr_square_valid_witness:
  "csc_valid square22 \<and> num_rows square22 = num_columns square22 \<and> csr_allocated square22_dst
   \<and> csc2csr square22 square22_dst
       = Inr (0, square22_dst\<lparr>row_data := [0, 1, 3], col_data := [1, 0, 1],
                                val_data := [Finite 7, Finite 5, Finite 8]\<rparr>)
   \<and> (\<exists>M. csc2csr square22 square22_dst = Inr (0, M)
         \<and> csr_pointers_valid M
         \<and> mset (csr_triples M) = mset (csc_triples square22))"
proof -
  have v: "csc_valid square22" and sq: "num_rows square22 = num_columns square22"
    and d: "csr_allocated square22_dst"
    and dims: "num_rows square22_dst = num_rows square22"
      "num_columns square22_dst = num_columns square22" "num_nnz square22_dst = num_nnz square22"
    by (simp_all add: csc_valid_def csr_allocated_def square22_def square22_dst_def)
  have r: "csc2csr square22 square22_dst
      = Inr (0, square22_dst\<lparr>row_data := [0, 1, 3], col_data := [1, 0, 1],
                               val_data := [Finite 7, Finite 5, Finite 8]\<rparr>)"
    by (rule csc2csr_square_example)
  from csc2csr_square_valid [OF v sq d dims] v sq d r
  show ?thesis by simp
qed

text \<open>
  Claim C2, as amended. For every square CSC source with valid structure and every
  allocated destination of the same dimensions and nnz: in the matrix the conversion
  returns, the segment of each row holds the source's entries of that row in the order
  in which the source lists them, column by column; so of two entries of a row from
  columns \<open>c1 < c2\<close> the one from \<open>c1\<close> stands at the strictly smaller position of
  the segment.
\<close>

theorem csc2csr_square_stable:
  assumes "csc_valid A" and "num_rows A = num_columns A"
    and "csr_allocated D"
    and "num_rows D = num_rows A" and "num_columns D = num_columns A"
    and "num_nnz D = num_nnz A"
  shows "\<exists>M. csc2csr A D = Inr (0, M)
           \<and> (\<forall>r < nat (num_rows A).
                 csr_row M r = filter (\<lambda>t. fst t = int r) (csc_triples A)
               \<and> (\<forall>i j. i < length (csr_row M r) \<and> j < length (csr_row M r)
                       \<and> fst (snd (csr_row M r ! i)) < fst (snd (csr_row M r ! j))
                     \<longrightarrow> i < j))"
proof -
  from csc2csr_square_rows [OF assms]
  obtain M where run: "csc2csr A D = Inr (0, M)"
    and row: "\<forall>r < nat (num_rows A). csr_row M r = filter (\<lambda>t. fst t = int r) (csc_triples A)"
    by blast
  have pos: "i < j"
    if r: "r < nat (num_rows A)" and i: "i < length (csr_row M r)" and j: "j < length (csr_row M r)"
      and c: "fst (snd (csr_row M r ! i)) < fst (snd (csr_row M r ! j))" for r i j
  proof -
    have "sorted (map (\<lambda>t. fst (snd t)) (csc_triples A))"
      unfolding csc_triples_def by (rule csc_triples_columns_sorted)
    then have "sorted (map (\<lambda>t. fst (snd t)) (filter (\<lambda>t. fst t = int r) (csc_triples A)))"
      by (rule sorted_filter)
    with row r have s: "sorted (map (\<lambda>t. fst (snd t)) (csr_row M r))"
      by simp
    have "map (\<lambda>t. fst (snd t)) (csr_row M r) ! i < map (\<lambda>t. fst (snd t)) (csr_row M r) ! j"
      using i j c by simp
    with s i j show ?thesis
      using sorted_position [of "map (\<lambda>t. fst (snd t)) (csr_row M r)" i j] by simp
  qed
  show ?thesis
  proof (intro exI [of _ M] conjI allI impI)
    show "csc2csr A D = Inr (0, M)"
      by (rule run)
  next
    fix r assume "r < nat (num_rows A)"
    with row show "csr_row M r = filter (\<lambda>t. fst t = int r) (csc_triples A)"
      by simp
  next
    fix r i j
    assume "r < nat (num_rows A)"
      and "i < length (csr_row M r) \<and> j < length (csr_row M r)
        \<and> fst (snd (csr_row M r ! i)) < fst (snd (csr_row M r ! j))"
    then show "i < j"
      using pos [of r i j] by simp
  qed
qed

theorem csc2csr_square_stable_witness:
  "csc_valid square22 \<and> num_rows square22 = num_columns square22 \<and> csr_allocated square22_dst
   \<and> filter (\<lambda>t. fst t = 1) (csc_triples square22) = [(1, 0, Finite 5), (1, 1, Finite 8)]
   \<and> (\<exists>M. csc2csr square22 square22_dst = Inr (0, M)
         \<and> csr_row M 0 = [(0, 1, Finite 7)]
         \<and> csr_row M 1 = [(1, 0, Finite 5), (1, 1, Finite 8)])"
proof -
  have v: "csc_valid square22" and sq: "num_rows square22 = num_columns square22"
    and d: "csr_allocated square22_dst"
    and dims: "num_rows square22_dst = num_rows square22"
      "num_columns square22_dst = num_columns square22" "num_nnz square22_dst = num_nnz square22"
    by (simp_all add: csc_valid_def csr_allocated_def square22_def square22_dst_def)
  have n: "nat (num_rows square22) = 2"
    by (simp add: square22_def)
  have t: "csc_triples square22 = [(1, 0, Finite 5), (0, 1, Finite 7), (1, 1, Finite 8)]"
    by (simp add: csc_triples_def csc_column_def square22_def numeral_2_eq_2 numeral_3_eq_3 upt_rec)
  from csc2csr_square_stable [OF v sq d dims]
  obtain M where m: "csc2csr square22 square22_dst = Inr (0, M)"
    and rows: "\<forall>r < nat (num_rows square22).
        csr_row M r = filter (\<lambda>t. fst t = int r) (csc_triples square22)"
    by blast
  from rows have "csr_row M 0 = [(0, 1, Finite 7)]"
    and "csr_row M 1 = [(1, 0, Finite 5), (1, 1, Finite 8)]"
    unfolding n t by (simp_all add: numeral_2_eq_2)
  with m v sq d t show ?thesis by auto
qed

section \<open>The conversion on rectangular matrices\<close>

text \<open>
  Claim C1 as stated covers every source with valid structure. Every loop over the row
  pointers runs to the number of columns. On the 1 by 2 source the first loop writes
  slot 2 of a pointer array with 2 slots, and no matrix is returned. On the 2 by 1
  source the last pointer slot is never written: the conversion returns 0 with the
  pointer array \<open>[0, 1, 0]\<close>, which is not non-decreasing and does not end at nnz.
\<close>

theorem csc2csr_rectangular_counterexample:
  "csc_valid wide12 \<and> csr_allocated wide12_dst
   \<and> num_rows wide12_dst = num_rows wide12 \<and> num_columns wide12_dst = num_columns wide12
   \<and> num_nnz wide12_dst = num_nnz wide12
   \<and> csc2csr wide12 wide12_dst = Inl OutOfBounds
   \<and> csc_valid tall21 \<and> csr_allocated tall21_dst
   \<and> num_rows tall21_dst = num_rows tall21 \<and> num_columns tall21_dst = num_columns tall21
   \<and> num_nnz tall21_dst = num_nnz tall21
   \<and> csc2csr tall21 tall21_dst
       = Inr (0, tall21_dst\<lparr>row_data := [0, 1, 0], col_data := [0], val_data := [Finite 5]\<rparr>)
   \<and> \<not> csr_pointers_valid
         (tall21_dst\<lparr>row_data := [0, 1, 0], col_data := [0], val_data := [Finite 5]\<rparr>)"
proof -
  have w: "csc_valid wide12 \<and> csr_allocated wide12_dst
      \<and> num_rows wide12_dst = num_rows wide12 \<and> num_columns wide12_dst = num_columns wide12
      \<and> num_nnz wide12_dst = num_nnz wide12"
    by (simp add: csc_valid_def csr_allocated_def wide12_def wide12_dst_def)
  have wr: "csc2csr wide12 wide12_dst = Inl OutOfBounds"
    by (simp add: csc2csr_steps for_loop.simps wide12_def wide12_dst_def)
  have t: "csc_valid tall21 \<and> csr_allocated tall21_dst
      \<and> num_rows tall21_dst = num_rows tall21 \<and> num_columns tall21_dst = num_columns tall21
      \<and> num_nnz tall21_dst = num_nnz tall21"
    by (simp add: csc_valid_def csr_allocated_def tall21_def tall21_dst_def)
  have tr: "csc2csr tall21 tall21_dst
      = Inr (0, tall21_dst\<lparr>row_data := [0, 1, 0], col_data := [0], val_data := [Finite 5]\<rparr>)"
    by (simp add: csc2csr_steps for_loop.simps tall21_def tall21_dst_def)
  have tv: "\<not> csr_pointers_valid
      (tall21_dst\<lparr>row_data := [0, 1, 0], col_data := [0], val_data := [Finite 5]\<rparr>)"
    by (simp add: csr_pointers_valid_def tall21_dst_def numeral_2_eq_2)
  from w wr t tr tv show ?thesis by blast
qed

text \<open>
  Claim C2 as stated covers every source with valid structure. On the 6 by 4 source the
  counts of the rows beyond the number of columns are never turned into offsets, so the
  entry of row 5, from column 3, is written at position 1, over the entry of row 0 from
  column 1. The conversion returns 0 with the pointer array \<open>[0, 3, 3, 3, 3, 2, 0]\<close>:
  the segment of row 0 holds the columns 0, 3, 2 in this order, the entry from column 3
  before the entry from column 2, where the source has the columns 0, 1, 2 in row 0.
\<close>

theorem csc2csr_order_counterexample:
  "csc_valid tall64 \<and> csr_allocated tall64_dst
   \<and> num_rows tall64_dst = num_rows tall64 \<and> num_columns tall64_dst = num_columns tall64
   \<and> num_nnz tall64_dst = num_nnz tall64
   \<and> csc2csr tall64 tall64_dst
       = Inr (0, tall64_dst\<lparr>row_data := [0, 3, 3, 3, 3, 2, 0], col_data := [0, 3, 2, 0],
                              val_data := [Finite 1, Finite 4, Finite 3, Finite 0]\<rparr>)
   \<and> filter (\<lambda>t. fst t = 0) (csc_triples tall64)
       = [(0, 0, Finite 1), (0, 1, Finite 2), (0, 2, Finite 3)]
   \<and> csr_row (tall64_dst\<lparr>row_data := [0, 3, 3, 3, 3, 2, 0], col_data := [0, 3, 2, 0],
                           val_data := [Finite 1, Finite 4, Finite 3, Finite 0]\<rparr>) 0
       = [(0, 0, Finite 1), (0, 3, Finite 4), (0, 2, Finite 3)]"
proof -
  have v: "csc_valid tall64 \<and> csr_allocated tall64_dst
      \<and> num_rows tall64_dst = num_rows tall64 \<and> num_columns tall64_dst = num_columns tall64
      \<and> num_nnz tall64_dst = num_nnz tall64"
    by (simp add: csc_valid_def csr_allocated_def tall64_def tall64_dst_def)
  have r: "csc2csr tall64 tall64_dst
      = Inr (0, tall64_dst\<lparr>row_data := [0, 3, 3, 3, 3, 2, 0], col_data := [0, 3, 2, 0],
                             val_data := [Finite 1, Finite 4, Finite 3, Finite 0]\<rparr>)"
    by (simp add: csc2csr_steps for_loop.simps tall64_def tall64_dst_def)
  have s: "filter (\<lambda>t. fst t = 0) (csc_triples tall64)
      = [(0, 0, Finite 1), (0, 1, Finite 2), (0, 2, Finite 3)]"
    by (simp add: csc_triples_def csc_column_def tall64_def upt_rec)
  have m: "csr_row (tall64_dst\<lparr>row_data := [0, 3, 3, 3, 3, 2, 0], col_data := [0, 3, 2, 0],
                          val_data := [Finite 1, Finite 4, Finite 3, Finite 0]\<rparr>) 0
      = [(0, 0, Finite 1), (0, 3, Finite 4), (0, 2, Finite 3)]"
    by (simp add: csr_row_def tall64_dst_def upt_rec)
  from v r s m show ?thesis by blast
qed

end
